theory Spec2Isabelle
  imports Main "HOL-Library.Sublist"
begin

section \<open>Python values, errors and struct.pack\<close>

text \<open>
  The exporter is a Python 2 script (it uses the print statement), so a \<open>str\<close> is a
  byte string and \<open>len\<close> counts bytes: strings and file contents are \<open>string\<close>.
  Python integers are unbounded: \<open>int\<close>. A bool is the integer 0 or 1.
\<close>

datatype pyval = PInt int | PStr string

text \<open>One item of a print statement or of a formatted message; \<open>Today\<close> stands for
  the value of \<open>datetime.datetime.today()\<close>.\<close>

datatype out = Str string | Num int | Today

datatype error =
    Exception "out list"
  | TypeError
  | StructError
  | NameError
  | ValueError
  | IOError
  | OSError

text \<open>Big-endian two's complement, \<open>k\<close> bytes (the \<open>!\<close> byte order of struct).\<close>

fun be_bytes :: "nat \<Rightarrow> int \<Rightarrow> string" where
  "be_bytes 0 v = []"
| "be_bytes (Suc k) v = be_bytes k (v div 256) @ [char_of v]"

text \<open>The format characters the script uses: \<open>h\<close>, \<open>i\<close>, \<open>q\<close>, \<open>B\<close> and \<open>{n}s\<close>.
  With \<open>!\<close> there is no padding between items.\<close>

datatype fmt = Fh | Fi | Fq | FB | Fs nat

fun pack_item :: "fmt \<Rightarrow> pyval \<Rightarrow> string option" where
  "pack_item Fh (PInt v) = (if - (2 ^ 15) \<le> v \<and> v < 2 ^ 15 then Some (be_bytes 2 v) else None)"
| "pack_item Fi (PInt v) = (if - (2 ^ 31) \<le> v \<and> v < 2 ^ 31 then Some (be_bytes 4 v) else None)"
| "pack_item Fq (PInt v) = (if - (2 ^ 63) \<le> v \<and> v < 2 ^ 63 then Some (be_bytes 8 v) else None)"
| "pack_item FB (PInt v) = (if 0 \<le> v \<and> v < 256 then Some (be_bytes 1 v) else None)"
| "pack_item (Fs n) (PStr s) = Some (take n s @ replicate (n - length s) (CHR 0x00))"
| "pack_item _ _ = None"

text \<open>\<open>struct.pack(fmt, v1, ..., vn)\<close>: struct.error when the number of values differs
  from the number of format items, when a value has the wrong type, or when an integer
  is out of the item's range.\<close>

fun struct_pack :: "fmt list \<Rightarrow> pyval list \<Rightarrow> error + string" where
  "struct_pack [] [] = Inr []"
| "struct_pack (f # fs) (v # vs) =
     (case pack_item f v of
        None \<Rightarrow> Inl StructError
      | Some b \<Rightarrow> (case struct_pack fs vs of Inl e \<Rightarrow> Inl e | Inr bs \<Rightarrow> Inr (b @ bs)))"
| "struct_pack _ _ = Inl StructError"

fun py_len :: "pyval \<Rightarrow> error + nat" where
  "py_len (PStr s) = Inr (length s)"
| "py_len (PInt _) = Inl TypeError"

definition bind :: "error + 'a \<Rightarrow> ('a \<Rightarrow> error + 'b) \<Rightarrow> error + 'b" where
  "bind m f = (case m of Inl e \<Rightarrow> Inl e | Inr x \<Rightarrow> f x)"

section \<open>The binary record wire format, as the specification words it\<close>

datatype field = Int64 int | Int32 int | Bool8 int | Text string

fun field_bytes :: "field \<Rightarrow> string" where
  "field_bytes (Int64 v) = be_bytes 8 v"
| "field_bytes (Int32 v) = be_bytes 4 v"
| "field_bytes (Bool8 v) = be_bytes 1 v"
| "field_bytes (Text s) = s"

definition wire_field :: "field \<Rightarrow> string" where
  "wire_field f = be_bytes 4 (int (length (field_bytes f))) @ field_bytes f"

definition wire_row :: "field list \<Rightarrow> string" where
  "wire_row fs = be_bytes 2 (int (length fs)) @ concat (map wire_field fs)"

definition magic :: string where
  "magic = ''PGCOPY'' @ [CHR 0x0A, CHR 0xFF, CHR 0x0D, CHR 0x0A, CHR 0x00]"

definition wire_header :: string where
  "wire_header = magic @ be_bytes 4 0 @ be_bytes 4 0"

definition wire_trailer :: string where
  "wire_trailer = [CHR 0xFF, CHR 0xFF]"

definition wire_file :: "field list list \<Rightarrow> string" where
  "wire_file rows = wire_header @ concat (map wire_row rows) @ wire_trailer"

section \<open>Row encoders: the values passed to struct.pack\<close>

text \<open>The module-level variables set once from the command line.\<close>

record config =
  dbname :: string
  branches :: bool
  perf_db_export_calls :: bool
  perf_db_export_callchains :: bool
  output_dir_name :: string

text \<open>Each \<open>*_row\<close> function is the first half of the encoder of the same name:
  it computes \<open>value\<close>; the encoder then writes it to its file.\<close>

definition evsel_row :: "pyval \<Rightarrow> pyval \<Rightarrow> error + string" where
  "evsel_row evsel_id evsel_name =
     bind (py_len evsel_name) (\<lambda>n.
       struct_pack [Fh, Fi, Fq, Fi, Fs n]
         [PInt 2, PInt 8, evsel_id, PInt (int n), evsel_name])"

definition machine_row :: "pyval \<Rightarrow> pyval \<Rightarrow> pyval \<Rightarrow> error + string" where
  "machine_row machine_id pid root_dir =
     bind (py_len root_dir) (\<lambda>n.
       struct_pack [Fh, Fi, Fq, Fi, Fi, Fi, Fs n]
         [PInt 3, PInt 8, machine_id, PInt 4, pid, PInt (int n), root_dir])"

definition thread_row :: "pyval \<Rightarrow> pyval \<Rightarrow> pyval \<Rightarrow> pyval \<Rightarrow> pyval \<Rightarrow> error + string" where
  "thread_row thread_id machine_id process_id pid tid =
     struct_pack [Fh, Fi, Fq, Fi, Fq, Fi, Fq, Fi, Fi, Fi, Fi]
       [PInt 5, PInt 8, thread_id, PInt 8, machine_id, PInt 8, process_id,
        PInt 4, pid, PInt 4, tid]"

definition comm_row :: "pyval \<Rightarrow> pyval \<Rightarrow> error + string" where
  "comm_row comm_id comm_str =
     bind (py_len comm_str) (\<lambda>n.
       struct_pack [Fh, Fi, Fq, Fi, Fs n]
         [PInt 2, PInt 8, comm_id, PInt (int n), comm_str])"

definition comm_thread_row :: "pyval \<Rightarrow> pyval \<Rightarrow> pyval \<Rightarrow> error + string" where
  "comm_thread_row comm_thread_id comm_id thread_id =
     struct_pack [Fh, Fi, Fq, Fi, Fq, Fi, Fq]
       [PInt 3, PInt 8, comm_thread_id, PInt 8, comm_id, PInt 8, thread_id]"

definition dso_row :: "pyval \<Rightarrow> pyval \<Rightarrow> pyval \<Rightarrow> pyval \<Rightarrow> pyval \<Rightarrow> error + string" where
  "dso_row dso_id machine_id short_name long_name build_id =
     bind (py_len short_name) (\<lambda>n1.
     bind (py_len long_name) (\<lambda>n2.
     bind (py_len build_id) (\<lambda>n3.
       struct_pack [Fh, Fi, Fq, Fi, Fq, Fi, Fs n1, Fi, Fs n2, Fi, Fs n3]
         [PInt 5, PInt 8, dso_id, PInt 8, machine_id, PInt (int n1), short_name,
          PInt (int n2), long_name, PInt (int n3), build_id])))"

definition symbol_row ::
  "pyval \<Rightarrow> pyval \<Rightarrow> pyval \<Rightarrow> pyval \<Rightarrow> pyval \<Rightarrow> pyval \<Rightarrow> error + string" where
  "symbol_row symbol_id dso_id sym_start sym_end binding symbol_name =
     bind (py_len symbol_name) (\<lambda>n.
       struct_pack [Fh, Fi, Fq, Fi, Fq, Fi, Fq, Fi, Fq, Fi, Fi, Fi, Fs n]
         [PInt 6, PInt 8, symbol_id, PInt 8, dso_id, PInt 8, sym_start, PInt 8, sym_end,
          PInt 4, binding, PInt (int n), symbol_name])"

definition branch_type_row :: "pyval \<Rightarrow> pyval \<Rightarrow> error + string" where
  "branch_type_row branch_type name =
     bind (py_len name) (\<lambda>n.
       struct_pack [Fh, Fi, Fi, Fi, Fs n]
         [PInt 2, PInt 4, branch_type, PInt (int n), name])"

text \<open>The 22 named parameters of \<open>sample_table\<close> are bound by position.\<close>

definition sample_row :: "config \<Rightarrow> pyval list \<Rightarrow> error + string" where
  "sample_row c xs =
     (let sample_id = xs ! 0; evsel_id = xs ! 1; machine_id = xs ! 2; thread_id = xs ! 3;
          comm_id = xs ! 4; dso_id = xs ! 5; symbol_id = xs ! 6; sym_offset = xs ! 7;
          ip = xs ! 8; time = xs ! 9; cpu = xs ! 10; to_dso_id = xs ! 11;
          to_symbol_id = xs ! 12; to_sym_offset = xs ! 13; to_ip = xs ! 14;
          period = xs ! 15; weight = xs ! 16; transaction = xs ! 17; data_src = xs ! 18;
          branch_type = xs ! 19; in_tx = xs ! 20; call_path_id = xs ! 21
      in
      if branches c then
        struct_pack
          [Fh, Fi, Fq, Fi, Fq, Fi, Fq, Fi, Fq, Fi, Fq, Fi, Fq, Fi, Fq, Fi, Fq, Fi, Fq, Fi, Fq,
           Fi, Fi, Fi, Fq, Fi, Fq, Fi, Fq, Fi, Fq, Fi, Fi, Fi, FB, Fi, Fq]
          [PInt 18, PInt 8, sample_id, PInt 8, evsel_id, PInt 8, machine_id,
           PInt 8, thread_id, PInt 8, comm_id, PInt 8, dso_id, PInt 8, symbol_id,
           PInt 8, sym_offset, PInt 8, ip, PInt 8, time, PInt 4, cpu,
           PInt 8, to_dso_id, PInt 8, to_symbol_id, PInt 8, to_sym_offset,
           PInt 8, to_ip, PInt 4, branch_type, PInt 1, in_tx, PInt 8, call_path_id]
      else
        struct_pack
          [Fh, Fi, Fq, Fi, Fq, Fi, Fq, Fi, Fq, Fi, Fq, Fi, Fq, Fi, Fq, Fi, Fq, Fi, Fq, Fi, Fq,
           Fi, Fi, Fi, Fq, Fi, Fq, Fi, Fq, Fi, Fq, Fi, Fq, Fi, Fq, Fi, Fq, Fi, Fq, Fi, Fi,
           Fi, FB, Fi, Fq]
          [PInt 22, PInt 8, sample_id, PInt 8, evsel_id, PInt 8, machine_id,
           PInt 8, thread_id, PInt 8, comm_id, PInt 8, dso_id, PInt 8, symbol_id,
           PInt 8, sym_offset, PInt 8, ip, PInt 8, time, PInt 4, cpu,
           PInt 8, to_dso_id, PInt 8, to_symbol_id, PInt 8, to_sym_offset,
           PInt 8, to_ip, PInt 8, period, PInt 8, weight, PInt 8, transaction,
           PInt 8, data_src, PInt 4, branch_type, PInt 1, in_tx,
           PInt 8, call_path_id])"

definition call_path_row :: "pyval \<Rightarrow> pyval \<Rightarrow> pyval \<Rightarrow> pyval \<Rightarrow> error + string" where
  "call_path_row cp_id parent_id symbol_id ip =
     struct_pack [Fh, Fi, Fq, Fi, Fq, Fi, Fq, Fi, Fq]
       [PInt 4, PInt 8, cp_id, PInt 8, parent_id, PInt 8, symbol_id, PInt 8, ip]"

text \<open>The 11 named parameters of \<open>call_return_table\<close> are bound by position.\<close>

definition call_return_row :: "pyval list \<Rightarrow> error + string" where
  "call_return_row xs =
     (let cr_id = xs ! 0; thread_id = xs ! 1; comm_id = xs ! 2; call_path_id = xs ! 3;
          call_time = xs ! 4; return_time = xs ! 5; branch_count = xs ! 6;
          call_id = xs ! 7; return_id = xs ! 8; parent_call_path_id = xs ! 9;
          flags = xs ! 10
      in
      struct_pack
        [Fh, Fi, Fq, Fi, Fq, Fi, Fq, Fi, Fq, Fi, Fq, Fi, Fq, Fi, Fq, Fi, Fq, Fi, Fq, Fi, Fq,
         Fi, Fi]
        [PInt 11, PInt 8, cr_id, PInt 8, thread_id, PInt 8, comm_id,
         PInt 8, call_path_id, PInt 8, call_time, PInt 8, return_time,
         PInt 8, branch_count, PInt 8, call_id, PInt 8, return_id,
         PInt 8, parent_call_path_id, PInt 4, flags])"

section \<open>Program state and the outside world\<close>

text \<open>The module-level file variables.\<close>

datatype file_var =
    evsel_file | machine_file | thread_file | comm_file | comm_thread_file | dso_file
  | symbol_file | branch_type_file | sample_file | call_path_file | call_file

record pyfile =
  fname :: string
  fdata :: string
  fclosed :: bool

text \<open>
  The SQL statements the script sends. The script builds them as text; here each is kept
  by its structure: the tables with their columns, the keys with their constraints. The
  body of a view is passed through to the database and plays no part in the control flow,
  so a view is kept by its name.
\<close>

datatype sql =
    CreateDatabase string
  | SetClientMinMessages
  | CreateTable string "(string \<times> string) list"
  | CreateView string
  | AddPrimaryKey string
  | AddForeignKeys string "(string \<times> string \<times> string) list"
  | CreateIndex string string string
  | CopyFromStdin string

text \<open>
  What the run did to the outside world, in order: only calls that succeeded are recorded
  (a failed query or a rejected chunk changes nothing outside).
\<close>

datatype effect =
    Mkdir string
  | Rmdir string
  | Unlink string
  | Query sql
  | CopyBegin sql
  | CopyData string
  | CopyEnd
  | Stdout "out list"
  | Stderr "out list"

text \<open>
  The answers of the outside world: the working directory, the directories in which the
  process may create entries, the result of \<open>exec_\<close> of a statement with its error text,
  and the status codes of libpq. The answers of the database may depend on everything done
  so far.
\<close>

record env =
  getcwd :: string
  writable :: "string \<Rightarrow> bool"
  exec_ok :: "effect list \<Rightarrow> sql \<Rightarrow> bool"
  last_error :: "effect list \<Rightarrow> sql \<Rightarrow> string"
  pq_status :: "effect list \<Rightarrow> string \<Rightarrow> int"
  pq_result_status :: "effect list \<Rightarrow> sql \<Rightarrow> int"
  pq_put_copy_data :: "effect list \<Rightarrow> string \<Rightarrow> int"
  pq_put_copy_end :: "effect list \<Rightarrow> int"

record state =
  dirs :: "string list"
  paths :: "string list"
  vars :: "file_var \<Rightarrow> pyfile option"
  unhandled_count :: int
  effects :: "effect list"

text \<open>A statement either raises, leaving the state it had reached, or completes.\<close>

type_synonym outcome = "(error \<times> state) + state"

fun seq :: "(state \<Rightarrow> outcome) list \<Rightarrow> state \<Rightarrow> outcome" where
  "seq [] s = Inr s"
| "seq (f # fs) s = (case f s of Inl e \<Rightarrow> Inl e | Inr s' \<Rightarrow> seq fs s')"

definition emit :: "effect \<Rightarrow> state \<Rightarrow> state" where
  "emit e s = s\<lparr>effects := effects s @ [e]\<rparr>"

definition py_print :: "out list \<Rightarrow> state \<Rightarrow> outcome" where
  "py_print xs s = Inr (emit (Stdout xs) s)"

text \<open>The directory a path lies in: the path up to its last slash, the root for a path
  directly under it.\<close>

definition parent_dir :: "string \<Rightarrow> string" where
  "parent_dir p =
     (let q = rev (drop 1 (dropWhile (\<lambda>x. x \<noteq> CHR ''/'') (rev p))) in
      if q = [] then ''/'' else q)"

text \<open>\<open>os.mkdir(d)\<close> raises OSError when the path exists already, when the directory it
  is to be created in does not exist, and when the process may not write there.\<close>

definition os_mkdir :: "env \<Rightarrow> string \<Rightarrow> state \<Rightarrow> outcome" where
  "os_mkdir en d s =
     (if d \<in> set (dirs s) \<or> d \<in> set (paths s) \<or> parent_dir d \<notin> set (dirs s) \<or>
         \<not> writable en (parent_dir d)
      then Inl (OSError, s)
      else Inr (emit (Mkdir d) (s\<lparr>dirs := d # dirs s\<rparr>)))"

definition os_rmdir :: "string \<Rightarrow> state \<Rightarrow> outcome" where
  "os_rmdir d s =
     (if d \<in> set (dirs s) \<and> list_all (\<lambda>p. \<not> prefix (d @ ''/'') p) (paths s)
      then Inr (emit (Rmdir d) (s\<lparr>dirs := removeAll d (dirs s)\<rparr>))
      else Inl (OSError, s))"

definition os_unlink :: "string \<Rightarrow> state \<Rightarrow> outcome" where
  "os_unlink p s =
     (if p \<in> set (paths s)
      then Inr (emit (Unlink p) (s\<lparr>paths := removeAll p (paths s)\<rparr>))
      else Inl (OSError, s))"

definition do_query :: "env \<Rightarrow> sql \<Rightarrow> state \<Rightarrow> outcome" where
  "do_query en q s =
     (if exec_ok en (effects s) q then Inr (emit (Query q) s)
      else Inl (Exception [Str ''Query failed: '', Str (last_error en (effects s) q)], s))"

section \<open>Staging files\<close>

definition file_header :: string where
  "file_header =
     (case struct_pack [Fs 11, Fi, Fi] [PStr magic, PInt 0, PInt 0] of
        Inr b \<Rightarrow> b | Inl _ \<Rightarrow> [])"

definition file_trailer :: string where
  "file_trailer = [CHR 0xFF, CHR 0xFF]"

text \<open>\<open>file.write(value)\<close> on the file bound to a variable: NameError when the variable
  was never assigned, ValueError on a closed file.\<close>

definition file_write :: "file_var \<Rightarrow> string \<Rightarrow> state \<Rightarrow> outcome" where
  "file_write v value s =
     (case vars s v of
        None \<Rightarrow> Inl (NameError, s)
      | Some f \<Rightarrow>
          if fclosed f then Inl (ValueError, s)
          else Inr (s\<lparr>vars := (vars s)(v \<mapsto> f\<lparr>fdata := fdata f @ value\<rparr>)\<rparr>))"

text \<open>\<open>v = open_output_file(file_name)\<close>: the file is created or truncated in the
  output directory, the header written, and the file object bound to the variable.\<close>

definition open_output_file :: "config \<Rightarrow> file_var \<Rightarrow> string \<Rightarrow> state \<Rightarrow> outcome" where
  "open_output_file c v file_name s =
     (let path_name = output_dir_name c @ ''/'' @ file_name in
      if output_dir_name c \<notin> set (dirs s) then Inl (IOError, s)
      else Inr (s\<lparr>paths := path_name # removeAll path_name (paths s),
                  vars := (vars s)(v \<mapsto>
                    \<lparr>fname = path_name, fdata = file_header, fclosed = False\<rparr>)\<rparr>))"

definition open_files :: "config \<Rightarrow> state \<Rightarrow> outcome" where
  "open_files c =
     seq ([open_output_file c evsel_file ''evsel_table.bin'',
           open_output_file c machine_file ''machine_table.bin'',
           open_output_file c thread_file ''thread_table.bin'',
           open_output_file c comm_file ''comm_table.bin'',
           open_output_file c comm_thread_file ''comm_thread_table.bin'',
           open_output_file c dso_file ''dso_table.bin'',
           open_output_file c symbol_file ''symbol_table.bin'',
           open_output_file c branch_type_file ''branch_type_table.bin'',
           open_output_file c sample_file ''sample_table.bin'']
          @ (if perf_db_export_calls c \<or> perf_db_export_callchains c
             then [open_output_file c call_path_file ''call_path_table.bin''] else [])
          @ (if perf_db_export_calls c
             then [open_output_file c call_file ''call_table.bin''] else []))"

text \<open>The loop of \<open>copy_output_file\<close>: the file is read and sent in chunks of 65536
  bytes until a read returns nothing.\<close>

function put_copy_loop :: "env \<Rightarrow> string \<Rightarrow> state \<Rightarrow> outcome" where
  "put_copy_loop en rest s =
     (let data = take 65536 rest in
      if data = [] then Inr s
      else
        let ret = pq_put_copy_data en (effects s) data in
        if ret \<noteq> 1
        then Inl (Exception [Str ''COPY FROM STDIN PQputCopyData failed, error '', Num ret], s)
        else put_copy_loop en (drop 65536 rest) (emit (CopyData data) s))"
  by pat_completeness auto
termination
  by (relation "measure (\<lambda>(en, rest, s). length rest)") auto

definition copy_output_file :: "env \<Rightarrow> config \<Rightarrow> file_var \<Rightarrow> string \<Rightarrow> state \<Rightarrow> outcome" where
  "copy_output_file en c v table_name s =
     (case vars s v of
        None \<Rightarrow> Inl (NameError, s)
      | Some file \<Rightarrow>
          if pq_status en (effects s) (''dbname = '' @ dbname c) \<noteq> 0
          then Inl (Exception [Str ''COPY FROM STDIN PQconnectdb failed''], s)
          else
            (case file_write v file_trailer s of
               Inl e \<Rightarrow> Inl e
             | Inr s1 \<Rightarrow>
                 let sql = CopyFromStdin table_name in
                 if pq_result_status en (effects s1) sql \<noteq> 4
                 then Inl (Exception [Str ''COPY FROM STDIN PQexec failed''], s1)
                 else
                   (case put_copy_loop en (fdata file @ file_trailer) (emit (CopyBegin sql) s1) of
                      Inl e \<Rightarrow> Inl e
                    | Inr s2 \<Rightarrow>
                        let ret = pq_put_copy_end en (effects s2) in
                        if ret \<noteq> 1
                        then Inl (Exception
                          [Str ''COPY FROM STDIN PQputCopyEnd failed, error '', Num ret], s2)
                        else Inr (emit CopyEnd s2))))"

definition remove_output_file :: "file_var \<Rightarrow> state \<Rightarrow> outcome" where
  "remove_output_file v s =
     (case vars s v of
        None \<Rightarrow> Inl (NameError, s)
      | Some file \<Rightarrow>
          os_unlink (fname file) (s\<lparr>vars := (vars s)(v \<mapsto> file\<lparr>fclosed := True\<rparr>)\<rparr>))"

section \<open>The table encoders\<close>

text \<open>An encoder is called with a tuple of positional arguments; the parameters after
  the named ones (\<open>*x\<close>) are ignored, and a call with too few arguments is a TypeError.\<close>

definition write_row :: "file_var \<Rightarrow> error + string \<Rightarrow> state \<Rightarrow> outcome" where
  "write_row v r s = (case r of Inl e \<Rightarrow> Inl (e, s) | Inr value \<Rightarrow> file_write v value s)"

fun evsel_table :: "pyval list \<Rightarrow> state \<Rightarrow> outcome" where
  "evsel_table (evsel_id # evsel_name # x) s =
     write_row evsel_file (evsel_row evsel_id evsel_name) s"
| "evsel_table _ s = Inl (TypeError, s)"

fun machine_table :: "pyval list \<Rightarrow> state \<Rightarrow> outcome" where
  "machine_table (machine_id # pid # root_dir # x) s =
     write_row machine_file (machine_row machine_id pid root_dir) s"
| "machine_table _ s = Inl (TypeError, s)"

fun thread_table :: "pyval list \<Rightarrow> state \<Rightarrow> outcome" where
  "thread_table (thread_id # machine_id # process_id # pid # tid # x) s =
     write_row thread_file (thread_row thread_id machine_id process_id pid tid) s"
| "thread_table _ s = Inl (TypeError, s)"

fun comm_table :: "pyval list \<Rightarrow> state \<Rightarrow> outcome" where
  "comm_table (comm_id # comm_str # x) s = write_row comm_file (comm_row comm_id comm_str) s"
| "comm_table _ s = Inl (TypeError, s)"

fun comm_thread_table :: "pyval list \<Rightarrow> state \<Rightarrow> outcome" where
  "comm_thread_table (comm_thread_id # comm_id # thread_id # x) s =
     write_row comm_thread_file (comm_thread_row comm_thread_id comm_id thread_id) s"
| "comm_thread_table _ s = Inl (TypeError, s)"

fun dso_table :: "pyval list \<Rightarrow> state \<Rightarrow> outcome" where
  "dso_table (dso_id # machine_id # short_name # long_name # build_id # x) s =
     write_row dso_file (dso_row dso_id machine_id short_name long_name build_id) s"
| "dso_table _ s = Inl (TypeError, s)"

fun symbol_table :: "pyval list \<Rightarrow> state \<Rightarrow> outcome" where
  "symbol_table (symbol_id # dso_id # sym_start # sym_end # binding # symbol_name # x) s =
     write_row symbol_file (symbol_row symbol_id dso_id sym_start sym_end binding symbol_name) s"
| "symbol_table _ s = Inl (TypeError, s)"

fun branch_type_table :: "pyval list \<Rightarrow> state \<Rightarrow> outcome" where
  "branch_type_table (branch_type # name # x) s =
     write_row branch_type_file (branch_type_row branch_type name) s"
| "branch_type_table _ s = Inl (TypeError, s)"

definition sample_table :: "config \<Rightarrow> pyval list \<Rightarrow> state \<Rightarrow> outcome" where
  "sample_table c xs s =
     (if length xs < 22 then Inl (TypeError, s)
      else write_row sample_file (sample_row c xs) s)"

fun call_path_table :: "pyval list \<Rightarrow> state \<Rightarrow> outcome" where
  "call_path_table (cp_id # parent_id # symbol_id # ip # x) s =
     write_row call_path_file (call_path_row cp_id parent_id symbol_id ip) s"
| "call_path_table _ s = Inl (TypeError, s)"

definition call_return_table :: "pyval list \<Rightarrow> state \<Rightarrow> outcome" where
  "call_return_table xs s =
     (if length xs < 11 then Inl (TypeError, s)
      else write_row call_file (call_return_row xs) s)"

definition trace_unhandled :: "'a \<Rightarrow> 'b \<Rightarrow> 'c \<Rightarrow> state \<Rightarrow> outcome" where
  "trace_unhandled event_name context event_fields_dict s =
     Inr (s\<lparr>unhandled_count := unhandled_count s + 1\<rparr>)"

definition sched__sched_switch :: "pyval list \<Rightarrow> state \<Rightarrow> outcome" where
  "sched__sched_switch x s = Inr s"

definition trace_begin :: "config \<Rightarrow> state \<Rightarrow> outcome" where
  "trace_begin c =
     seq ([py_print [Today, Str ''Writing to intermediate files...''],
           evsel_table [PInt 0, PStr ''unknown''],
           machine_table [PInt 0, PInt 0, PStr ''unknown''],
           thread_table [PInt 0, PInt 0, PInt 0, PInt (- 1), PInt (- 1)],
           comm_table [PInt 0, PStr ''unknown''],
           dso_table [PInt 0, PInt 0, PStr ''unknown'', PStr ''unknown'', PStr ''''],
           symbol_table [PInt 0, PInt 0, PInt 0, PInt 0, PInt 0, PStr ''unknown''],
           sample_table c
             [PInt 0, PInt 0, PInt 0, PInt 0, PInt 0, PInt 0, PInt 0, PInt 0, PInt 0, PInt 0,
              PInt 0, PInt 0, PInt 0, PInt 0, PInt 0, PInt 0, PInt 0, PInt 0, PInt 0, PInt 0,
              PInt 0, PInt 0]]
          @ (if perf_db_export_calls c \<or> perf_db_export_callchains c
             then [call_path_table [PInt 0, PInt 0, PInt 0, PInt 0]] else []))"

text \<open>One call of the trace-processing engine into the script.\<close>

datatype callback =
    Evsel_table "pyval list"
  | Machine_table "pyval list"
  | Thread_table "pyval list"
  | Comm_table "pyval list"
  | Comm_thread_table "pyval list"
  | Dso_table "pyval list"
  | Symbol_table "pyval list"
  | Branch_type_table "pyval list"
  | Sample_table "pyval list"
  | Call_path_table "pyval list"
  | Call_return_table "pyval list"
  | Trace_unhandled string
  | Sched__sched_switch "pyval list"

fun dispatch :: "config \<Rightarrow> callback \<Rightarrow> state \<Rightarrow> outcome" where
  "dispatch c (Evsel_table xs) = evsel_table xs"
| "dispatch c (Machine_table xs) = machine_table xs"
| "dispatch c (Thread_table xs) = thread_table xs"
| "dispatch c (Comm_table xs) = comm_table xs"
| "dispatch c (Comm_thread_table xs) = comm_thread_table xs"
| "dispatch c (Dso_table xs) = dso_table xs"
| "dispatch c (Symbol_table xs) = symbol_table xs"
| "dispatch c (Branch_type_table xs) = branch_type_table xs"
| "dispatch c (Sample_table xs) = sample_table c xs"
| "dispatch c (Call_path_table xs) = call_path_table xs"
| "dispatch c (Call_return_table xs) = call_return_table xs"
| "dispatch c (Trace_unhandled event_name) = trace_unhandled event_name () ()"
| "dispatch c (Sched__sched_switch xs) = sched__sched_switch xs"

section \<open>The command line\<close>

definition usage_lines :: "string list" where
  "usage_lines =
     [''Usage is: export-to-postgresql.py <database name> [<columns>] [<calls>] [<callchains>]'',
      ''where:'' @ [CHR 0x09] @ ''columns'' @ [CHR 0x09, CHR 0x09, CHR 0x27] @ ''all''
        @ [CHR 0x27] @ '' or '' @ [CHR 0x27] @ ''branches'' @ [CHR 0x27],
      [CHR 0x09, CHR 0x09] @ ''calls'' @ [CHR 0x09, CHR 0x09, CHR 0x27] @ ''calls''
        @ [CHR 0x27] @ '' => create calls and call_paths table'',
      [CHR 0x09, CHR 0x09] @ ''callchains'' @ [CHR 0x09, CHR 0x27] @ ''callchains''
        @ [CHR 0x27] @ '' => create call_paths table'']"

text \<open>\<open>usage()\<close> prints to stderr and raises.\<close>

definition usage :: "state \<Rightarrow> error \<times> state" where
  "usage s =
     (Exception [Str ''Too few arguments''],
      foldl (\<lambda>s' l. emit (Stderr [Str l]) s') s usage_lines)"

text \<open>The loop over \<open>sys.argv[3:]\<close>: \<open>None\<close> when it calls \<open>usage()\<close>.\<close>

fun scan_options :: "string list \<Rightarrow> bool \<Rightarrow> bool \<Rightarrow> (bool \<times> bool) option" where
  "scan_options [] calls callchains = Some (calls, callchains)"
| "scan_options (a # as) calls callchains =
     (if a = ''calls'' then scan_options as True callchains
      else if a = ''callchains'' then scan_options as calls True
      else None)"

text \<open>The argument checks at the top of the script, \<open>argv\<close> being \<open>sys.argv\<close> (the
  script's name first): the database name, the schema variant and the two flags, or
  \<open>None\<close> where the script calls \<open>usage()\<close>, which has no effect but its message.\<close>

definition script_args :: "string list \<Rightarrow> (string \<times> bool \<times> bool \<times> bool) option" where
  "script_args argv =
     (if length argv < 2 then None
      else
        let columns = (if length argv \<ge> 3 then argv ! 2 else ''all'') in
        if columns \<noteq> ''all'' \<and> columns \<noteq> ''branches'' then None
        else
          (case scan_options (drop 3 argv) False False of
             None \<Rightarrow> None
           | Some (calls, callchains) \<Rightarrow>
               Some (argv ! 1, columns = ''branches'', calls, callchains)))"

section \<open>The schema\<close>

definition samples_columns :: "config \<Rightarrow> (string \<times> string) list" where
  "samples_columns c =
     (if branches c then
        [(''id'', ''bigint NOT NULL''), (''evsel_id'', ''bigint''), (''machine_id'', ''bigint''),
         (''thread_id'', ''bigint''), (''comm_id'', ''bigint''), (''dso_id'', ''bigint''),
         (''symbol_id'', ''bigint''), (''sym_offset'', ''bigint''), (''ip'', ''bigint''),
         (''time'', ''bigint''), (''cpu'', ''integer''), (''to_dso_id'', ''bigint''),
         (''to_symbol_id'', ''bigint''), (''to_sym_offset'', ''bigint''), (''to_ip'', ''bigint''),
         (''branch_type'', ''integer''), (''in_tx'', ''boolean'')]
      else
        [(''id'', ''bigint NOT NULL''), (''evsel_id'', ''bigint''), (''machine_id'', ''bigint''),
         (''thread_id'', ''bigint''), (''comm_id'', ''bigint''), (''dso_id'', ''bigint''),
         (''symbol_id'', ''bigint''), (''sym_offset'', ''bigint''), (''ip'', ''bigint''),
         (''time'', ''bigint''), (''cpu'', ''integer''), (''to_dso_id'', ''bigint''),
         (''to_symbol_id'', ''bigint''), (''to_sym_offset'', ''bigint''), (''to_ip'', ''bigint''),
         (''period'', ''bigint''), (''weight'', ''bigint''), (''transaction'', ''bigint''),
         (''data_src'', ''bigint''), (''branch_type'', ''integer''), (''in_tx'', ''boolean''),
         (''call_path_id'', ''bigint'')])"

text \<open>The CREATE TABLE statements, in the order the script issues them.\<close>

definition create_tables :: "config \<Rightarrow> sql list" where
  "create_tables c =
     [CreateTable ''selected_events''
        [(''id'', ''bigint NOT NULL''), (''name'', ''varchar(80)'')],
      CreateTable ''machines''
        [(''id'', ''bigint NOT NULL''), (''pid'', ''integer''), (''root_dir'', ''varchar(4096)'')],
      CreateTable ''threads''
        [(''id'', ''bigint NOT NULL''), (''machine_id'', ''bigint''), (''process_id'', ''bigint''),
         (''pid'', ''integer''), (''tid'', ''integer'')],
      CreateTable ''comms''
        [(''id'', ''bigint NOT NULL''), (''comm'', ''varchar(16)'')],
      CreateTable ''comm_threads''
        [(''id'', ''bigint NOT NULL''), (''comm_id'', ''bigint''), (''thread_id'', ''bigint'')],
      CreateTable ''dsos''
        [(''id'', ''bigint NOT NULL''), (''machine_id'', ''bigint''),
         (''short_name'', ''varchar(256)''), (''long_name'', ''varchar(4096)''),
         (''build_id'', ''varchar(64)'')],
      CreateTable ''symbols''
        [(''id'', ''bigint NOT NULL''), (''dso_id'', ''bigint''), (''sym_start'', ''bigint''),
         (''sym_end'', ''bigint''), (''binding'', ''integer''), (''name'', ''varchar(2048)'')],
      CreateTable ''branch_types''
        [(''id'', ''integer NOT NULL''), (''name'', ''varchar(80)'')],
      CreateTable ''samples'' (samples_columns c)]
     @ (if perf_db_export_calls c \<or> perf_db_export_callchains c then
          [CreateTable ''call_paths''
             [(''id'', ''bigint NOT NULL''), (''parent_id'', ''bigint''),
              (''symbol_id'', ''bigint''), (''ip'', ''bigint'')]]
        else [])
     @ (if perf_db_export_calls c then
          [CreateTable ''calls''
             [(''id'', ''bigint NOT NULL''), (''thread_id'', ''bigint''), (''comm_id'', ''bigint''),
              (''call_path_id'', ''bigint''), (''call_time'', ''bigint''),
              (''return_time'', ''bigint''), (''branch_count'', ''bigint''),
              (''call_id'', ''bigint''), (''return_id'', ''bigint''),
              (''parent_call_path_id'', ''bigint''), (''flags'', ''integer'')]]
        else [])"

definition create_views :: "config \<Rightarrow> sql list" where
  "create_views c =
     [CreateView ''machines_view'', CreateView ''dsos_view'', CreateView ''symbols_view'',
      CreateView ''threads_view'', CreateView ''comm_threads_view'']
     @ (if perf_db_export_calls c \<or> perf_db_export_callchains c
        then [CreateView ''call_paths_view''] else [])
     @ (if perf_db_export_calls c then [CreateView ''calls_view''] else [])
     @ [CreateView ''samples_view'']"

text \<open>The ALTER TABLE statements of \<open>trace_end\<close>, in its order.\<close>

definition add_primary_keys :: "config \<Rightarrow> sql list" where
  "add_primary_keys c =
     [AddPrimaryKey ''selected_events'', AddPrimaryKey ''machines'', AddPrimaryKey ''threads'',
      AddPrimaryKey ''comms'', AddPrimaryKey ''comm_threads'', AddPrimaryKey ''dsos'',
      AddPrimaryKey ''symbols'', AddPrimaryKey ''branch_types'', AddPrimaryKey ''samples'']
     @ (if perf_db_export_calls c \<or> perf_db_export_callchains c
        then [AddPrimaryKey ''call_paths''] else [])
     @ (if perf_db_export_calls c then [AddPrimaryKey ''calls''] else [])"

text \<open>A constraint is (name, column, referenced table); the referenced column is always
  \<open>id\<close>. The index on \<open>calls\<close> follows the foreign keys of \<open>calls\<close> under the same
  condition.\<close>

definition add_foreign_keys :: "config \<Rightarrow> sql list" where
  "add_foreign_keys c =
     [AddForeignKeys ''threads''
        [(''machinefk'', ''machine_id'', ''machines''),
         (''processfk'', ''process_id'', ''threads'')],
      AddForeignKeys ''comm_threads''
        [(''commfk'', ''comm_id'', ''comms''),
         (''threadfk'', ''thread_id'', ''threads'')],
      AddForeignKeys ''dsos''
        [(''machinefk'', ''machine_id'', ''machines'')],
      AddForeignKeys ''symbols''
        [(''dsofk'', ''dso_id'', ''dsos'')],
      AddForeignKeys ''samples''
        [(''evselfk'', ''evsel_id'', ''selected_events''),
         (''machinefk'', ''machine_id'', ''machines''),
         (''threadfk'', ''thread_id'', ''threads''),
         (''commfk'', ''comm_id'', ''comms''),
         (''dsofk'', ''dso_id'', ''dsos''),
         (''symbolfk'', ''symbol_id'', ''symbols''),
         (''todsofk'', ''to_dso_id'', ''dsos''),
         (''tosymbolfk'', ''to_symbol_id'', ''symbols'')]]
     @ (if perf_db_export_calls c \<or> perf_db_export_callchains c then
          [AddForeignKeys ''call_paths''
             [(''parentfk'', ''parent_id'', ''call_paths''),
              (''symbolfk'', ''symbol_id'', ''symbols'')]]
        else [])
     @ (if perf_db_export_calls c then
          [AddForeignKeys ''calls''
             [(''threadfk'', ''thread_id'', ''threads''),
              (''commfk'', ''comm_id'', ''comms''),
              (''call_pathfk'', ''call_path_id'', ''call_paths''),
              (''callfk'', ''call_id'', ''samples''),
              (''returnfk'', ''return_id'', ''samples''),
              (''parent_call_pathfk'', ''parent_call_path_id'', ''call_paths'')],
           CreateIndex ''pcpid_idx'' ''calls'' ''parent_call_path_id'']
        else [])"

section \<open>The script\<close>

text \<open>\<open>try: do_query(query, 'CREATE DATABASE ' + dbname)  except: os.rmdir(output_dir_name); raise\<close>\<close>

definition create_database :: "env \<Rightarrow> config \<Rightarrow> state \<Rightarrow> outcome" where
  "create_database en c s =
     (case do_query en (CreateDatabase (dbname c)) s of
        Inr s' \<Rightarrow> Inr s'
      | Inl (e, s') \<Rightarrow>
          (case os_rmdir (output_dir_name c) s' of
             Inl e' \<Rightarrow> Inl e'
           | Inr s'' \<Rightarrow> Inl (e, s'')))"

text \<open>The module-level statements after the argument checks.\<close>

definition script_body :: "env \<Rightarrow> config \<Rightarrow> state \<Rightarrow> outcome" where
  "script_body en c =
     seq ([os_mkdir en (output_dir_name c),
           py_print [Today, Str ''Creating database...''],
           create_database en c,
           do_query en SetClientMinMessages]
          @ map (do_query en) (create_tables c)
          @ map (do_query en) (create_views c)
          @ [open_files c,
             (\<lambda>s. Inr (s\<lparr>unhandled_count := 0\<rparr>))])"

text \<open>The module-level variables as the argument checks leave them, \<open>None\<close> where the
  script calls \<open>usage()\<close>.\<close>

definition script_config :: "env \<Rightarrow> string list \<Rightarrow> config option" where
  "script_config en argv =
     (case script_args argv of
        None \<Rightarrow> None
      | Some (db, br, calls, callchains) \<Rightarrow>
          Some \<lparr>dbname = db, branches = br, perf_db_export_calls = calls,
                 perf_db_export_callchains = callchains,
                 output_dir_name = getcwd en @ ''/'' @ db @ ''-perf-data''\<rparr>)"

text \<open>Loading the script: all its module-level statements.\<close>

definition script :: "env \<Rightarrow> string list \<Rightarrow> state \<Rightarrow> outcome" where
  "script en argv s =
     (case script_config en argv of
        None \<Rightarrow> Inl (usage s)
      | Some c \<Rightarrow> script_body en c s)"

definition copy_files :: "env \<Rightarrow> config \<Rightarrow> (state \<Rightarrow> outcome) list" where
  "copy_files en c =
     [copy_output_file en c evsel_file ''selected_events'',
      copy_output_file en c machine_file ''machines'',
      copy_output_file en c thread_file ''threads'',
      copy_output_file en c comm_file ''comms'',
      copy_output_file en c comm_thread_file ''comm_threads'',
      copy_output_file en c dso_file ''dsos'',
      copy_output_file en c symbol_file ''symbols'',
      copy_output_file en c branch_type_file ''branch_types'',
      copy_output_file en c sample_file ''samples'']
     @ (if perf_db_export_calls c \<or> perf_db_export_callchains c
        then [copy_output_file en c call_path_file ''call_paths''] else [])
     @ (if perf_db_export_calls c
        then [copy_output_file en c call_file ''calls''] else [])"

definition remove_files :: "config \<Rightarrow> (state \<Rightarrow> outcome) list" where
  "remove_files c =
     [remove_output_file evsel_file, remove_output_file machine_file,
      remove_output_file thread_file, remove_output_file comm_file,
      remove_output_file comm_thread_file, remove_output_file dso_file,
      remove_output_file symbol_file, remove_output_file branch_type_file,
      remove_output_file sample_file]
     @ (if perf_db_export_calls c \<or> perf_db_export_callchains c
        then [remove_output_file call_path_file] else [])
     @ (if perf_db_export_calls c then [remove_output_file call_file] else [])"

definition report_unhandled :: "state \<Rightarrow> outcome" where
  "report_unhandled s =
     (if unhandled_count s \<noteq> 0
      then py_print [Today, Str ''Warning: '', Num (unhandled_count s), Str '' unhandled events''] s
      else Inr s)"

definition trace_end :: "env \<Rightarrow> config \<Rightarrow> state \<Rightarrow> outcome" where
  "trace_end en c =
     seq ([py_print [Today, Str ''Copying to database...'']]
          @ copy_files en c
          @ [py_print [Today, Str ''Removing intermediate files...'']]
          @ remove_files c
          @ [os_rmdir (output_dir_name c),
             py_print [Today, Str ''Adding primary keys'']]
          @ map (do_query en) (add_primary_keys c)
          @ [py_print [Today, Str ''Adding foreign keys'']]
          @ map (do_query en) (add_foreign_keys c)
          @ [report_unhandled,
             py_print [Today, Str ''Done'']])"

text \<open>
  Modelled from the spec: the trace-processing engine that loads the script and calls into
  it is not part of the sources. By the spec's control flow it runs the module-level
  statements, then \<open>trace_begin\<close>, then one callback per event in order, then
  \<open>trace_end\<close>; an exception ends the run where it is raised.
\<close>

definition encode_phase :: "config \<Rightarrow> callback list \<Rightarrow> state \<Rightarrow> outcome" where
  "encode_phase c cbs = seq (trace_begin c # map (dispatch c) cbs)"

definition run :: "env \<Rightarrow> string list \<Rightarrow> callback list \<Rightarrow> state \<Rightarrow> outcome" where
  "run en argv cbs s =
     (case script_config en argv of
        None \<Rightarrow> script en argv s
      | Some c \<Rightarrow> seq [script en argv, encode_phase c cbs, trace_end en c] s)"

section \<open>The rows of each table, as typed fields\<close>

fun ival :: "pyval \<Rightarrow> int" where
  "ival (PInt x) = x"
| "ival (PStr _) = 0"

fun sval :: "pyval \<Rightarrow> string" where
  "sval (PStr s) = s"
| "sval (PInt _) = []"

definition sample_fields :: "config \<Rightarrow> pyval list \<Rightarrow> field list" where
  "sample_fields c xs =
     [Int64 (ival (xs ! 0)), Int64 (ival (xs ! 1)), Int64 (ival (xs ! 2)),
      Int64 (ival (xs ! 3)), Int64 (ival (xs ! 4)), Int64 (ival (xs ! 5)),
      Int64 (ival (xs ! 6)), Int64 (ival (xs ! 7)), Int64 (ival (xs ! 8)),
      Int64 (ival (xs ! 9)), Int32 (ival (xs ! 10)), Int64 (ival (xs ! 11)),
      Int64 (ival (xs ! 12)), Int64 (ival (xs ! 13)), Int64 (ival (xs ! 14))]
     @ (if branches c then []
        else [Int64 (ival (xs ! 15)), Int64 (ival (xs ! 16)), Int64 (ival (xs ! 17)),
              Int64 (ival (xs ! 18))])
     @ [Int32 (ival (xs ! 19)), Bool8 (ival (xs ! 20)), Int64 (ival (xs ! 21))]"

text \<open>The names of the encoded sample fields: the encoder's parameters, in the order
  it packs them.\<close>

definition sample_field_names :: "config \<Rightarrow> string list" where
  "sample_field_names c =
     [''sample_id'', ''evsel_id'', ''machine_id'', ''thread_id'', ''comm_id'', ''dso_id'',
      ''symbol_id'', ''sym_offset'', ''ip'', ''time'', ''cpu'', ''to_dso_id'', ''to_symbol_id'',
      ''to_sym_offset'', ''to_ip'']
     @ (if branches c then [] else [''period'', ''weight'', ''transaction'', ''data_src''])
     @ [''branch_type'', ''in_tx'', ''call_path_id'']"

text \<open>The file a callback writes to and the typed fields of the row it writes there
  (\<open>None\<close> for a callback that writes nothing).\<close>

fun row_of :: "config \<Rightarrow> callback \<Rightarrow> (file_var \<times> field list) option" where
  "row_of c (Evsel_table (a # b # x)) = Some (evsel_file, [Int64 (ival a), Text (sval b)])"
| "row_of c (Machine_table (a # b # d # x)) =
     Some (machine_file, [Int64 (ival a), Int32 (ival b), Text (sval d)])"
| "row_of c (Thread_table (a # b # d # e # f # x)) =
     Some (thread_file,
       [Int64 (ival a), Int64 (ival b), Int64 (ival d), Int32 (ival e), Int32 (ival f)])"
| "row_of c (Comm_table (a # b # x)) = Some (comm_file, [Int64 (ival a), Text (sval b)])"
| "row_of c (Comm_thread_table (a # b # d # x)) =
     Some (comm_thread_file, [Int64 (ival a), Int64 (ival b), Int64 (ival d)])"
| "row_of c (Dso_table (a # b # d # e # f # x)) =
     Some (dso_file,
       [Int64 (ival a), Int64 (ival b), Text (sval d), Text (sval e), Text (sval f)])"
| "row_of c (Symbol_table (a # b # d # e # f # g # x)) =
     Some (symbol_file,
       [Int64 (ival a), Int64 (ival b), Int64 (ival d), Int64 (ival e), Int32 (ival f),
        Text (sval g)])"
| "row_of c (Branch_type_table (a # b # x)) =
     Some (branch_type_file, [Int32 (ival a), Text (sval b)])"
| "row_of c (Sample_table xs) = Some (sample_file, sample_fields c xs)"
| "row_of c (Call_path_table (a # b # d # e # x)) =
     Some (call_path_file, [Int64 (ival a), Int64 (ival b), Int64 (ival d), Int64 (ival e)])"
| "row_of c (Call_return_table xs) =
     Some (call_file,
       [Int64 (ival (xs ! 0)), Int64 (ival (xs ! 1)), Int64 (ival (xs ! 2)),
        Int64 (ival (xs ! 3)), Int64 (ival (xs ! 4)), Int64 (ival (xs ! 5)),
        Int64 (ival (xs ! 6)), Int64 (ival (xs ! 7)), Int64 (ival (xs ! 8)),
        Int64 (ival (xs ! 9)), Int32 (ival (xs ! 10))])"
| "row_of c _ = None"

definition rows_for :: "config \<Rightarrow> file_var \<Rightarrow> callback list \<Rightarrow> field list list" where
  "rows_for c v cbs =
     concat (map (\<lambda>cb. case row_of c cb of
                          Some (v', fs) \<Rightarrow> if v' = v then [fs] else []
                        | None \<Rightarrow> []) cbs)"

text \<open>The calls \<open>trace_begin\<close> makes, as callbacks.\<close>

definition sentinels :: "config \<Rightarrow> callback list" where
  "sentinels c =
     [Evsel_table [PInt 0, PStr ''unknown''],
      Machine_table [PInt 0, PInt 0, PStr ''unknown''],
      Thread_table [PInt 0, PInt 0, PInt 0, PInt (- 1), PInt (- 1)],
      Comm_table [PInt 0, PStr ''unknown''],
      Dso_table [PInt 0, PInt 0, PStr ''unknown'', PStr ''unknown'', PStr ''''],
      Symbol_table [PInt 0, PInt 0, PInt 0, PInt 0, PInt 0, PStr ''unknown''],
      Sample_table
        [PInt 0, PInt 0, PInt 0, PInt 0, PInt 0, PInt 0, PInt 0, PInt 0, PInt 0, PInt 0,
         PInt 0, PInt 0, PInt 0, PInt 0, PInt 0, PInt 0, PInt 0, PInt 0, PInt 0, PInt 0,
         PInt 0, PInt 0]]
     @ (if perf_db_export_calls c \<or> perf_db_export_callchains c
        then [Call_path_table [PInt 0, PInt 0, PInt 0, PInt 0]] else [])"

section \<open>Notions used to state the properties\<close>

text \<open>The chunks in which \<open>copy_output_file\<close> sends a file.\<close>

function chunks :: "string \<Rightarrow> string list" where
  "chunks rest =
     (let data = take 65536 rest in
      if data = [] then [] else data # chunks (drop 65536 rest))"
  by pat_completeness auto
termination
  by (relation "measure length") auto

text \<open>What one completed bulk transfer of \<open>d\<close> into table \<open>t\<close> does outside.\<close>

definition copy_effects :: "string \<Rightarrow> string \<Rightarrow> effect list" where
  "copy_effects t d = CopyBegin (CopyFromStdin t) # map CopyData (chunks d) @ [CopyEnd]"

text \<open>The file variables with their tables, in the order \<open>trace_end\<close> loads them.\<close>

definition load_order :: "config \<Rightarrow> (file_var \<times> string) list" where
  "load_order c =
     [(evsel_file, ''selected_events''), (machine_file, ''machines''),
      (thread_file, ''threads''), (comm_file, ''comms''),
      (comm_thread_file, ''comm_threads''), (dso_file, ''dsos''),
      (symbol_file, ''symbols''), (branch_type_file, ''branch_types''),
      (sample_file, ''samples'')]
     @ (if perf_db_export_calls c \<or> perf_db_export_callchains c
        then [(call_path_file, ''call_paths'')] else [])
     @ (if perf_db_export_calls c then [(call_file, ''calls'')] else [])"

fun file_name :: "file_var \<Rightarrow> string" where
  "file_name evsel_file = ''evsel_table.bin''"
| "file_name machine_file = ''machine_table.bin''"
| "file_name thread_file = ''thread_table.bin''"
| "file_name comm_file = ''comm_table.bin''"
| "file_name comm_thread_file = ''comm_thread_table.bin''"
| "file_name dso_file = ''dso_table.bin''"
| "file_name symbol_file = ''symbol_table.bin''"
| "file_name branch_type_file = ''branch_type_table.bin''"
| "file_name sample_file = ''sample_table.bin''"
| "file_name call_path_file = ''call_path_table.bin''"
| "file_name call_file = ''call_table.bin''"

text \<open>The file variables as the module-level statements leave them: each file of the
  load order open with the header written, the other variables unassigned.\<close>

definition opened_vars :: "config \<Rightarrow> file_var \<Rightarrow> pyfile option" where
  "opened_vars c v =
     (if v \<in> set (map fst (load_order c))
      then Some \<lparr>fname = output_dir_name c @ ''/'' @ file_name v, fdata = file_header,
                  fclosed = False\<rparr>
      else None)"

text \<open>The tables of the CREATE TABLE statements.\<close>

fun created_table :: "sql \<Rightarrow> string list" where
  "created_table (CreateTable t cols) = [t]"
| "created_table _ = []"

definition created_tables :: "config \<Rightarrow> string list" where
  "created_tables c = concat (map created_table (create_tables c))"

text \<open>The table a key statement belongs to.\<close>

fun keyed_table :: "sql \<Rightarrow> string option" where
  "keyed_table (AddPrimaryKey t) = Some t"
| "keyed_table (AddForeignKeys t cons) = Some t"
| "keyed_table _ = None"

fun parents :: "sql \<Rightarrow> string list" where
  "parents (AddForeignKeys t cons) = filter (\<lambda>p. p \<noteq> t) (map (\<lambda>(n, col, p). p) cons)"
| "parents _ = []"

text \<open>In a list of statements, no key statement of a table comes after the foreign keys
  of a table that refers to it.\<close>

fun parents_first :: "sql list \<Rightarrow> bool" where
  "parents_first [] = True"
| "parents_first (q # qs) =
     (list_all (\<lambda>p. Some p \<notin> set (map keyed_table qs)) (parents q) \<and> parents_first qs)"

fun is_query :: "effect \<Rightarrow> bool" where
  "is_query (Query q) = True"
| "is_query _ = False"

fun is_copy :: "effect \<Rightarrow> bool" where
  "is_copy (CopyBegin q) = True"
| "is_copy (CopyData d) = True"
| "is_copy CopyEnd = True"
| "is_copy _ = False"

fun is_unlink :: "effect \<Rightarrow> bool" where
  "is_unlink (Unlink p) = True"
| "is_unlink _ = False"

fun is_unhandled :: "callback \<Rightarrow> bool" where
  "is_unhandled (Trace_unhandled n) = True"
| "is_unhandled _ = False"

fun copy_begun :: "effect \<Rightarrow> sql list" where
  "copy_begun (CopyBegin q) = [q]"
| "copy_begun _ = []"

text \<open>The state in which a statement ended, raised or not.\<close>

fun final :: "outcome \<Rightarrow> state" where
  "final (Inl (e, s)) = s"
| "final (Inr s) = s"

text \<open>What a completed \<open>trace_end\<close> does outside, from the state it starts in.\<close>

definition trace_end_effects :: "config \<Rightarrow> state \<Rightarrow> effect list" where
  "trace_end_effects c s =
     [Stdout [Today, Str ''Copying to database...'']]
     @ concat (map (\<lambda>(v, t). copy_effects t (fdata (the (vars s v)) @ file_trailer))
         (load_order c))
     @ [Stdout [Today, Str ''Removing intermediate files...'']]
     @ map (\<lambda>(v, t). Unlink (fname (the (vars s v)))) (load_order c)
     @ [Rmdir (output_dir_name c), Stdout [Today, Str ''Adding primary keys'']]
     @ map Query (add_primary_keys c)
     @ [Stdout [Today, Str ''Adding foreign keys'']]
     @ map Query (add_foreign_keys c)
     @ (if unhandled_count s \<noteq> 0
        then [Stdout [Today, Str ''Warning: '', Num (unhandled_count s),
                Str '' unhandled events'']]
        else [])
     @ [Stdout [Today, Str ''Done'']]"

fun is_dir_effect :: "effect \<Rightarrow> bool" where
  "is_dir_effect (Mkdir d) = True"
| "is_dir_effect (Rmdir d) = True"
| "is_dir_effect _ = False"

text \<open>The statements of schema finalization: primary keys, foreign keys, indexes.\<close>

fun is_key :: "sql \<Rightarrow> bool" where
  "is_key (AddPrimaryKey t) = True"
| "is_key (AddForeignKeys t cons) = True"
| "is_key (CreateIndex n t col) = True"
| "is_key _ = False"

fun is_key_effect :: "effect \<Rightarrow> bool" where
  "is_key_effect (Query q) = is_key q"
| "is_key_effect _ = False"

text \<open>The key statements among the effects of a run, in the order they were sent.\<close>

fun key_statement :: "effect \<Rightarrow> sql list" where
  "key_statement (Query q) = (if is_key q then [q] else [])"
| "key_statement _ = []"

definition key_statements :: "effect list \<Rightarrow> sql list" where
  "key_statements es = concat (map key_statement es)"

text \<open>The tables a run has created, in order, read off its effects.\<close>

fun table_created :: "effect \<Rightarrow> string list" where
  "table_created (Query q) = created_table q"
| "table_created _ = []"

definition tables_created :: "effect list \<Rightarrow> string list" where
  "tables_created es = concat (map table_created es)"

text \<open>The references a statement declares: (table, column, table referred to).\<close>

fun references :: "sql \<Rightarrow> (string \<times> string \<times> string) list" where
  "references (AddForeignKeys t cons) = map (\<lambda>(n, col, p). (t, col, p)) cons"
| "references _ = []"

text \<open>
  Following the spec's data model (its section 3), under the table names of the script:
  the tables, and the references between them in the order of the entities and their
  fields. Call paths exist when calls or call chains are exported, calls when calls are.
\<close>

definition spec_tables :: "config \<Rightarrow> string list" where
  "spec_tables c =
     [''selected_events'', ''machines'', ''threads'', ''comms'', ''comm_threads'', ''dsos'',
      ''symbols'', ''branch_types'', ''samples'']
     @ (if perf_db_export_calls c \<or> perf_db_export_callchains c then [''call_paths''] else [])
     @ (if perf_db_export_calls c then [''calls''] else [])"

definition spec_references :: "config \<Rightarrow> (string \<times> string \<times> string) list" where
  "spec_references c =
     [(''threads'', ''machine_id'', ''machines''),
      (''threads'', ''process_id'', ''threads''),
      (''comm_threads'', ''comm_id'', ''comms''),
      (''comm_threads'', ''thread_id'', ''threads''),
      (''dsos'', ''machine_id'', ''machines''),
      (''symbols'', ''dso_id'', ''dsos''),
      (''samples'', ''evsel_id'', ''selected_events''),
      (''samples'', ''machine_id'', ''machines''),
      (''samples'', ''thread_id'', ''threads''),
      (''samples'', ''comm_id'', ''comms''),
      (''samples'', ''dso_id'', ''dsos''),
      (''samples'', ''symbol_id'', ''symbols''),
      (''samples'', ''to_dso_id'', ''dsos''),
      (''samples'', ''to_symbol_id'', ''symbols'')]
     @ (if perf_db_export_calls c \<or> perf_db_export_callchains c then
          [(''call_paths'', ''parent_id'', ''call_paths''),
           (''call_paths'', ''symbol_id'', ''symbols'')]
        else [])
     @ (if perf_db_export_calls c then
          [(''calls'', ''thread_id'', ''threads''),
           (''calls'', ''comm_id'', ''comms''),
           (''calls'', ''call_path_id'', ''call_paths''),
           (''calls'', ''call_id'', ''samples''),
           (''calls'', ''return_id'', ''samples''),
           (''calls'', ''parent_call_path_id'', ''call_paths'')]
        else [])"

text \<open>From \<open>s\<close> to \<open>s'\<close> the directories are the same and the effects have grown by
  effects that all satisfy \<open>P\<close>.\<close>

definition quiet :: "(effect \<Rightarrow> bool) \<Rightarrow> state \<Rightarrow> state \<Rightarrow> bool" where
  "quiet P s s' \<longleftrightarrow>
     dirs s' = dirs s \<and> take (length (effects s)) (effects s') = effects s \<and>
     list_all P (drop (length (effects s)) (effects s'))"

text \<open>What may happen while the working directory stands, from CREATE DATABASE to the
  \<open>rmdir\<close> of \<open>trace_end\<close>: no directory is created or removed and no key is added.\<close>

definition standing :: "effect \<Rightarrow> bool" where
  "standing e \<longleftrightarrow> \<not> is_dir_effect e \<and> \<not> is_key_effect e"

text \<open>What may happen after \<open>trace_end\<close> has removed the working directory: no directory
  is created or removed, nothing is loaded and no file is deleted.\<close>

definition finishing :: "effect \<Rightarrow> bool" where
  "finishing e \<longleftrightarrow> \<not> is_dir_effect e \<and> \<not> is_copy e \<and> \<not> is_unlink e"

text \<open>The working directory \<open>d\<close> is still there: it was created, the database \<open>db\<close>
  was created, nothing removed the directory, and no key has been added.\<close>

definition dir_kept :: "string \<Rightarrow> string \<Rightarrow> state \<Rightarrow> bool" where
  "dir_kept d db s \<longleftrightarrow>
     d \<in> set (dirs s) \<and> Mkdir d \<in> set (effects s) \<and>
     Query (CreateDatabase db) \<in> set (effects s) \<and> Rmdir d \<notin> set (effects s) \<and>
     list_all (\<lambda>e. \<not> is_key_effect e) (effects s)"

text \<open>The working directory \<open>d\<close> was created and has been removed; no key was added before
  it was removed, and nothing was loaded and no file deleted afterwards.\<close>

definition dir_gone :: "string \<Rightarrow> state \<Rightarrow> bool" where
  "dir_gone d s \<longleftrightarrow>
     d \<notin> set (dirs s) \<and> Mkdir d \<in> set (effects s) \<and> Rmdir d \<in> set (effects s) \<and>
     list_all (\<lambda>e. \<not> is_key_effect e) (takeWhile (\<lambda>e. e \<noteq> Rmdir d) (effects s)) \<and>
     list_all (\<lambda>e. \<not> is_copy e \<and> \<not> is_unlink e) (dropWhile (\<lambda>e. e \<noteq> Rmdir d) (effects s))"

text \<open>What a completed run does outside, from the command line's configuration and the
  callbacks.\<close>

definition run_effects :: "config \<Rightarrow> callback list \<Rightarrow> effect list" where
  "run_effects c cbs =
     [Mkdir (output_dir_name c), Stdout [Today, Str ''Creating database...''],
      Query (CreateDatabase (dbname c)), Query SetClientMinMessages]
     @ map Query (create_tables c) @ map Query (create_views c)
     @ [Stdout [Today, Str ''Writing to intermediate files...''],
        Stdout [Today, Str ''Copying to database...'']]
     @ concat (map (\<lambda>(v, t). copy_effects t (wire_file (rows_for c v (sentinels c @ cbs))))
         (load_order c))
     @ [Stdout [Today, Str ''Removing intermediate files...'']]
     @ map (\<lambda>(v, t). Unlink (output_dir_name c @ ''/'' @ file_name v)) (load_order c)
     @ [Rmdir (output_dir_name c), Stdout [Today, Str ''Adding primary keys'']]
     @ map Query (add_primary_keys c)
     @ [Stdout [Today, Str ''Adding foreign keys'']]
     @ map Query (add_foreign_keys c)
     @ (if filter is_unhandled cbs \<noteq> []
        then [Stdout [Today, Str ''Warning: '', Num (int (length (filter is_unhandled cbs))),
                Str '' unhandled events'']]
        else [])
     @ [Stdout [Today, Str ''Done'']]"

text \<open>The foreign-key statements.\<close>

fun is_foreign_keys :: "sql \<Rightarrow> bool" where
  "is_foreign_keys (AddForeignKeys t cons) = True"
| "is_foreign_keys _ = False"

section \<open>Example inputs\<close>

definition fresh :: "string list \<Rightarrow> state" where
  "fresh ds = \<lparr>dirs = ds, paths = [], vars = (\<lambda>_. None), unhandled_count = 0, effects = []\<rparr>"

definition ex_cfg :: "bool \<Rightarrow> bool \<Rightarrow> bool \<Rightarrow> config" where
  "ex_cfg br calls callchains =
     \<lparr>dbname = ''db'', branches = br, perf_db_export_calls = calls,
      perf_db_export_callchains = callchains, output_dir_name = ''/w/db-perf-data''\<rparr>"

definition ex_file :: "string \<Rightarrow> pyfile" where
  "ex_file n = \<lparr>fname = ''/w/db-perf-data/'' @ n, fdata = file_header, fclosed = False\<rparr>"

text \<open>The state in which the nine unconditional staging files have just been opened.\<close>

definition ex_opened :: state where
  "ex_opened =
     \<lparr>dirs = [''/w/db-perf-data'', ''/w''],
      paths = [''/w/db-perf-data/sample_table.bin'', ''/w/db-perf-data/branch_type_table.bin'',
               ''/w/db-perf-data/symbol_table.bin'', ''/w/db-perf-data/dso_table.bin'',
               ''/w/db-perf-data/comm_thread_table.bin'', ''/w/db-perf-data/comm_table.bin'',
               ''/w/db-perf-data/thread_table.bin'', ''/w/db-perf-data/machine_table.bin'',
               ''/w/db-perf-data/evsel_table.bin''],
      vars = (\<lambda>_. None)
        (evsel_file \<mapsto> ex_file ''evsel_table.bin'',
         machine_file \<mapsto> ex_file ''machine_table.bin'',
         thread_file \<mapsto> ex_file ''thread_table.bin'',
         comm_file \<mapsto> ex_file ''comm_table.bin'',
         comm_thread_file \<mapsto> ex_file ''comm_thread_table.bin'',
         dso_file \<mapsto> ex_file ''dso_table.bin'',
         symbol_file \<mapsto> ex_file ''symbol_table.bin'',
         branch_type_file \<mapsto> ex_file ''branch_type_table.bin'',
         sample_file \<mapsto> ex_file ''sample_table.bin''),
      unhandled_count = 0,
      effects = []\<rparr>"

text \<open>An outside world in which every call succeeds.\<close>

definition ex_env :: env where
  "ex_env =
     \<lparr>getcwd = ''/w'', writable = (\<lambda>_. True), exec_ok = (\<lambda>_ _. True), last_error = (\<lambda>_ _. []),
      pq_status = (\<lambda>_ _. 0), pq_result_status = (\<lambda>_ _. 4),
      pq_put_copy_data = (\<lambda>_ _. 1), pq_put_copy_end = (\<lambda>_. 1)\<rparr>"

text \<open>Some callbacks of a short trace: a comm, a thread, a sample of 22 values and one
  event the script has no handler for.\<close>

definition ex_cbs :: "callback list" where
  "ex_cbs =
     [Comm_table [PInt 1, PStr ''bash''],
      Thread_table [PInt 1, PInt 0, PInt 1, PInt 100, PInt 100],
      Sample_table (PInt 1 # replicate 21 (PInt 0)),
      Trace_unhandled ''sched:sched_wakeup'']"

definition ex_argv :: "string list" where
  "ex_argv = [''export-to-postgresql.py'', ''db'']"

text \<open>An outside world in which CREATE DATABASE fails and every other call succeeds.\<close>

definition ex_env_no_create :: env where
  "ex_env_no_create = ex_env\<lparr>exec_ok := (\<lambda>_ q. q \<noteq> CreateDatabase ''db'')\<rparr>"

definition zeros22 :: "pyval list" where
  "zeros22 = replicate 22 (PInt 0)"

section \<open>Properties of struct.pack\<close>

declare be_bytes.simps [simp del]

declare put_copy_loop.simps [simp del]

declare chunks.simps [simp del]

lemma length_be_bytes: "length (be_bytes k v) = k"
  by (induction k arbitrary: v) (simp_all add: be_bytes.simps)

lemma struct_pack_Nil_iff: "struct_pack [] vs = Inr bs \<longleftrightarrow> vs = [] \<and> bs = []"
  by (cases vs) auto

lemma struct_pack_Cons_iff:
  "struct_pack (f # fs) vs = Inr bs \<longleftrightarrow>
     (\<exists>v vs' b bs'. vs = v # vs' \<and> pack_item f v = Some b \<and>
        struct_pack fs vs' = Inr bs' \<and> bs = b @ bs')"
  by (cases vs) (auto split: option.splits sum.splits)

lemma pack_item_Fh_iff:
  "pack_item Fh v = Some b \<longleftrightarrow>
     (\<exists>x. v = PInt x \<and> - (2 ^ 15) \<le> x \<and> x < 2 ^ 15 \<and> b = be_bytes 2 x)"
  by (cases v) auto

lemma pack_item_Fi_iff:
  "pack_item Fi v = Some b \<longleftrightarrow>
     (\<exists>x. v = PInt x \<and> - (2 ^ 31) \<le> x \<and> x < 2 ^ 31 \<and> b = be_bytes 4 x)"
  by (cases v) auto

lemma pack_item_Fq_iff:
  "pack_item Fq v = Some b \<longleftrightarrow>
     (\<exists>x. v = PInt x \<and> - (2 ^ 63) \<le> x \<and> x < 2 ^ 63 \<and> b = be_bytes 8 x)"
  by (cases v) auto

lemma pack_item_FB_iff:
  "pack_item FB v = Some b \<longleftrightarrow>
     (\<exists>x. v = PInt x \<and> 0 \<le> x \<and> x < 256 \<and> b = be_bytes 1 x)"
  by (cases v) auto

lemma pack_item_Fs_iff:
  "pack_item (Fs n) v = Some b \<longleftrightarrow>
     (\<exists>s. v = PStr s \<and> b = take n s @ replicate (n - length s) (CHR 0x00))"
  by (cases v) auto

lemmas pack_iffs =
  struct_pack_Nil_iff struct_pack_Cons_iff pack_item_Fh_iff pack_item_Fi_iff
  pack_item_Fq_iff pack_item_FB_iff pack_item_Fs_iff

lemma bind_Inr_iff: "bind m f = Inr y \<longleftrightarrow> (\<exists>x. m = Inr x \<and> f x = Inr y)"
  by (cases m) (simp_all add: bind_def)

lemma py_len_Inr_iff: "py_len v = Inr n \<longleftrightarrow> (\<exists>s. v = PStr s \<and> n = length s)"
  by (cases v) auto

section \<open>Rows are in the wire format\<close>

lemma struct_pack_CC_iff:
  "struct_pack (f # fs) (v # vs) = Inr bs \<longleftrightarrow>
     (\<exists>b bs'. pack_item f v = Some b \<and> struct_pack fs vs = Inr bs' \<and> bs = b @ bs')"
  by (auto split: option.splits sum.splits)

lemmas row_simps =
  struct_pack_CC_iff pack_iffs bind_Inr_iff py_len_Inr_iff wire_row_def wire_field_def
  length_be_bytes

lemma evsel_row_wire:
  "evsel_row a b = Inr v \<Longrightarrow> v = wire_row [Int64 (ival a), Text (sval b)]"
  by (clarsimp simp add: evsel_row_def row_simps simp del: struct_pack.simps)

lemma machine_row_wire:
  "machine_row a b d = Inr v \<Longrightarrow> v = wire_row [Int64 (ival a), Int32 (ival b), Text (sval d)]"
  by (clarsimp simp add: machine_row_def row_simps simp del: struct_pack.simps)

lemma thread_row_wire:
  "thread_row a b d e f = Inr v \<Longrightarrow>
     v = wire_row [Int64 (ival a), Int64 (ival b), Int64 (ival d), Int32 (ival e), Int32 (ival f)]"
  by (clarsimp simp add: thread_row_def row_simps simp del: struct_pack.simps)

lemma comm_row_wire:
  "comm_row a b = Inr v \<Longrightarrow> v = wire_row [Int64 (ival a), Text (sval b)]"
  by (clarsimp simp add: comm_row_def row_simps simp del: struct_pack.simps)

lemma comm_thread_row_wire:
  "comm_thread_row a b d = Inr v \<Longrightarrow>
     v = wire_row [Int64 (ival a), Int64 (ival b), Int64 (ival d)]"
  by (clarsimp simp add: comm_thread_row_def row_simps simp del: struct_pack.simps)

lemma dso_row_wire:
  "dso_row a b d e f = Inr v \<Longrightarrow>
     v = wire_row [Int64 (ival a), Int64 (ival b), Text (sval d), Text (sval e), Text (sval f)]"
  by (clarsimp simp add: dso_row_def row_simps simp del: struct_pack.simps)

lemma symbol_row_wire:
  "symbol_row a b d e f g = Inr v \<Longrightarrow>
     v = wire_row [Int64 (ival a), Int64 (ival b), Int64 (ival d), Int64 (ival e),
                   Int32 (ival f), Text (sval g)]"
  by (clarsimp simp add: symbol_row_def row_simps simp del: struct_pack.simps)

lemma branch_type_row_wire:
  "branch_type_row a b = Inr v \<Longrightarrow> v = wire_row [Int32 (ival a), Text (sval b)]"
  by (clarsimp simp add: branch_type_row_def row_simps simp del: struct_pack.simps)

lemma call_path_row_wire:
  "call_path_row a b d e = Inr v \<Longrightarrow>
     v = wire_row [Int64 (ival a), Int64 (ival b), Int64 (ival d), Int64 (ival e)]"
  by (clarsimp simp add: call_path_row_def row_simps simp del: struct_pack.simps)

lemma call_return_row_wire:
  "call_return_row xs = Inr v \<Longrightarrow>
     v = wire_row [Int64 (ival (xs ! 0)), Int64 (ival (xs ! 1)), Int64 (ival (xs ! 2)),
        Int64 (ival (xs ! 3)), Int64 (ival (xs ! 4)), Int64 (ival (xs ! 5)),
        Int64 (ival (xs ! 6)), Int64 (ival (xs ! 7)), Int64 (ival (xs ! 8)),
        Int64 (ival (xs ! 9)), Int32 (ival (xs ! 10))]"
  by (clarsimp simp add: call_return_row_def Let_def row_simps simp del: struct_pack.simps)

lemma sample_row_wire:
  "sample_row c xs = Inr v \<Longrightarrow> v = wire_row (sample_fields c xs)"
  by (cases "branches c")
     (clarsimp simp add: sample_row_def sample_fields_def Let_def row_simps
        simp del: struct_pack.simps)+

lemma length_sample_fields: "length (sample_fields c xs) = (if branches c then 18 else 22)"
  by (simp add: sample_fields_def)

lemma write_row_Inr_iff:
  "write_row v r s = Inr s' \<longleftrightarrow>
     (\<exists>value f. r = Inr value \<and> vars s v = Some f \<and> \<not> fclosed f \<and>
        s' = s\<lparr>vars := (vars s)(v \<mapsto> f\<lparr>fdata := fdata f @ value\<rparr>)\<rparr>)"
  by (auto simp: write_row_def file_write_def split: sum.splits option.splits)

lemma dispatch_row:
  assumes that: "dispatch c cb s = Inr s'"
  shows "(case row_of c cb of
        None \<Rightarrow> vars s' = vars s
      | Some (v, fs) \<Rightarrow>
          (\<exists>f. vars s v = Some f \<and> \<not> fclosed f \<and>
             vars s' = (vars s)(v \<mapsto> f\<lparr>fdata := fdata f @ wire_row fs\<rparr>)))
     \<and> dirs s' = dirs s \<and> paths s' = paths s \<and> effects s' = effects s
     \<and> unhandled_count s' =
         unhandled_count s + (case cb of Trace_unhandled _ \<Rightarrow> 1 | _ \<Rightarrow> 0)"
proof (cases cb)
  case (Evsel_table xs)
  then show ?thesis using that
    by (cases "(xs, s)" rule: evsel_table.cases)
       (auto simp: write_row_Inr_iff dest: evsel_row_wire)
next
  case (Machine_table xs)
  then show ?thesis using that
    by (cases "(xs, s)" rule: machine_table.cases)
       (auto simp: write_row_Inr_iff dest: machine_row_wire)
next
  case (Thread_table xs)
  then show ?thesis using that
    by (cases "(xs, s)" rule: thread_table.cases)
       (auto simp: write_row_Inr_iff dest: thread_row_wire)
next
  case (Comm_table xs)
  then show ?thesis using that
    by (cases "(xs, s)" rule: comm_table.cases)
       (auto simp: write_row_Inr_iff dest: comm_row_wire)
next
  case (Comm_thread_table xs)
  then show ?thesis using that
    by (cases "(xs, s)" rule: comm_thread_table.cases)
       (auto simp: write_row_Inr_iff dest: comm_thread_row_wire)
next
  case (Dso_table xs)
  then show ?thesis using that
    by (cases "(xs, s)" rule: dso_table.cases)
       (auto simp: write_row_Inr_iff dest: dso_row_wire)
next
  case (Symbol_table xs)
  then show ?thesis using that
    by (cases "(xs, s)" rule: symbol_table.cases)
       (auto simp: write_row_Inr_iff dest: symbol_row_wire)
next
  case (Branch_type_table xs)
  then show ?thesis using that
    by (cases "(xs, s)" rule: branch_type_table.cases)
       (auto simp: write_row_Inr_iff dest: branch_type_row_wire)
next
  case (Sample_table xs)
  then show ?thesis using that
    by (auto simp: sample_table_def write_row_Inr_iff split: if_splits dest: sample_row_wire)
next
  case (Call_path_table xs)
  then show ?thesis using that
    by (cases "(xs, s)" rule: call_path_table.cases)
       (auto simp: write_row_Inr_iff dest: call_path_row_wire)
next
  case (Call_return_table xs)
  then show ?thesis using that
    by (auto simp: call_return_table_def write_row_Inr_iff split: if_splits
          dest: call_return_row_wire)
next
  case (Trace_unhandled n)
  then show ?thesis using that by (auto simp: trace_unhandled_def)
next
  case (Sched__sched_switch xs)
  then show ?thesis using that by (auto simp: sched__sched_switch_def)
qed

section \<open>Sequences, callbacks and chunks\<close>

lemma file_header_eq: "file_header = wire_header"
  by (simp add: file_header_def wire_header_def magic_def)

lemma file_trailer_eq: "file_trailer = wire_trailer"
  by (simp add: file_trailer_def wire_trailer_def)

lemma length_wire_header: "length wire_header = 19" "length magic = 11"
  by (simp_all add: wire_header_def magic_def length_be_bytes)

subsection \<open>Sequences\<close>

lemma seq_Cons_Inr_iff:
  "seq (f # fs) s = Inr s' \<longleftrightarrow> (\<exists>s1. f s = Inr s1 \<and> seq fs s1 = Inr s')"
  by (auto split: sum.splits)

lemma seq_append_Inr_iff:
  "seq (fs @ gs) s = Inr s' \<longleftrightarrow> (\<exists>s1. seq fs s = Inr s1 \<and> seq gs s1 = Inr s')"
  by (induction fs arbitrary: s) (auto split: sum.splits)

lemma seq_append:
  "seq (fs @ gs) s = (case seq fs s of Inl e \<Rightarrow> Inl e | Inr s1 \<Rightarrow> seq gs s1)"
  by (induction fs arbitrary: s) (auto split: sum.splits)

subsection \<open>Callbacks\<close>

lemma dispatch_vars:
  assumes "dispatch c cb s = Inr s'"
  shows "vars s' v =
     map_option (\<lambda>f. f\<lparr>fdata := fdata f @ concat (map wire_row (rows_for c v [cb]))\<rparr>) (vars s v)"
  using dispatch_row [OF assms]
  by (cases "row_of c cb") (auto simp: rows_for_def option.map_ident split: option.splits)

lemma rows_for_Cons: "rows_for c v (cb # cbs) = rows_for c v [cb] @ rows_for c v cbs"
  by (simp add: rows_for_def)

lemma rows_for_append: "rows_for c v (xs @ ys) = rows_for c v xs @ rows_for c v ys"
  by (simp add: rows_for_def)

lemma rows_for_Nil: "rows_for c v [] = []"
  by (simp add: rows_for_def)

lemma seq_dispatch:
  "seq (map (dispatch c) cbs) s = Inr s' \<Longrightarrow>
     (\<forall>v. vars s' v =
        map_option (\<lambda>f. f\<lparr>fdata := fdata f @ concat (map wire_row (rows_for c v cbs))\<rparr>)
          (vars s v)) \<and>
     dirs s' = dirs s \<and> paths s' = paths s \<and> effects s' = effects s \<and>
     unhandled_count s' = unhandled_count s + int (length (filter is_unhandled cbs))"
proof (induction cbs arbitrary: s)
  case Nil
  then show ?case by (simp add: rows_for_Nil option.map_ident)
next
  case (Cons cb cbs)
  then obtain s1 where 1: "dispatch c cb s = Inr s1"
    and 2: "seq (map (dispatch c) cbs) s1 = Inr s'"
    by (auto split: sum.splits)
  note r = dispatch_row [OF 1] and v = dispatch_vars [OF 1] and ih = Cons.IH [OF 2]
  have "vars s' v =
        map_option (\<lambda>f. f\<lparr>fdata := fdata f @ concat (map wire_row (rows_for c v (cb # cbs)))\<rparr>)
          (vars s v)" for v
    using ih v [of v] by (cases "vars s v") (simp_all add: rows_for_Cons [of c v cb cbs])
  moreover have "unhandled_count s' =
      unhandled_count s + int (length (filter is_unhandled (cb # cbs)))"
    using ih r by (cases cb) simp_all
  ultimately show ?case using ih r by simp
qed

lemma trace_begin_steps:
  "trace_begin c =
     seq (py_print [Today, Str ''Writing to intermediate files...'']
          # map (dispatch c) (sentinels c))"
  by (cases "perf_db_export_calls c \<or> perf_db_export_callchains c")
     (simp_all add: trace_begin_def sentinels_def del: seq.simps)

lemma trace_begin_eq:
  "trace_begin c s =
     seq (map (dispatch c) (sentinels c))
       (emit (Stdout [Today, Str ''Writing to intermediate files...'']) s)"
  by (simp add: trace_begin_steps py_print_def)

lemma encode_phase_eq:
  "encode_phase c cbs s =
     seq (map (dispatch c) (sentinels c @ cbs))
       (emit (Stdout [Today, Str ''Writing to intermediate files...'']) s)"
  by (simp only: encode_phase_def seq.simps trace_begin_eq map_append seq_append)

lemma encode_phase_Inr:
  assumes "encode_phase c cbs s = Inr s'"
  shows "(\<forall>v. vars s' v =
        map_option
          (\<lambda>f. f\<lparr>fdata := fdata f @ concat (map wire_row (rows_for c v (sentinels c @ cbs)))\<rparr>)
          (vars s v))"
    and "dirs s' = dirs s" and "paths s' = paths s"
    and "effects s' = effects s @ [Stdout [Today, Str ''Writing to intermediate files...'']]"
    and "unhandled_count s' = unhandled_count s + int (length (filter is_unhandled cbs))"
  using seq_dispatch [OF assms [unfolded encode_phase_eq]]
  by (simp_all add: emit_def sentinels_def)

subsection \<open>Chunks\<close>

lemma chunks_Nil: "take 65536 rest = [] \<Longrightarrow> chunks rest = []"
  by (subst chunks.simps) simp

lemma chunks_Cons:
  "take 65536 rest \<noteq> [] \<Longrightarrow> chunks rest = take 65536 rest # chunks (drop 65536 rest)"
  by (subst chunks.simps) (simp add: Let_def)

lemma concat_chunks: "concat (chunks d) = d"
proof (induction d rule: chunks.induct)
  case (1 rest)
  show ?case
  proof (cases "take 65536 rest = []")
    case True
    then show ?thesis by (simp add: chunks_Nil)
  next
    case False
    with 1 have "concat (chunks (drop 65536 rest)) = drop 65536 rest" by simp
    with False show ?thesis by (simp add: chunks_Cons)
  qed
qed

lemma put_copy_loop_stop:
  "take 65536 rest = [] \<Longrightarrow> put_copy_loop en rest s = Inr s"
  by (subst put_copy_loop.simps) simp

lemma put_copy_loop_fail:
  "take 65536 rest \<noteq> [] \<Longrightarrow> pq_put_copy_data en (effects s) (take 65536 rest) \<noteq> 1 \<Longrightarrow>
     put_copy_loop en rest s =
       Inl (Exception [Str ''COPY FROM STDIN PQputCopyData failed, error '',
              Num (pq_put_copy_data en (effects s) (take 65536 rest))], s)"
  by (subst put_copy_loop.simps) (simp add: Let_def)

lemma put_copy_loop_step:
  "take 65536 rest \<noteq> [] \<Longrightarrow> pq_put_copy_data en (effects s) (take 65536 rest) = 1 \<Longrightarrow>
     put_copy_loop en rest s =
       put_copy_loop en (drop 65536 rest) (emit (CopyData (take 65536 rest)) s)"
  by (subst put_copy_loop.simps) (simp add: Let_def)

lemma put_copy_loop_final:
  "\<exists>l. list_all is_copy l \<and>
     final (put_copy_loop en rest s) = s\<lparr>effects := effects s @ l\<rparr> \<and>
     (\<forall>s'. put_copy_loop en rest s = Inr s' \<longrightarrow> l = map CopyData (chunks rest))"
proof (induction en rest s rule: put_copy_loop.induct)
  case (1 en rest s)
  consider (stop) "take 65536 rest = []"
    | (fail) "take 65536 rest \<noteq> []" "pq_put_copy_data en (effects s) (take 65536 rest) \<noteq> 1"
    | (step) "take 65536 rest \<noteq> []" "pq_put_copy_data en (effects s) (take 65536 rest) = 1"
    by blast
  then show ?case
  proof cases
    case stop
    then show ?thesis
      by (intro exI [of _ "[]"]) (simp add: put_copy_loop_stop chunks_Nil)
  next
    case fail
    then show ?thesis
      by (intro exI [of _ "[]"]) (simp add: put_copy_loop_fail)
  next
    case step
    note eq = put_copy_loop_step [OF step]
    from "1.IH" [OF refl step(1) refl] step(2)
    obtain l where l: "list_all is_copy l"
        "final (put_copy_loop en rest s) = (emit (CopyData (take 65536 rest)) s)\<lparr>effects :=
           effects (emit (CopyData (take 65536 rest)) s) @ l\<rparr>"
        "\<forall>s'. put_copy_loop en rest s = Inr s' \<longrightarrow> l = map CopyData (chunks (drop 65536 rest))"
      unfolding eq by auto
    show ?thesis
      using l step(1)
      by (intro exI [of _ "CopyData (take 65536 rest) # l"]) (simp add: emit_def chunks_Cons)
  qed
qed

lemma put_copy_loop_Inr:
  assumes "put_copy_loop en rest s = Inr s'"
  shows "s' = s\<lparr>effects := effects s @ map CopyData (chunks rest)\<rparr>"
  using put_copy_loop_final [of en rest s] assms by auto

subsection \<open>The statements of trace_end\<close>

lemma seq_Nil_Inr_iff: "seq [] s = Inr s' \<longleftrightarrow> s' = s"
  by auto

lemma do_query_Inr: "do_query en q s = Inr s' \<Longrightarrow> s' = emit (Query q) s"
  by (auto simp: do_query_def split: if_splits)

lemma seq_do_query_Inr:
  "seq (map (do_query en) qs) s = Inr s' \<Longrightarrow> s' = s\<lparr>effects := effects s @ map Query qs\<rparr>"
proof (induction qs arbitrary: s)
  case Nil
  then show ?case by simp
next
  case (Cons q qs)
  then obtain s1 where 1: "do_query en q s = Inr s1"
    and 2: "seq (map (do_query en) qs) s1 = Inr s'"
    by (auto split: sum.splits)
  from Cons.IH [OF 2] do_query_Inr [OF 1] show ?case by (simp add: emit_def)
qed

lemma copy_output_file_Inr:
  assumes "copy_output_file en c v t s = Inr s'"
  shows "\<exists>f. vars s v = Some f \<and> \<not> fclosed f \<and>
     s' = s\<lparr>vars := (vars s)(v \<mapsto> f\<lparr>fdata := fdata f @ file_trailer\<rparr>),
            effects := effects s @ copy_effects t (fdata f @ file_trailer)\<rparr>"
  using assms
  by (auto simp: copy_output_file_def file_write_def Let_def copy_effects_def emit_def
      split: option.splits if_splits sum.splits dest!: put_copy_loop_Inr)

lemma remove_output_file_Inr:
  assumes "remove_output_file v s = Inr s'"
  shows "\<exists>f. vars s v = Some f \<and> fname f \<in> set (paths s) \<and>
     s' = s\<lparr>vars := (vars s)(v \<mapsto> f\<lparr>fclosed := True\<rparr>),
            paths := removeAll (fname f) (paths s),
            effects := effects s @ [Unlink (fname f)]\<rparr>"
  using assms
  by (auto simp: remove_output_file_def os_unlink_def emit_def split: option.splits if_splits)

lemma copy_files_eq:
  "copy_files en c = map (\<lambda>(v, t). copy_output_file en c v t) (load_order c)"
  by (simp add: copy_files_def load_order_def)

lemma remove_files_eq:
  "remove_files c = map (\<lambda>(v, t). remove_output_file v) (load_order c)"
  by (simp add: remove_files_def load_order_def)

lemma distinct_load_order: "distinct (map fst (load_order c))"
  by (simp add: load_order_def)

lemma seq_copy_Inr:
  "seq (map (\<lambda>(v, t). copy_output_file en c v t) vts) s = Inr s' \<Longrightarrow> distinct (map fst vts) \<Longrightarrow>
     effects s' = effects s @
       concat (map (\<lambda>(v, t). copy_effects t (fdata (the (vars s v)) @ file_trailer)) vts) \<and>
     (\<forall>v. vars s' v =
        (if v \<in> fst ` set vts
         then map_option (\<lambda>f. f\<lparr>fdata := fdata f @ file_trailer\<rparr>) (vars s v)
         else vars s v)) \<and>
     dirs s' = dirs s \<and> paths s' = paths s \<and> unhandled_count s' = unhandled_count s"
proof (induction vts arbitrary: s)
  case Nil
  then show ?case by simp
next
  case (Cons vt vts)
  obtain v t where vt: "vt = (v, t)" by (cases vt)
  from Cons.prems obtain s1 where 1: "copy_output_file en c v t s = Inr s1"
    and 2: "seq (map (\<lambda>(v, t). copy_output_file en c v t) vts) s1 = Inr s'"
    by (auto simp: vt split: sum.splits)
  from Cons.prems have d: "distinct (map fst vts)" and nv: "v \<notin> fst ` set vts"
    by (auto simp: vt)
  from nv have nv': "(v, b) \<notin> set vts" for b by force
  from copy_output_file_Inr [OF 1] obtain f where f: "vars s v = Some f"
    and s1: "s1 = s\<lparr>vars := (vars s)(v \<mapsto> f\<lparr>fdata := fdata f @ file_trailer\<rparr>),
            effects := effects s @ copy_effects t (fdata f @ file_trailer)\<rparr>"
    by blast
  note ih = Cons.IH [OF 2 d]
  have same: "map (\<lambda>(v, t). copy_effects t (fdata (the (vars s1 v)) @ file_trailer)) vts =
      map (\<lambda>(v, t). copy_effects t (fdata (the (vars s v)) @ file_trailer)) vts"
    using nv' by (intro map_cong) (auto simp: s1)
  have e1: "effects s' = effects s1 @
       concat (map (\<lambda>(v, t). copy_effects t (fdata (the (vars s1 v)) @ file_trailer)) vts)"
    using ih by blast
  have e2: "effects s1 = effects s @ copy_effects t (fdata f @ file_trailer)"
    by (simp add: s1)
  have e: "effects s' = effects s @
       concat (map (\<lambda>(v, t). copy_effects t (fdata (the (vars s v)) @ file_trailer)) (vt # vts))"
    unfolding e1 same e2 by (simp add: vt f)
  have vs: "vars s' w =
        (if w \<in> fst ` set (vt # vts)
         then map_option (\<lambda>f. f\<lparr>fdata := fdata f @ file_trailer\<rparr>) (vars s w)
         else vars s w)" for w
    using ih nv by (auto simp: vt s1 f)
  from e vs ih show ?case by (simp add: s1)
qed

lemma seq_remove_Inr:
  "seq (map (\<lambda>(v, t). remove_output_file v) vts) s = Inr s' \<Longrightarrow> distinct (map fst vts) \<Longrightarrow>
     effects s' = effects s @ map (\<lambda>(v, t). Unlink (fname (the (vars s v)))) vts \<and>
     (\<forall>v. vars s' v =
        (if v \<in> fst ` set vts then map_option (\<lambda>f. f\<lparr>fclosed := True\<rparr>) (vars s v)
         else vars s v)) \<and>
     dirs s' = dirs s \<and> unhandled_count s' = unhandled_count s"
proof (induction vts arbitrary: s)
  case Nil
  then show ?case by simp
next
  case (Cons vt vts)
  obtain v t where vt: "vt = (v, t)" by (cases vt)
  from Cons.prems obtain s1 where 1: "remove_output_file v s = Inr s1"
    and 2: "seq (map (\<lambda>(v, t). remove_output_file v) vts) s1 = Inr s'"
    by (auto simp: vt split: sum.splits)
  from Cons.prems have d: "distinct (map fst vts)" and nv: "v \<notin> fst ` set vts"
    by (auto simp: vt)
  from nv have nv': "(v, b) \<notin> set vts" for b by force
  from remove_output_file_Inr [OF 1] obtain f where f: "vars s v = Some f"
    and s1: "s1 = s\<lparr>vars := (vars s)(v \<mapsto> f\<lparr>fclosed := True\<rparr>),
            paths := removeAll (fname f) (paths s),
            effects := effects s @ [Unlink (fname f)]\<rparr>"
    by blast
  note ih = Cons.IH [OF 2 d]
  have same: "map (\<lambda>(v, t). Unlink (fname (the (vars s1 v)))) vts =
      map (\<lambda>(v, t). Unlink (fname (the (vars s v)))) vts"
    using nv' by (intro map_cong) (auto simp: s1)
  have e1: "effects s' = effects s1 @ map (\<lambda>(v, t). Unlink (fname (the (vars s1 v)))) vts"
    using ih by blast
  have e2: "effects s1 = effects s @ [Unlink (fname f)]"
    by (simp add: s1)
  have e: "effects s' = effects s @ map (\<lambda>(v, t). Unlink (fname (the (vars s v)))) (vt # vts)"
    unfolding e1 same e2 by (simp add: vt f)
  have vs: "vars s' w =
        (if w \<in> fst ` set (vt # vts) then map_option (\<lambda>f. f\<lparr>fclosed := True\<rparr>) (vars s w)
         else vars s w)" for w
    using ih nv by (auto simp: vt s1 f)
  from e vs ih show ?case by (simp add: s1)
qed

lemma os_rmdir_Inr:
  "os_rmdir d s = Inr s' \<Longrightarrow>
     d \<in> set (dirs s) \<and> s' = s\<lparr>dirs := removeAll d (dirs s), effects := effects s @ [Rmdir d]\<rparr>"
  by (auto simp: os_rmdir_def emit_def split: if_splits)

lemma report_unhandled_Inr:
  "report_unhandled s = Inr s' \<Longrightarrow>
     s' = s\<lparr>effects := effects s @
        (if unhandled_count s \<noteq> 0
         then [Stdout [Today, Str ''Warning: '', Num (unhandled_count s),
                 Str '' unhandled events'']]
         else [])\<rparr>"
  by (auto simp: report_unhandled_def py_print_def emit_def split: if_splits)

lemma trace_end_Inr:
  assumes "trace_end en c s = Inr s'"
  shows "effects s' = effects s @ trace_end_effects c s"
    and "dirs s' = removeAll (output_dir_name c) (dirs s)"
    and "unhandled_count s' = unhandled_count s"
    and "vars s' v =
          (if v \<in> fst ` set (load_order c)
           then map_option (\<lambda>f. f\<lparr>fdata := fdata f @ file_trailer, fclosed := True\<rparr>) (vars s v)
           else vars s v)"
    and "output_dir_name c \<in> set (dirs s)"
proof -
  from assms obtain s1 s2 s3 s4 s5 s6 where
    c: "seq (map (\<lambda>(v, t). copy_output_file en c v t) (load_order c))
          (emit (Stdout [Today, Str ''Copying to database...'']) s) = Inr s1" and
    r: "seq (map (\<lambda>(v, t). remove_output_file v) (load_order c))
          (emit (Stdout [Today, Str ''Removing intermediate files...'']) s1) = Inr s2" and
    d: "os_rmdir (output_dir_name c) s2 = Inr s3" and
    k: "seq (map (do_query en) (add_primary_keys c))
          (emit (Stdout [Today, Str ''Adding primary keys'']) s3) = Inr s4" and
    f: "seq (map (do_query en) (add_foreign_keys c))
          (emit (Stdout [Today, Str ''Adding foreign keys'']) s4) = Inr s5" and
    u: "report_unhandled s5 = Inr s6" and
    e: "s' = emit (Stdout [Today, Str ''Done'']) s6"
    by (auto simp: trace_end_def seq_append_Inr_iff seq_Cons_Inr_iff seq_Nil_Inr_iff py_print_def
          copy_files_eq remove_files_eq
        simp del: seq.simps)
  note C = seq_copy_Inr [OF c distinct_load_order]
  note R = seq_remove_Inr [OF r distinct_load_order]
  note D = os_rmdir_Inr [OF d]
  note K = seq_do_query_Inr [OF k]
  note F = seq_do_query_Inr [OF f]
  note U = report_unhandled_Inr [OF u]
  have names: "map (\<lambda>(v, t). Unlink (fname (the (vars s1 v)))) (load_order c) =
      map (\<lambda>(v, t). Unlink (fname (the (vars s v)))) (load_order c)"
  proof (intro map_cong refl)
    fix x assume x: "x \<in> set (load_order c)"
    obtain v t where vt: "x = (v, t)" by (cases x)
    with x have "v \<in> fst ` set (load_order c)" by force
    with C have "vars s1 v =
        map_option (\<lambda>f. f\<lparr>fdata := fdata f @ file_trailer\<rparr>) (vars (emit (Stdout [Today, Str ''Copying to database...'']) s) v)"
      by simp
    then have "fname (the (vars s1 v)) = fname (the (vars s v))"
      by (cases "vars s v") (simp_all add: emit_def)
    then show "(case x of (v, t) \<Rightarrow> Unlink (fname (the (vars s1 v)))) =
        (case x of (v, t) \<Rightarrow> Unlink (fname (the (vars s v))))"
      by (simp add: vt)
  qed
  have uc: "unhandled_count s5 = unhandled_count s"
    using C R D K F by (simp add: emit_def)
  show "effects s' = effects s @ trace_end_effects c s"
    using C R D K F U e names uc by (simp add: trace_end_effects_def emit_def)
  show "dirs s' = removeAll (output_dir_name c) (dirs s)"
    using C R D K F U e by (simp add: emit_def)
  show "unhandled_count s' = unhandled_count s"
    using uc U e by (simp add: emit_def)
  show "output_dir_name c \<in> set (dirs s)"
    using C R D by (simp add: emit_def)
  have "vars s' v = vars s2 v" using D K F U e by (simp add: emit_def)
  moreover have "vars s2 v =
      (if v \<in> fst ` set (load_order c)
       then map_option (\<lambda>f. f\<lparr>fclosed := True\<rparr>) (vars s1 v) else vars s1 v)"
    using R by (simp add: emit_def)
  moreover have "vars s1 v =
      (if v \<in> fst ` set (load_order c)
       then map_option (\<lambda>f. f\<lparr>fdata := fdata f @ file_trailer\<rparr>) (vars s v) else vars s v)"
    using C by (simp add: emit_def)
  ultimately show "vars s' v =
          (if v \<in> fst ` set (load_order c)
           then map_option (\<lambda>f. f\<lparr>fdata := fdata f @ file_trailer, fclosed := True\<rparr>) (vars s v)
           else vars s v)"
    by (cases "vars s v") simp_all
qed

subsection \<open>The module-level statements\<close>

lemma open_files_eq:
  "open_files c = seq (map (\<lambda>(v, t). open_output_file c v (file_name v)) (load_order c))"
  by (cases "perf_db_export_calls c"; cases "perf_db_export_callchains c")
     (simp_all add: open_files_def load_order_def del: seq.simps)

lemma seq_open_Inr:
  "seq (map (\<lambda>(v, t). open_output_file c v (file_name v)) vts) s = Inr s' \<Longrightarrow>
     (\<forall>v. vars s' v =
        (if v \<in> fst ` set vts
         then Some \<lparr>fname = output_dir_name c @ ''/'' @ file_name v, fdata = file_header,
                     fclosed = False\<rparr>
         else vars s v)) \<and>
     dirs s' = dirs s \<and> effects s' = effects s \<and> unhandled_count s' = unhandled_count s"
proof (induction vts arbitrary: s)
  case Nil
  then show ?case by simp
next
  case (Cons vt vts)
  obtain v t where vt: "vt = (v, t)" by (cases vt)
  from Cons.prems obtain s1 where 1: "open_output_file c v (file_name v) s = Inr s1"
    and 2: "seq (map (\<lambda>(v, t). open_output_file c v (file_name v)) vts) s1 = Inr s'"
    by (auto simp: vt split: sum.splits)
  from 1 have s1: "s1 = s\<lparr>paths := (output_dir_name c @ ''/'' @ file_name v)
            # removeAll (output_dir_name c @ ''/'' @ file_name v) (paths s),
        vars := (vars s)(v \<mapsto> \<lparr>fname = output_dir_name c @ ''/'' @ file_name v,
          fdata = file_header, fclosed = False\<rparr>)\<rparr>"
    by (auto simp: open_output_file_def Let_def split: if_splits)
  from Cons.IH [OF 2] show ?case by (auto simp: vt s1)
qed

lemma open_files_Inr:
  assumes "open_files c s = Inr s'"
  shows "vars s' v =
      (if v \<in> set (map fst (load_order c))
       then Some \<lparr>fname = output_dir_name c @ ''/'' @ file_name v, fdata = file_header,
                   fclosed = False\<rparr>
       else vars s v)"
    and "dirs s' = dirs s" and "effects s' = effects s"
    and "unhandled_count s' = unhandled_count s"
  using seq_open_Inr [OF assms [unfolded open_files_eq]] by simp_all

lemma os_mkdir_Inr:
  "os_mkdir en d s = Inr s' \<Longrightarrow>
     d \<notin> set (dirs s) \<and> s' = s\<lparr>dirs := d # dirs s, effects := effects s @ [Mkdir d]\<rparr>"
  by (auto simp: os_mkdir_def emit_def split: if_splits)

lemma create_database_Inr:
  "create_database en c s = Inr s' \<Longrightarrow> s' = emit (Query (CreateDatabase (dbname c))) s"
  by (auto simp: create_database_def do_query_def split: sum.splits if_splits)

lemma script_body_Inr:
  assumes "script_body en c s = Inr s'"
  shows "effects s' = effects s @
      [Mkdir (output_dir_name c), Stdout [Today, Str ''Creating database...''],
       Query (CreateDatabase (dbname c)), Query SetClientMinMessages]
      @ map Query (create_tables c) @ map Query (create_views c)"
    and "dirs s' = output_dir_name c # dirs s"
    and "output_dir_name c \<notin> set (dirs s)"
    and "unhandled_count s' = 0"
    and "vars s' v =
      (if v \<in> set (map fst (load_order c))
       then Some \<lparr>fname = output_dir_name c @ ''/'' @ file_name v, fdata = file_header,
                   fclosed = False\<rparr>
       else vars s v)"
proof -
  from assms obtain s1 s2 s3 s4 s5 s6 where
    m: "os_mkdir en (output_dir_name c) s = Inr s1" and
    d: "create_database en c (emit (Stdout [Today, Str ''Creating database...'']) s1) = Inr s2" and
    q: "do_query en SetClientMinMessages s2 = Inr s3" and
    t: "seq (map (do_query en) (create_tables c)) s3 = Inr s4" and
    w: "seq (map (do_query en) (create_views c)) s4 = Inr s5" and
    p: "open_files c s5 = Inr s6" and
    e: "s' = s6\<lparr>unhandled_count := 0\<rparr>"
    by (auto simp: script_body_def seq_append_Inr_iff seq_Cons_Inr_iff seq_Nil_Inr_iff
          py_print_def
        simp del: seq.simps)
  note M = os_mkdir_Inr [OF m] and D = create_database_Inr [OF d] and Q = do_query_Inr [OF q]
    and T = seq_do_query_Inr [OF t] and W = seq_do_query_Inr [OF w]
    and P = open_files_Inr [OF p]
  show "effects s' = effects s @
      [Mkdir (output_dir_name c), Stdout [Today, Str ''Creating database...''],
       Query (CreateDatabase (dbname c)), Query SetClientMinMessages]
      @ map Query (create_tables c) @ map Query (create_views c)"
    using M D Q T W P(3) e by (simp add: emit_def)
  show "dirs s' = output_dir_name c # dirs s"
    using M D Q T W P(2) e by (simp add: emit_def)
  show "output_dir_name c \<notin> set (dirs s)" using M by simp
  show "unhandled_count s' = 0" using e by simp
  have "vars s5 = vars s" using M D Q T W by (simp add: emit_def)
  then show "vars s' v =
      (if v \<in> set (map fst (load_order c))
       then Some \<lparr>fname = output_dir_name c @ ''/'' @ file_name v, fdata = file_header,
                   fclosed = False\<rparr>
       else vars s v)"
    using P(1) [of v] e by simp
qed

lemma script_opened:
  assumes "script_config en argv = Some c" and "script en argv s = Inr s'"
    and "vars s = (\<lambda>_. None)"
  shows "vars s' = opened_vars c" and "unhandled_count s' = 0"
proof -
  from assms have b: "script_body en c s = Inr s'" by (simp add: script_def)
  show "vars s' = opened_vars c"
    using script_body_Inr(5) [OF b] assms(3) by (auto simp: opened_vars_def fun_eq_iff)
  show "unhandled_count s' = 0" by (rule script_body_Inr(4) [OF b])
qed

lemma run_Inr:
  assumes "script_config en argv = Some c" and "run en argv cbs s = Inr s'"
  obtains s1 s2 where "script en argv s = Inr s1" and "encode_phase c cbs s1 = Inr s2"
    and "trace_end en c s2 = Inr s'"
  using assms by (auto simp: run_def split: sum.splits)


subsection \<open>The contents of the staging files\<close>

lemma encode_phase_fdata:
  assumes o: "vars s = opened_vars c" and e: "encode_phase c cbs s = Inr s1"
    and v: "v \<in> fst ` set (load_order c)"
  shows "vars s1 v =
      Some \<lparr>fname = output_dir_name c @ ''/'' @ file_name v,
            fdata = wire_header @ concat (map wire_row (rows_for c v (sentinels c @ cbs))),
            fclosed = False\<rparr>"
  using encode_phase_Inr(1) [OF e] o v by (simp add: opened_vars_def file_header_eq)

lemma sealed_fdata:
  assumes o: "vars s = opened_vars c" and e: "encode_phase c cbs s = Inr s1"
    and t: "trace_end en c s1 = Inr s'" and v: "v \<in> fst ` set (load_order c)"
  shows "vars s' v =
      Some \<lparr>fname = output_dir_name c @ ''/'' @ file_name v,
            fdata = wire_file (rows_for c v (sentinels c @ cbs)),
            fclosed = True\<rparr>"
  using trace_end_Inr(4) [OF t, of v] encode_phase_fdata [OF o e v] v
  by (simp add: wire_file_def file_trailer_eq)

lemma segment_of_concat:
  "x \<in> set xs \<Longrightarrow> \<exists>pre post. concat (map f xs) = pre @ f x @ post"
proof (induction xs)
  case Nil
  then show ?case by simp
next
  case (Cons y ys)
  show ?case
  proof (cases "x = y")
    case True
    then show ?thesis by (intro exI [of _ "[]"] exI [of _ "concat (map f ys)"]) simp
  next
    case False
    with Cons obtain pre post where "concat (map f ys) = pre @ f x @ post" by auto
    then show ?thesis by (intro exI [of _ "f y @ pre"] exI [of _ post]) simp
  qed
qed

lemma loaded_bytes:
  assumes o: "vars s = opened_vars c" and e: "encode_phase c cbs s = Inr s1"
    and t: "trace_end en c s1 = Inr s'" and vt: "(v, t) \<in> set (load_order c)"
  shows "\<exists>pre post. effects s' =
      pre @ copy_effects t (wire_file (rows_for c v (sentinels c @ cbs))) @ post"
proof -
  from vt have v: "v \<in> fst ` set (load_order c)" by force
  let ?f = "\<lambda>(v, t). copy_effects t (fdata (the (vars s1 v)) @ file_trailer)"
  from segment_of_concat [OF vt, of ?f] obtain pre post
    where "concat (map ?f (load_order c)) = pre @ ?f (v, t) @ post" by blast
  moreover have "?f (v, t) = copy_effects t (wire_file (rows_for c v (sentinels c @ cbs)))"
    using encode_phase_fdata [OF o e v] by (simp add: wire_file_def file_trailer_eq)
  ultimately have "effects s' =
      (effects s1 @ [Stdout [Today, Str ''Copying to database...'']] @ pre)
      @ copy_effects t (wire_file (rows_for c v (sentinels c @ cbs)))
      @ (post @ drop (1 + length (concat (map ?f (load_order c)))) (trace_end_effects c s1))"
    using trace_end_Inr(1) [OF t] by (simp add: trace_end_effects_def)
  then show ?thesis by blast
qed

section \<open>C1: arity and field count of the sample encoder\<close>

lemma sample_table_Inr_iff:
  "sample_table c xs s = Inr s' \<longleftrightarrow>
     22 \<le> length xs \<and>
     (\<exists>value f. sample_row c xs = Inr value \<and> vars s sample_file = Some f \<and> \<not> fclosed f \<and>
        s' = s\<lparr>vars := (vars s)(sample_file \<mapsto> f\<lparr>fdata := fdata f @ value\<rparr>)\<rparr>)"
  by (auto simp: sample_table_def write_row_Inr_iff)

lemma sample_row_zeros:
  "sample_row c zeros22 = Inr (wire_row (sample_fields c zeros22))"
  by (cases "branches c")
     (simp_all add: sample_row_def sample_fields_def zeros22_def Let_def wire_row_def
        wire_field_def length_be_bytes)

lemma sample_table_zeros:
  "sample_table c zeros22 ex_opened =
     Inr (ex_opened\<lparr>vars := (vars ex_opened)(sample_file \<mapsto>
            (ex_file ''sample_table.bin'')\<lparr>fdata := file_header @
               wire_row (sample_fields c zeros22)\<rparr>)\<rparr>)"
  by (simp add: sample_table_def write_row_def file_write_def sample_row_zeros)
     (simp add: zeros22_def ex_opened_def ex_file_def)

text \<open>
  C1 (as amended). The sample encoder takes 22 positional arguments in both variants: a
  call with fewer than 22 arguments raises TypeError and leaves the state as it was; a
  call that completes had at least 22 arguments, and appended to the sample file one
  record in the wire format with exactly 18 fields under \<open>branches\<close> and exactly 22
  fields otherwise, whatever the call-path flags are.
\<close>

theorem sample_table_arity_and_field_count:
  "(length xs < 22 \<longrightarrow> sample_table c xs s = Inl (TypeError, s)) \<and>
   (sample_table c xs s = Inr s' \<longrightarrow>
      22 \<le> length xs \<and>
      (\<exists>f. vars s sample_file = Some f \<and>
         s' = s\<lparr>vars := (vars s)(sample_file \<mapsto>
                f\<lparr>fdata := fdata f @ wire_row (sample_fields c xs)\<rparr>)\<rparr>) \<and>
      length (sample_fields c xs) = (if branches c then 18 else 22))"
  by (auto simp: sample_table_Inr_iff length_sample_fields dest: sample_row_wire)
     (simp add: sample_table_def)

theorem sample_table_arity_and_field_count_witness:
  "length [PInt 0, PInt 0] < 22 \<and>
   sample_table (ex_cfg True False False) [PInt 0, PInt 0] ex_opened = Inl (TypeError, ex_opened) \<and>
   (\<exists>s'. sample_table (ex_cfg True False False) zeros22 ex_opened = Inr s' \<and>
      22 \<le> length zeros22 \<and>
      s' = ex_opened\<lparr>vars := (vars ex_opened)(sample_file \<mapsto>
             (ex_file ''sample_table.bin'')\<lparr>fdata := file_header @
                wire_row (sample_fields (ex_cfg True False False) zeros22)\<rparr>)\<rparr> \<and>
      length (sample_fields (ex_cfg True False False) zeros22) = 18)"
proof -
  let ?c = "ex_cfg True False False"
  have short: "length [PInt 0, PInt 0] < (22::nat)" by simp
  obtain s' where ok: "sample_table ?c zeros22 ex_opened = Inr s'"
    using sample_table_zeros by blast
  from sample_table_arity_and_field_count [of "[PInt 0, PInt 0]" ?c ex_opened] short
  have a: "sample_table ?c [PInt 0, PInt 0] ex_opened = Inl (TypeError, ex_opened)" by blast
  from sample_table_arity_and_field_count [of zeros22 ?c ex_opened s'] ok
  have b: "22 \<le> length zeros22 \<and>
      (\<exists>f. vars ex_opened sample_file = Some f \<and>
         s' = ex_opened\<lparr>vars := (vars ex_opened)(sample_file \<mapsto>
                f\<lparr>fdata := fdata f @ wire_row (sample_fields ?c zeros22)\<rparr>)\<rparr>) \<and>
      length (sample_fields ?c zeros22) = (if branches ?c then 18 else 22)" by blast
  then have "s' = ex_opened\<lparr>vars := (vars ex_opened)(sample_file \<mapsto>
             (ex_file ''sample_table.bin'')\<lparr>fdata := file_header @
                wire_row (sample_fields ?c zeros22)\<rparr>)\<rparr>"
    by (auto simp: ex_opened_def ex_file_def)
  with a b ok short show ?thesis by (simp add: ex_cfg_def)
qed

text \<open>
  C1 as stated fails: with call chains enabled the \<open>all\<close> variant still encodes 22
  fields, not 23, and under \<open>branches\<close> a call with 22 arguments (not 18) is accepted.
\<close>

theorem sample_table_counterexample:
  "perf_db_export_callchains (ex_cfg False False True) \<and>
   sample_row (ex_cfg False False True) zeros22 =
     Inr (wire_row (sample_fields (ex_cfg False False True) zeros22)) \<and>
   length (sample_fields (ex_cfg False False True) zeros22) = 22 \<and>
   length zeros22 \<noteq> 18 \<and>
   \<not> isl (sample_table (ex_cfg True False False) zeros22 ex_opened)"
proof -
  obtain s' where ok: "sample_table (ex_cfg True False False) zeros22 ex_opened = Inr s'"
    using sample_table_zeros by blast
  then show ?thesis
    by (simp add: sample_row_zeros length_sample_fields) (simp add: ex_cfg_def zeros22_def)
qed

section \<open>C10: the branches samples table lacks the last encoded field\<close>

text \<open>
  C10. Under \<open>branches\<close> every record the sample encoder produces has 18 fields, the
  last being the 22nd parameter \<open>call_path_id\<close>, while the samples table the script
  creates declares 17 columns, none named \<open>call_path_id\<close>: the encoded field set is
  not the declared column set.
\<close>

theorem branches_samples_mismatch:
  "branches c \<Longrightarrow>
     (sample_row c xs = Inr v \<longrightarrow> v = wire_row (sample_fields c xs)) \<and>
     length (sample_fields c xs) = 18 \<and>
     last (sample_fields c xs) = Int64 (ival (xs ! 21)) \<and>
     length (sample_field_names c) = 18 \<and>
     last (sample_field_names c) = ''call_path_id'' \<and>
     CreateTable ''samples'' (samples_columns c) \<in> set (create_tables c) \<and>
     length (samples_columns c) = 17 \<and>
     ''call_path_id'' \<notin> set (map fst (samples_columns c)) \<and>
     set (sample_field_names c) \<noteq> set (map fst (samples_columns c))"
proof -
  assume b: "branches c"
  have 1: "sample_row c xs = Inr v \<longrightarrow> v = wire_row (sample_fields c xs)"
    using sample_row_wire by blast
  have 2: "length (sample_fields c xs) = 18" using b by (simp add: length_sample_fields)
  have 3: "last (sample_fields c xs) = Int64 (ival (xs ! 21))"
    by (simp add: sample_fields_def)
  have 4: "length (sample_field_names c) = 18" "last (sample_field_names c) = ''call_path_id''"
    using b by (simp_all add: sample_field_names_def)
  have 5: "CreateTable ''samples'' (samples_columns c) \<in> set (create_tables c)"
    by (simp add: create_tables_def)
  have 6: "length (samples_columns c) = 17" using b by (simp add: samples_columns_def)
  have 7: "''call_path_id'' \<notin> set (map fst (samples_columns c))"
    using b by (simp add: samples_columns_def)
  have "''call_path_id'' \<in> set (sample_field_names c)"
    by (simp add: sample_field_names_def)
  with 7 have 8: "set (sample_field_names c) \<noteq> set (map fst (samples_columns c))" by blast
  from 1 2 3 4 5 6 7 8 show ?thesis by blast
qed

theorem branches_samples_mismatch_witness:
  "branches (ex_cfg True False False) \<and>
   sample_row (ex_cfg True False False) zeros22 =
     Inr (wire_row (sample_fields (ex_cfg True False False) zeros22)) \<and>
   length (sample_fields (ex_cfg True False False) zeros22) = 18 \<and>
   last (sample_field_names (ex_cfg True False False)) = ''call_path_id'' \<and>
   length (samples_columns (ex_cfg True False False)) = 17 \<and>
   ''call_path_id'' \<notin> set (map fst (samples_columns (ex_cfg True False False)))"
proof -
  have b: "branches (ex_cfg True False False)" by (simp add: ex_cfg_def)
  from branches_samples_mismatch [OF b, of zeros22] sample_row_zeros b
  show ?thesis by blast
qed

subsection \<open>Evaluation at the example inputs\<close>

lemma be_bytes_eq_Nil: "be_bytes k v = [] \<longleftrightarrow> k = 0"
  using length_be_bytes [of k v] by (cases k) auto

lemmas step_defs = py_print_def emit_def parent_dir_def os_mkdir_def os_rmdir_def os_unlink_def do_query_def
  create_database_def open_output_file_def open_files_def file_write_def write_row_def
  copy_output_file_def remove_output_file_def report_unhandled_def

lemmas row_defs = sample_table_def sample_row_def evsel_row_def machine_row_def thread_row_def
  comm_row_def dso_row_def symbol_row_def call_path_row_def bind_def trace_unhandled_def

lemma ex_config: "script_config ex_env ex_argv = Some (ex_cfg False False False)"
  by (simp add: script_config_def script_args_def ex_argv_def ex_env_def ex_cfg_def)

lemma ex_run: "\<exists>s'. run ex_env ex_argv ex_cbs (fresh [''/w'']) = Inr s'"
  by (simp add: run_def script_def script_config_def script_args_def script_body_def
      create_tables_def create_views_def fresh_def ex_argv_def
      encode_phase_def trace_begin_def ex_cbs_def trace_end_def copy_files_def
      remove_files_def add_primary_keys_def add_foreign_keys_def ex_env_def
      step_defs row_defs Let_def
      file_header_eq wire_header_def magic_def file_trailer_def length_be_bytes be_bytes_eq_Nil
      put_copy_loop.simps)

lemma ex_phases:
  obtains s1 s2 s' where "script ex_env ex_argv (fresh [''/w'']) = Inr s1"
    and "vars s1 = opened_vars (ex_cfg False False False)"
    and "encode_phase (ex_cfg False False False) ex_cbs s1 = Inr s2"
    and "trace_end ex_env (ex_cfg False False False) s2 = Inr s'"
    and "run ex_env ex_argv ex_cbs (fresh [''/w'']) = Inr s'"
proof -
  from ex_run obtain s' where r: "run ex_env ex_argv ex_cbs (fresh [''/w'']) = Inr s'" by blast
  from run_Inr [OF ex_config r] obtain s1 s2 where
    1: "script ex_env ex_argv (fresh [''/w'']) = Inr s1" and
    2: "encode_phase (ex_cfg False False False) ex_cbs s1 = Inr s2" and
    3: "trace_end ex_env (ex_cfg False False False) s2 = Inr s'" by blast
  have "vars s1 = opened_vars (ex_cfg False False False)"
    using script_opened(1) [OF ex_config 1] by (simp add: fresh_def)
  with 1 2 3 r show ?thesis using that by blast
qed

section \<open>C9: unhandled events\<close>

text \<open>
  C9. The handler of an event of unrecognized kind adds one to the tally, changes nothing
  else and never raises; and when a run completes in which such events occurred, the tally
  is their number and the run's last two lines of output are the warning with that number
  and \<open>Done\<close>.
\<close>

theorem unhandled_events_tallied:
  "trace_unhandled event_name context event_fields_dict s =
     Inr (s\<lparr>unhandled_count := unhandled_count s + 1\<rparr>) \<and>
   dispatch c (Trace_unhandled n) s = Inr (s\<lparr>unhandled_count := unhandled_count s + 1\<rparr>) \<and>
   (script_config en argv = Some c \<longrightarrow> run en argv cbs s0 = Inr s' \<longrightarrow>
    filter is_unhandled cbs \<noteq> [] \<longrightarrow>
      unhandled_count s' = int (length (filter is_unhandled cbs)) \<and>
      (\<exists>pre. effects s' = pre @
         [Stdout [Today, Str ''Warning: '', Num (int (length (filter is_unhandled cbs))),
            Str '' unhandled events''],
          Stdout [Today, Str ''Done'']]))"
proof (intro conjI impI)
  show "trace_unhandled event_name context event_fields_dict s =
     Inr (s\<lparr>unhandled_count := unhandled_count s + 1\<rparr>)"
    by (simp add: trace_unhandled_def)
  show "dispatch c (Trace_unhandled n) s = Inr (s\<lparr>unhandled_count := unhandled_count s + 1\<rparr>)"
    by (simp add: trace_unhandled_def)
next
  assume cfg: "script_config en argv = Some c" and r: "run en argv cbs s0 = Inr s'"
    and ne: "filter is_unhandled cbs \<noteq> []"
  from run_Inr [OF cfg r] obtain s1 s2 where
    1: "script en argv s0 = Inr s1" and 2: "encode_phase c cbs s1 = Inr s2" and
    3: "trace_end en c s2 = Inr s'" by blast
  from cfg 1 have "script_body en c s0 = Inr s1" by (simp add: script_def)
  then have "unhandled_count s1 = 0" by (rule script_body_Inr(4))
  with encode_phase_Inr(5) [OF 2]
  have n: "unhandled_count s2 = int (length (filter is_unhandled cbs))" by simp
  with trace_end_Inr(3) [OF 3]
  show "unhandled_count s' = int (length (filter is_unhandled cbs))" by simp
  from ne n have "unhandled_count s2 \<noteq> 0" by simp
  with trace_end_Inr(1) [OF 3] n
  have "effects s' = (effects s2 @ butlast (butlast (trace_end_effects c s2))) @
         [Stdout [Today, Str ''Warning: '', Num (int (length (filter is_unhandled cbs))),
            Str '' unhandled events''],
          Stdout [Today, Str ''Done'']]"
    by (simp add: trace_end_effects_def butlast_append)
  then show "\<exists>pre. effects s' = pre @
         [Stdout [Today, Str ''Warning: '', Num (int (length (filter is_unhandled cbs))),
            Str '' unhandled events''],
          Stdout [Today, Str ''Done'']]"
    by blast
qed

theorem unhandled_events_tallied_witness:
  "script_config ex_env ex_argv = Some (ex_cfg False False False) \<and>
   filter is_unhandled ex_cbs \<noteq> [] \<and>
   (\<exists>s'. run ex_env ex_argv ex_cbs (fresh [''/w'']) = Inr s' \<and>
      unhandled_count s' = 1 \<and>
      (\<exists>pre. effects s' = pre @
         [Stdout [Today, Str ''Warning: '', Num 1, Str '' unhandled events''],
          Stdout [Today, Str ''Done'']]))"
proof -
  from ex_run obtain s' where r: "run ex_env ex_argv ex_cbs (fresh [''/w'']) = Inr s'" by blast
  have ne: "filter is_unhandled ex_cbs \<noteq> []" by (simp add: ex_cbs_def)
  have n: "int (length (filter is_unhandled ex_cbs)) = 1" by (simp add: ex_cbs_def)
  note unhandled_events_tallied [where c = "ex_cfg False False False" and en = ex_env
      and argv = ex_argv and cbs = ex_cbs and ?s0.0 = "fresh [''/w'']" and s' = s',
      THEN conjunct2, THEN conjunct2, rule_format, OF ex_config r ne]
  then have "unhandled_count s' = int (length (filter is_unhandled ex_cbs)) \<and>
      (\<exists>pre. effects s' = pre @
         [Stdout [Today, Str ''Warning: '', Num (int (length (filter is_unhandled ex_cbs))),
            Str '' unhandled events''],
          Stdout [Today, Str ''Done'']])" .
  with ex_config ne r show ?thesis unfolding n by blast
qed

section \<open>C3: the format of a staging file\<close>

lemma open_output_file_Inr:
  "open_output_file c v n s = Inr s' \<Longrightarrow>
     vars s' v = Some \<lparr>fname = output_dir_name c @ ''/'' @ n, fdata = file_header,
                        fclosed = False\<rparr>"
  by (auto simp: open_output_file_def Let_def split: if_splits)

lemma script_fdata:
  assumes "script_config en argv = Some c" and "script en argv s0 = Inr s"
    and "v \<in> fst ` set (load_order c)"
  shows "vars s v = Some \<lparr>fname = output_dir_name c @ ''/'' @ file_name v,
                             fdata = wire_header, fclosed = False\<rparr>"
proof -
  from assms(1,2) have b: "script_body en c s0 = Inr s" by (simp add: script_def)
  from script_body_Inr(5) [OF b, of v] assms(3) show ?thesis by (simp add: file_header_eq)
qed

lemma written_fdata:
  assumes "vars s v = Some \<lparr>fname = n, fdata = wire_header, fclosed = False\<rparr>"
    and "encode_phase c cbs s = Inr s1"
  shows "vars s1 v =
      Some \<lparr>fname = n,
            fdata = wire_header @ concat (map wire_row (rows_for c v (sentinels c @ cbs))),
            fclosed = False\<rparr>"
  using encode_phase_Inr(1) [OF assms(2)] assms(1) by simp

lemma loaded_fdata:
  assumes "vars s1 v = Some \<lparr>fname = n, fdata = wire_header @ rows, fclosed = False\<rparr>"
    and "trace_end en c s1 = Inr s'" and "v \<in> fst ` set (load_order c)"
  shows "vars s' v =
      Some \<lparr>fname = n, fdata = wire_header @ rows @ wire_trailer, fclosed = True\<rparr>"
  using trace_end_Inr(4) [OF assms(2), of v] assms(1,3) by (simp add: file_trailer_eq)

text \<open>
  C3. In a run of the script: \<open>open_output_file\<close> leaves in the file it opens the header
  and nothing else; so each staging file holds exactly the header when the module-level
  statements are through; after the encoding phase it holds the header and one record per
  row written to it; and once \<open>trace_end\<close> has sealed it, the header, the records and the
  end marker. The header is 19 bytes (the 11-byte signature and two 32-bit zero words); a
  record is a 16-bit field count and, for each field, a 32-bit length and that many bytes
  (8, 4, 1, or the length of the text); the end marker is 2 bytes.
\<close>

theorem staging_file_format:
  assumes "script_config en argv = Some c" and "script en argv s0 = Inr s"
    and "encode_phase c cbs s = Inr s1" and "trace_end en c s1 = Inr s'"
    and "(v, t) \<in> set (load_order c)"
  shows "(open_output_file c w n sa = Inr sb \<longrightarrow>
       vars sb w = Some \<lparr>fname = output_dir_name c @ ''/'' @ n, fdata = wire_header,
                          fclosed = False\<rparr>) \<and>
    map_option fdata (vars s v) = Some wire_header \<and>
    map_option fdata (vars s1 v) =
      Some (wire_header @ concat (map wire_row (rows_for c v (sentinels c @ cbs)))) \<and>
    map_option fdata (vars s' v) = Some (wire_file (rows_for c v (sentinels c @ cbs))) \<and>
    wire_file rows = (magic @ be_bytes 4 0 @ be_bytes 4 0) @ concat (map wire_row rows)
      @ wire_trailer \<and>
    wire_row fs = be_bytes 2 (int (length fs)) @
      concat (map (\<lambda>f. be_bytes 4 (int (length (field_bytes f))) @ field_bytes f) fs) \<and>
    length magic = 11 \<and> length wire_header = 19 \<and> length wire_trailer = 2 \<and>
    length (be_bytes 2 x) = 2 \<and> length (be_bytes 4 x) = 4 \<and>
    length (field_bytes (Int64 x)) = 8 \<and> length (field_bytes (Int32 x)) = 4 \<and>
    length (field_bytes (Bool8 x)) = 1 \<and> length (field_bytes (Text txt)) = length txt"
proof -
  from assms(5) have v: "v \<in> fst ` set (load_order c)" by force
  note o = script_fdata [OF assms(1,2) v]
  note e = written_fdata [OF o assms(3)]
  note l = loaded_fdata [OF e assms(4) v]
  have h: "open_output_file c w n sa = Inr sb \<longrightarrow>
       vars sb w = Some \<lparr>fname = output_dir_name c @ ''/'' @ n, fdata = wire_header,
                          fclosed = False\<rparr>"
    by (auto dest!: open_output_file_Inr simp: file_header_eq)
  have 0: "map_option fdata (vars s v) = Some wire_header"
    using o by simp
  have 1: "map_option fdata (vars s1 v) =
      Some (wire_header @ concat (map wire_row (rows_for c v (sentinels c @ cbs))))"
    using e by simp
  have 2: "map_option fdata (vars s' v) = Some (wire_file (rows_for c v (sentinels c @ cbs)))"
    using l by (simp add: wire_file_def)
  have 3: "wire_file rows = (magic @ be_bytes 4 0 @ be_bytes 4 0) @ concat (map wire_row rows)
      @ wire_trailer"
    by (simp add: wire_file_def wire_header_def)
  have 4: "wire_row fs = be_bytes 2 (int (length fs)) @
      concat (map (\<lambda>f. be_bytes 4 (int (length (field_bytes f))) @ field_bytes f) fs)"
    by (simp add: wire_row_def wire_field_def [abs_def])
  have 5: "length magic = 11" "length wire_header = 19" "length wire_trailer = 2"
    by (simp_all add: length_wire_header wire_trailer_def)
  have 6: "length (be_bytes 2 x) = 2" "length (be_bytes 4 x) = 4"
    "length (field_bytes (Int64 x)) = 8" "length (field_bytes (Int32 x)) = 4"
    "length (field_bytes (Bool8 x)) = 1" "length (field_bytes (Text txt)) = length txt"
    by (simp_all add: length_be_bytes)
  from h 0 1 2 3 4 5 6 show ?thesis by blast
qed

theorem staging_file_format_witness:
  "script_config ex_env ex_argv = Some (ex_cfg False False False) \<and>
   (comm_file, ''comms'') \<in> set (load_order (ex_cfg False False False)) \<and>
   (\<exists>sb. open_output_file (ex_cfg False False False) comm_file ''comm_table.bin''
           (fresh [''/w/db-perf-data'']) = Inr sb \<and>
         vars sb comm_file = Some \<lparr>fname = ''/w/db-perf-data/comm_table.bin'',
           fdata = wire_header, fclosed = False\<rparr>) \<and>
   (\<exists>s s1 s'. script ex_env ex_argv (fresh [''/w'']) = Inr s \<and>
     encode_phase (ex_cfg False False False) ex_cbs s = Inr s1 \<and>
     trace_end ex_env (ex_cfg False False False) s1 = Inr s' \<and>
     map_option fdata (vars s comm_file) = Some wire_header \<and>
     map_option fdata (vars s' comm_file) =
       Some (wire_file [[Int64 0, Text ''unknown''], [Int64 1, Text ''bash'']]))"
proof -
  let ?c = "ex_cfg False False False"
  from ex_phases obtain s1 s2 s' where o: "script ex_env ex_argv (fresh [''/w'']) = Inr s1"
    and e: "encode_phase ?c ex_cbs s1 = Inr s2" and t: "trace_end ex_env ?c s2 = Inr s'"
    by blast
  have m: "(comm_file, ''comms'') \<in> set (load_order ?c)" by (simp add: load_order_def)
  have r: "rows_for ?c comm_file (sentinels ?c @ ex_cbs) =
      [[Int64 0, Text ''unknown''], [Int64 1, Text ''bash'']]"
    by (simp add: rows_for_def sentinels_def ex_cbs_def ex_cfg_def)
  have "\<exists>sb. open_output_file ?c comm_file ''comm_table.bin''
      (fresh [''/w/db-perf-data'']) = Inr sb"
    by (simp add: open_output_file_def ex_cfg_def fresh_def Let_def)
  then obtain sb where b: "open_output_file ?c comm_file ''comm_table.bin''
      (fresh [''/w/db-perf-data'']) = Inr sb" by blast
  note T = staging_file_format [OF ex_config o e t m, where w = comm_file
      and n = "''comm_table.bin''" and sa = "fresh [''/w/db-perf-data'']" and sb = sb]
  from T b have 1: "vars sb comm_file = Some \<lparr>fname = ''/w/db-perf-data/comm_table.bin'',
           fdata = wire_header, fclosed = False\<rparr>"
    by (simp add: ex_cfg_def)
  from T have 2: "map_option fdata (vars s1 comm_file) = Some wire_header \<and>
    map_option fdata (vars s' comm_file) =
      Some (wire_file (rows_for ?c comm_file (sentinels ?c @ ex_cbs)))" by blast
  from ex_config o e t m r b 1 2 show ?thesis by auto
qed

subsection \<open>The rows trace_begin writes\<close>

lemma sentinel_rows_of:
  "rows_for c evsel_file (sentinels c) = [[Int64 0, Text ''unknown'']]"
  "rows_for c machine_file (sentinels c) = [[Int64 0, Int32 0, Text ''unknown'']]"
  "rows_for c thread_file (sentinels c) =
     [[Int64 0, Int64 0, Int64 0, Int32 (- 1), Int32 (- 1)]]"
  "rows_for c comm_file (sentinels c) = [[Int64 0, Text ''unknown'']]"
  "rows_for c dso_file (sentinels c) =
     [[Int64 0, Int64 0, Text ''unknown'', Text ''unknown'', Text '''']]"
  "rows_for c symbol_file (sentinels c) =
     [[Int64 0, Int64 0, Int64 0, Int64 0, Int32 0, Text ''unknown'']]"
  "rows_for c sample_file (sentinels c) = [sample_fields c zeros22]"
  "rows_for c call_path_file (sentinels c) =
     (if perf_db_export_calls c \<or> perf_db_export_callchains c
      then [[Int64 0, Int64 0, Int64 0, Int64 0]] else [])"
  "rows_for c comm_thread_file (sentinels c) = []"
  "rows_for c branch_type_file (sentinels c) = []"
  "rows_for c call_file (sentinels c) = []"
  by (simp_all add: rows_for_def sentinels_def zeros22_def sample_fields_def)

lemma sample_sentinel_zero:
  "list_all (\<lambda>f. f = Int64 0 \<or> f = Int32 0 \<or> f = Bool8 0) (sample_fields c zeros22)"
  by (simp add: sample_fields_def zeros22_def)

section \<open>C2: the sentinel rows\<close>

text \<open>
  C2 (as amended). From the files as the script opens them, through the encoding phase and
  the load: the bytes loaded into each table are the header, the rows \<open>trace_begin\<close>
  wrote, the rows of the callbacks, and the end marker, in this order. \<open>trace_begin\<close>
  writes exactly one row, with id 0, for selected_events, machines, threads, comms, dsos,
  symbols and samples, and for call_paths when that table is enabled; the text columns of
  these rows are "unknown" (the build id of the dso row is empty), the other columns 0
  (pid and tid of the thread row are -1). It writes no row for comm_threads, branch_types
  and calls.
\<close>

theorem sentinel_rows:
  assumes "vars s = opened_vars c" and "encode_phase c cbs s = Inr s1"
    and "trace_end en c s1 = Inr s'" and "(v, t) \<in> set (load_order c)"
  shows "(\<exists>pre post. effects s' =
        pre @ copy_effects t (wire_file (rows_for c v (sentinels c) @ rows_for c v cbs)) @ post) \<and>
    rows_for c evsel_file (sentinels c) = [[Int64 0, Text ''unknown'']] \<and>
    rows_for c machine_file (sentinels c) = [[Int64 0, Int32 0, Text ''unknown'']] \<and>
    rows_for c thread_file (sentinels c) =
      [[Int64 0, Int64 0, Int64 0, Int32 (- 1), Int32 (- 1)]] \<and>
    rows_for c comm_file (sentinels c) = [[Int64 0, Text ''unknown'']] \<and>
    rows_for c dso_file (sentinels c) =
      [[Int64 0, Int64 0, Text ''unknown'', Text ''unknown'', Text '''']] \<and>
    rows_for c symbol_file (sentinels c) =
      [[Int64 0, Int64 0, Int64 0, Int64 0, Int32 0, Text ''unknown'']] \<and>
    rows_for c sample_file (sentinels c) = [sample_fields c zeros22] \<and>
    list_all (\<lambda>f. f = Int64 0 \<or> f = Int32 0 \<or> f = Bool8 0) (sample_fields c zeros22) \<and>
    rows_for c call_path_file (sentinels c) =
      (if perf_db_export_calls c \<or> perf_db_export_callchains c
       then [[Int64 0, Int64 0, Int64 0, Int64 0]] else []) \<and>
    rows_for c comm_thread_file (sentinels c) = [] \<and>
    rows_for c branch_type_file (sentinels c) = [] \<and>
    rows_for c call_file (sentinels c) = []"
  using loaded_bytes [OF assms] sentinel_rows_of [of c] sample_sentinel_zero [of c]
  by (simp only: rows_for_append)

theorem sentinel_rows_witness:
  "\<exists>s s1 s'. vars s = opened_vars (ex_cfg False False False) \<and>
     encode_phase (ex_cfg False False False) ex_cbs s = Inr s1 \<and>
     trace_end ex_env (ex_cfg False False False) s1 = Inr s' \<and>
     (comm_file, ''comms'') \<in> set (load_order (ex_cfg False False False)) \<and>
     (\<exists>pre post. effects s' =
        pre @ copy_effects ''comms''
                (wire_file ([[Int64 0, Text ''unknown'']] @ [[Int64 1, Text ''bash'']])) @ post)"
proof -
  let ?c = "ex_cfg False False False"
  from ex_phases obtain s1 s2 s' where o: "vars s1 = opened_vars ?c"
    and e: "encode_phase ?c ex_cbs s1 = Inr s2" and t: "trace_end ex_env ?c s2 = Inr s'"
    by blast
  have m: "(comm_file, ''comms'') \<in> set (load_order ?c)" by (simp add: load_order_def)
  have r: "rows_for ?c comm_file ex_cbs = [[Int64 1, Text ''bash'']]"
    by (simp add: rows_for_def ex_cbs_def)
  from sentinel_rows [OF o e t m]
  have "\<exists>pre post. effects s' =
        pre @ copy_effects ''comms''
          (wire_file (rows_for ?c comm_file (sentinels ?c) @ rows_for ?c comm_file ex_cbs)) @ post"
    by blast
  then have "\<exists>pre post. effects s' =
        pre @ copy_effects ''comms''
                (wire_file ([[Int64 0, Text ''unknown'']] @ [[Int64 1, Text ''bash'']])) @ post"
    by (simp only: r sentinel_rows_of)
  with o e t m show ?thesis by blast
qed

text \<open>
  C2 as stated fails for comm_threads and branch_types: in a run whose trace has no row for
  them, their staging files are sealed with no row at all.
\<close>

theorem sentinel_rows_counterexample:
  "(case run ex_env ex_argv ex_cbs (fresh [''/w'']) of
      Inl _ \<Rightarrow> False
    | Inr s' \<Rightarrow>
        map_option fdata (vars s' comm_thread_file) = Some (wire_file []) \<and>
        map_option fdata (vars s' branch_type_file) = Some (wire_file []))"
proof -
  let ?c = "ex_cfg False False False"
  from ex_phases obtain s1 s2 s' where o: "vars s1 = opened_vars ?c"
    and e: "encode_phase ?c ex_cbs s1 = Inr s2" and t: "trace_end ex_env ?c s2 = Inr s'"
    and r: "run ex_env ex_argv ex_cbs (fresh [''/w'']) = Inr s'"
    by blast
  have v: "comm_thread_file \<in> fst ` set (load_order ?c)"
      "branch_type_file \<in> fst ` set (load_order ?c)"
    by (simp_all add: load_order_def)
  have n: "rows_for ?c comm_thread_file (sentinels ?c @ ex_cbs) = []"
      "rows_for ?c branch_type_file (sentinels ?c @ ex_cbs) = []"
    by (simp_all add: rows_for_def sentinels_def ex_cbs_def ex_cfg_def)
  from sealed_fdata [OF o e t v(1)] sealed_fdata [OF o e t v(2)] n r
  show ?thesis by simp
qed

section \<open>C8: the encoding is deterministic\<close>

lemma row_of_branches: "branches c = branches c' \<Longrightarrow> row_of c cb = row_of c' cb"
  by (cases "(c, cb)" rule: row_of.cases) (simp_all add: sample_fields_def)

lemma rows_for_branches: "branches c = branches c' \<Longrightarrow> rows_for c v cbs = rows_for c' v cbs"
  by (simp add: rows_for_def row_of_branches [of c c'])

lemma sentinel_rows_branches:
  assumes "branches c = branches c'" and "v \<in> fst ` set (load_order c)"
    and "v \<in> fst ` set (load_order c')"
  shows "rows_for c v (sentinels c) = rows_for c' v (sentinels c')"
proof (cases "v = call_path_file")
  case True
  with assms(2,3) show ?thesis
    by (auto simp: sentinel_rows_of load_order_def split: if_splits)
next
  case False
  with assms(1) show ?thesis
    by (cases v) (simp_all add: sentinel_rows_of sample_fields_def)
qed

text \<open>
  C8. Two encoding phases over the same callbacks, under configurations with the same
  schema variant, each from the files as the script opens them: every staging file that
  exists in both holds the same bytes in both, whatever else differs (database name,
  directory, the other flags, the rest of the state).
\<close>

theorem encoding_deterministic:
  assumes "vars s = opened_vars c" and "vars s' = opened_vars c'"
    and "branches c = branches c'"
    and "encode_phase c cbs s = Inr s1" and "encode_phase c' cbs s' = Inr s1'"
    and "vars s1 v = Some f" and "vars s1' v = Some f'"
  shows "fdata f = fdata f'"
proof -
  from encode_phase_Inr(1) [OF assms(4)] assms(1,6)
  have v: "v \<in> fst ` set (load_order c)"
    by (auto simp: opened_vars_def split: if_splits)
  from encode_phase_Inr(1) [OF assms(5)] assms(2,7)
  have v': "v \<in> fst ` set (load_order c')"
    by (auto simp: opened_vars_def split: if_splits)
  have "rows_for c v (sentinels c @ cbs) = rows_for c' v (sentinels c' @ cbs)"
    using sentinel_rows_branches [OF assms(3) v v'] rows_for_branches [OF assms(3)]
    by (simp add: rows_for_append)
  with encode_phase_fdata [OF assms(1,4) v] encode_phase_fdata [OF assms(2,5) v'] assms(6,7)
  show ?thesis by simp
qed

lemma vars_ex_opened:
  assumes "output_dir_name c = ''/w/db-perf-data''" and "\<not> perf_db_export_calls c"
    and "\<not> perf_db_export_callchains c"
  shows "vars ex_opened = opened_vars c"
proof
  fix v show "vars ex_opened v = opened_vars c v"
    using assms
    by (cases v) (simp_all add: ex_opened_def opened_vars_def load_order_def ex_file_def)
qed

lemma ex_encode:
  assumes "vars s = vars ex_opened" and "\<not> branches c" and "\<not> perf_db_export_calls c"
    and "\<not> perf_db_export_callchains c"
  shows "\<exists>s1. encode_phase c ex_cbs s = Inr s1"
  using assms
  by (simp add: encode_phase_def trace_begin_def ex_cbs_def ex_opened_def ex_file_def
      py_print_def emit_def file_write_def write_row_def row_defs Let_def)

theorem encoding_deterministic_witness:
  "\<exists>s1 s1' f f'.
     vars ex_opened = opened_vars (ex_cfg False False False) \<and>
     vars (ex_opened\<lparr>effects := [Stdout [Str ''x'']]\<rparr>) =
       opened_vars ((ex_cfg False False False)\<lparr>dbname := ''other''\<rparr>) \<and>
     branches (ex_cfg False False False) =
       branches ((ex_cfg False False False)\<lparr>dbname := ''other''\<rparr>) \<and>
     encode_phase (ex_cfg False False False) ex_cbs ex_opened = Inr s1 \<and>
     encode_phase ((ex_cfg False False False)\<lparr>dbname := ''other''\<rparr>) ex_cbs
       (ex_opened\<lparr>effects := [Stdout [Str ''x'']]\<rparr>) = Inr s1' \<and>
     vars s1 sample_file = Some f \<and> vars s1' sample_file = Some f' \<and> fdata f = fdata f'"
proof -
  let ?c = "ex_cfg False False False"
  let ?c' = "(ex_cfg False False False)\<lparr>dbname := ''other''\<rparr>"
  let ?s' = "ex_opened\<lparr>effects := [Stdout [Str ''x'']]\<rparr>"
  have o: "vars ex_opened = opened_vars ?c"
    by (rule vars_ex_opened) (simp_all add: ex_cfg_def)
  have o': "vars ?s' = opened_vars ?c'"
    using vars_ex_opened [of ?c'] by (simp add: ex_cfg_def)
  have b: "branches ?c = branches ?c'" by simp
  from ex_encode [of ex_opened ?c] obtain s1 where e: "encode_phase ?c ex_cbs ex_opened = Inr s1"
    by (auto simp: ex_cfg_def)
  from ex_encode [of ?s' ?c'] obtain s1' where e': "encode_phase ?c' ex_cbs ?s' = Inr s1'"
    by (auto simp: ex_cfg_def)
  have v: "sample_file \<in> fst ` set (load_order ?c)" "sample_file \<in> fst ` set (load_order ?c')"
    by (simp_all add: load_order_def)
  from encode_phase_fdata [OF o e v(1)] obtain f where f: "vars s1 sample_file = Some f" by blast
  from encode_phase_fdata [OF o' e' v(2)] obtain f' where f': "vars s1' sample_file = Some f'"
    by blast
  from encoding_deterministic [OF o o' b e e' f f'] have "fdata f = fdata f'" .
  with o o' b e e' f f' show ?thesis by blast
qed

subsection \<open>The order of the effects of trace_end\<close>

lemma list_all_is_copy_copy_effects: "list_all is_copy (copy_effects t d)"
  by (simp add: copy_effects_def list_all_iff)

lemma filter_keep_all: "list_all P xs \<Longrightarrow> filter P xs = xs"
  by (induction xs) simp_all

lemma filter_drop_all: "list_all (\<lambda>x. \<not> P x) xs \<Longrightarrow> filter P xs = []"
  by (induction xs) simp_all

lemma list_all_mono': "list_all P xs \<Longrightarrow> (\<And>x. P x \<Longrightarrow> Q x) \<Longrightarrow> list_all Q xs"
  by (induction xs) simp_all

lemma list_all_copies:
  "list_all is_copy (concat (map (\<lambda>(v, t). copy_effects t (g v)) vts))"
  by (induction vts) (auto simp: list_all_is_copy_copy_effects)

lemma list_all_unlinks: "list_all is_unlink (map (\<lambda>(v, t). Unlink (g v)) vts)"
  by (induction vts) auto

lemma list_all_queries: "list_all is_query (map Query qs)"
  by (induction qs) auto

lemma not_copy: "is_unlink e \<Longrightarrow> \<not> is_copy e" "is_query e \<Longrightarrow> \<not> is_copy e"
  by (cases e; simp)+

lemma not_unlink: "is_copy e \<Longrightarrow> \<not> is_unlink e" "is_query e \<Longrightarrow> \<not> is_unlink e"
  by (cases e; simp)+

lemma not_query: "is_copy e \<Longrightarrow> \<not> is_query e" "is_unlink e \<Longrightarrow> \<not> is_query e"
  by (cases e; simp)+

lemma trace_end_copies_then_unlinks:
  "filter (\<lambda>e. is_copy e \<or> is_unlink e) (trace_end_effects c s) =
     concat (map (\<lambda>(v, t). copy_effects t (fdata (the (vars s v)) @ file_trailer)) (load_order c))
     @ map (\<lambda>(v, t). Unlink (fname (the (vars s v)))) (load_order c)"
proof -
  let ?P = "\<lambda>e. is_copy e \<or> is_unlink e"
  have 1: "filter ?P (concat (map (\<lambda>(v, t). copy_effects t (fdata (the (vars s v)) @ file_trailer))
      (load_order c))) =
      concat (map (\<lambda>(v, t). copy_effects t (fdata (the (vars s v)) @ file_trailer)) (load_order c))"
    by (rule filter_keep_all) (rule list_all_mono' [OF list_all_copies], simp)
  have 2: "filter ?P (map (\<lambda>(v, t). Unlink (fname (the (vars s v)))) (load_order c)) =
      map (\<lambda>(v, t). Unlink (fname (the (vars s v)))) (load_order c)"
    by (rule filter_keep_all) (rule list_all_mono' [OF list_all_unlinks], simp)
  have 3: "filter ?P (map Query qs) = []" for qs
    by (rule filter_drop_all) (rule list_all_mono' [OF list_all_queries], auto dest: not_copy not_unlink)
  show ?thesis
    unfolding trace_end_effects_def filter_append 1 2 3 by simp
qed

lemma new_effects:
  "trace_end en c s = Inr s' \<Longrightarrow> drop (length (effects s)) (effects s') = trace_end_effects c s"
  by (simp add: trace_end_Inr(1))

lemma add_primary_keys_eq: "add_primary_keys c = map AddPrimaryKey (created_tables c)"
  by (simp add: add_primary_keys_def created_tables_def create_tables_def)

lemma load_order_tables: "map snd (load_order c) = created_tables c"
  by (simp add: load_order_def created_tables_def create_tables_def)

lemma parents_first_keys:
  "parents_first (map AddPrimaryKey (created_tables c) @ add_foreign_keys c)"
  by (cases "perf_db_export_calls c"; cases "perf_db_export_callchains c")
     (simp_all add: created_tables_def create_tables_def add_foreign_keys_def)

lemma seq_copy_defined:
  "seq (map (\<lambda>(v, t). copy_output_file en c v t) vts) s = Inr s' \<Longrightarrow> distinct (map fst vts) \<Longrightarrow>
     v \<in> fst ` set vts \<Longrightarrow> vars s v \<noteq> None"
proof (induction vts arbitrary: s)
  case Nil
  then show ?case by simp
next
  case (Cons vt vts)
  obtain v0 t0 where vt: "vt = (v0, t0)" by (cases vt)
  from Cons.prems obtain s1 where 1: "copy_output_file en c v0 t0 s = Inr s1"
    and 2: "seq (map (\<lambda>(v, t). copy_output_file en c v t) vts) s1 = Inr s'"
    by (auto simp: vt split: sum.splits)
  from Cons.prems have d: "distinct (map fst vts)" and nv: "v0 \<notin> fst ` set vts"
    by (auto simp: vt)
  from copy_output_file_Inr [OF 1] obtain f where f: "vars s v0 = Some f"
    and s1: "vars s1 = (vars s)(v0 \<mapsto> f\<lparr>fdata := fdata f @ file_trailer\<rparr>)"
    by auto
  show ?case
  proof (cases "v = v0")
    case True
    with f show ?thesis by simp
  next
    case False
    with Cons.prems(3) have "v \<in> fst ` set vts" by (auto simp: vt)
    from Cons.IH [OF 2 d this] False show ?thesis by (simp add: s1)
  qed
qed

lemma trace_end_defined:
  assumes "trace_end en c s = Inr s'" and "v \<in> fst ` set (load_order c)"
  shows "vars s v \<noteq> None"
proof -
  from assms(1) obtain s1 where
    c: "seq (map (\<lambda>(v, t). copy_output_file en c v t) (load_order c))
          (emit (Stdout [Today, Str ''Copying to database...'']) s) = Inr s1"
    by (auto simp: trace_end_def seq_append_Inr_iff seq_Cons_Inr_iff py_print_def copy_files_eq
        simp del: seq.simps)
  from seq_copy_defined [OF c distinct_load_order assms(2)] show ?thesis
    by (simp add: emit_def)
qed

lemma trace_end_closed:
  assumes "trace_end en c s = Inr s'"
  shows "list_all (\<lambda>(v, t). map_option fclosed (vars s' v) = Some True) (load_order c)"
proof -
  have "map_option fclosed (vars s' v) = Some True" if "(v, t) \<in> set (load_order c)" for v t
  proof -
    from that have v: "v \<in> fst ` set (load_order c)" by force
    from trace_end_defined [OF assms v] obtain f where "vars s v = Some f" by auto
    with trace_end_Inr(4) [OF assms, of v] v show ?thesis by simp
  qed
  then show ?thesis by (auto simp: list_all_iff)
qed

subsection \<open>The effects of a completed run\<close>

lemma run_Inr_effects:
  assumes cfg: "script_config en argv = Some c" and r: "run en argv cbs s0 = Inr s'"
  shows "effects s' = effects s0 @ run_effects c cbs"
    and "dirs s' = removeAll (output_dir_name c) (dirs s0)"
proof -
  from run_Inr [OF cfg r] obtain s1 s2 where
    1: "script en argv s0 = Inr s1" and 2: "encode_phase c cbs s1 = Inr s2" and
    3: "trace_end en c s2 = Inr s'" by blast
  from cfg 1 have b: "script_body en c s0 = Inr s1" by (simp add: script_def)
  note B = script_body_Inr [OF b]
  note E = encode_phase_Inr [OF 2]
  note T = trace_end_Inr [OF 3]
  have f: "vars s2 v = Some \<lparr>fname = output_dir_name c @ ''/'' @ file_name v,
        fdata = wire_header @ concat (map wire_row (rows_for c v (sentinels c @ cbs))),
        fclosed = False\<rparr>" if "v \<in> fst ` set (load_order c)" for v
    by (rule written_fdata [OF script_fdata [OF cfg 1 that] 2])
  have cp: "map (\<lambda>(v, t). copy_effects t (fdata (the (vars s2 v)) @ file_trailer)) (load_order c) =
      map (\<lambda>(v, t). copy_effects t (wire_file (rows_for c v (sentinels c @ cbs)))) (load_order c)"
  proof (intro map_cong refl)
    fix x assume x: "x \<in> set (load_order c)"
    obtain v t where vt: "x = (v, t)" by (cases x)
    with x have "v \<in> fst ` set (load_order c)" by force
    from f [OF this] show "(case x of (v, t) \<Rightarrow> copy_effects t (fdata (the (vars s2 v)) @ file_trailer)) =
        (case x of (v, t) \<Rightarrow> copy_effects t (wire_file (rows_for c v (sentinels c @ cbs))))"
      by (simp add: vt wire_file_def file_trailer_eq)
  qed
  have un: "map (\<lambda>(v, t). Unlink (fname (the (vars s2 v)))) (load_order c) =
      map (\<lambda>(v, t). Unlink (output_dir_name c @ ''/'' @ file_name v)) (load_order c)"
  proof (intro map_cong refl)
    fix x assume x: "x \<in> set (load_order c)"
    obtain v t where vt: "x = (v, t)" by (cases x)
    with x have "v \<in> fst ` set (load_order c)" by force
    from f [OF this] show "(case x of (v, t) \<Rightarrow> Unlink (fname (the (vars s2 v)))) =
        (case x of (v, t) \<Rightarrow> Unlink (output_dir_name c @ ''/'' @ file_name v))"
      by (simp add: vt)
  qed
  have uc: "unhandled_count s2 = int (length (filter is_unhandled cbs))"
    using B(4) E(5) by simp
  show "effects s' = effects s0 @ run_effects c cbs"
    unfolding T(1) E(4) B(1) trace_end_effects_def run_effects_def cp un uc by simp
  show "dirs s' = removeAll (output_dir_name c) (dirs s0)"
    using T(2) E(2) B(2,3) by simp
qed

subsection \<open>Key statements\<close>

lemma key_statements_append [simp]:
  "key_statements (xs @ ys) = key_statements xs @ key_statements ys"
  by (simp add: key_statements_def)

lemma key_statements_Cons [simp]:
  "key_statements (x # xs) = key_statement x @ key_statements xs"
  by (simp add: key_statements_def)

lemma key_statements_Nil [simp]: "key_statements [] = []"
  by (simp add: key_statements_def)

lemma key_statements_queries: "key_statements (map Query qs) = filter is_key qs"
  by (induction qs) simp_all

lemma key_statements_none: "list_all (\<lambda>e. \<not> is_key_effect e) es \<Longrightarrow> key_statements es = []"
proof (induction es)
  case Nil
  then show ?case by simp
next
  case (Cons e es)
  then show ?case by (cases e) simp_all
qed

lemma copies_no_key:
  "list_all (\<lambda>e. \<not> is_key_effect e) (concat (map (\<lambda>(v, t). copy_effects t (g v)) vts))"
  by (rule list_all_mono' [OF list_all_copies]) (auto elim: is_copy.elims)

lemma unlinks_no_key: "list_all (\<lambda>e. \<not> is_key_effect e) (map (\<lambda>(v, t). Unlink (g v)) vts)"
  by (rule list_all_mono' [OF list_all_unlinks]) (auto elim: is_unlink.elims)

lemma schema_no_key:
  "filter is_key (create_tables c) = []" "filter is_key (create_views c) = []"
  by (simp_all add: create_tables_def create_views_def)

lemma keys_are_keys:
  "filter is_key (add_primary_keys c) = add_primary_keys c"
  "filter is_key (add_foreign_keys c) = add_foreign_keys c"
  by (simp_all add: add_primary_keys_def add_foreign_keys_def)

lemma key_statements_run:
  "key_statements (run_effects c cbs) = add_primary_keys c @ add_foreign_keys c"
  by (simp add: run_effects_def key_statements_queries schema_no_key keys_are_keys
      key_statements_none [OF copies_no_key] key_statements_none [OF unlinks_no_key])

lemma tables_created_append [simp]:
  "tables_created (xs @ ys) = tables_created xs @ tables_created ys"
  by (simp add: tables_created_def)

lemma tables_created_Cons [simp]:
  "tables_created (x # xs) = table_created x @ tables_created xs"
  by (simp add: tables_created_def)

lemma tables_created_Nil [simp]: "tables_created [] = []"
  by (simp add: tables_created_def)

lemma tables_created_queries:
  "tables_created (map Query qs) = concat (map created_table qs)"
  by (induction qs) simp_all

lemma tables_created_none:
  "list_all (\<lambda>e. \<not> is_query e) es \<Longrightarrow> tables_created es = []"
proof (induction es)
  case Nil
  then show ?case by simp
next
  case (Cons e es)
  then show ?case by (cases e) simp_all
qed

lemma copies_no_query:
  "list_all (\<lambda>e. \<not> is_query e) (concat (map (\<lambda>(v, t). copy_effects t (g v)) vts))"
  by (rule list_all_mono' [OF list_all_copies]) (auto dest: not_query)

lemma unlinks_no_query: "list_all (\<lambda>e. \<not> is_query e) (map (\<lambda>(v, t). Unlink (g v)) vts)"
  by (rule list_all_mono' [OF list_all_unlinks]) (auto dest: not_query)

lemma created_tables_eq: "created_tables c = spec_tables c"
  by (simp add: created_tables_def create_tables_def spec_tables_def)

lemma no_table_created:
  "concat (map created_table (create_views c)) = []"
  "concat (map created_table (add_primary_keys c)) = []"
  "concat (map created_table (add_foreign_keys c)) = []"
  by (cases "perf_db_export_calls c"; cases "perf_db_export_callchains c";
      simp add: create_views_def add_primary_keys_def add_foreign_keys_def)+

lemma tables_created_run: "tables_created (run_effects c cbs) = spec_tables c"
  by (simp add: run_effects_def tables_created_queries
      tables_created_none [OF copies_no_query] tables_created_none [OF unlinks_no_query]
      created_tables_eq [symmetric] created_tables_def no_table_created)

lemma filter_queries: "filter (\<lambda>e. is_copy e \<or> is_key_effect e) (map Query qs) = map Query (filter is_key qs)"
  by (induction qs) simp_all

lemma copies_then_keys:
  "filter (\<lambda>e. is_copy e \<or> is_key_effect e) (run_effects c cbs) =
     concat (map (\<lambda>(v, t). copy_effects t (wire_file (rows_for c v (sentinels c @ cbs))))
       (load_order c))
     @ map Query (add_primary_keys c @ add_foreign_keys c)"
proof -
  let ?P = "\<lambda>e. is_copy e \<or> is_key_effect e"
  have 1: "filter ?P (concat (map (\<lambda>(v, t). copy_effects t (wire_file (rows_for c v (sentinels c @ cbs))))
      (load_order c))) =
      concat (map (\<lambda>(v, t). copy_effects t (wire_file (rows_for c v (sentinels c @ cbs)))) (load_order c))"
    by (rule filter_keep_all) (rule list_all_mono' [OF list_all_copies], simp)
  have 2: "filter ?P (map (\<lambda>(v, t). Unlink (output_dir_name c @ ''/'' @ file_name v)) (load_order c)) = []"
    by (rule filter_drop_all)
       (rule list_all_mono' [OF list_all_unlinks], auto elim: is_unlink.elims)
  show ?thesis
    unfolding run_effects_def filter_append 1 2 filter_queries schema_no_key keys_are_keys
    by simp
qed

lemma copy_begun_run:
  "concat (map copy_begun (run_effects c cbs)) = map CopyFromStdin (spec_tables c)"
proof -
  have q: "concat (map copy_begun (map Query qs)) = []" for qs
    by (induction qs) simp_all
  have u: "concat (map copy_begun (map (\<lambda>(v, t). Unlink (g v)) vts)) = []" for g and vts :: "(file_var \<times> string) list"
    by (induction vts) auto
  have d: "concat (map copy_begun (map CopyData ds)) = []" for ds
    by (induction ds) simp_all
  have c: "concat (map copy_begun (concat (map (\<lambda>(v, t). copy_effects t (g v)) vts))) =
      map (\<lambda>(v, t). CopyFromStdin t) vts" for g and vts :: "(file_var \<times> string) list"
    by (induction vts) (auto simp: copy_effects_def d)
  have "map (\<lambda>(v, t). CopyFromStdin t) (load_order c) = map CopyFromStdin (map snd (load_order c))"
    by (simp add: case_prod_beta)
  then show ?thesis
    by (simp add: run_effects_def q u c load_order_tables created_tables_eq del: map_map)
qed

lemma keys_shape:
  "add_primary_keys c @ add_foreign_keys c =
     map AddPrimaryKey (spec_tables c)
     @ filter is_foreign_keys (add_primary_keys c @ add_foreign_keys c)
     @ (if perf_db_export_calls c
        then [CreateIndex ''pcpid_idx'' ''calls'' ''parent_call_path_id''] else [])"
  by (cases "perf_db_export_calls c"; cases "perf_db_export_callchains c")
     (simp_all add: add_primary_keys_def add_foreign_keys_def spec_tables_def)

lemma keys_references:
  "concat (map references (add_primary_keys c @ add_foreign_keys c)) = spec_references c"
  by (cases "perf_db_export_calls c"; cases "perf_db_export_callchains c")
     (simp_all add: add_primary_keys_def add_foreign_keys_def spec_references_def)

lemma keys_parents_first: "parents_first (add_primary_keys c @ add_foreign_keys c)"
  using parents_first_keys [of c] by (simp only: add_primary_keys_eq)

section \<open>C4: schema finalization\<close>

text \<open>
  C4. In a run that completes, started with nothing done yet, take all bulk transfers and
  all key statements (primary keys, foreign keys, indexes) of the whole run in the order
  they happened. First come the transfers, one complete transfer of the sealed staging
  file into each table the run created, and only then the key statements. These are: a
  primary key for every table the run created; then the foreign-key statements; then,
  exactly when calls are exported, the index on \<open>parent_call_path_id\<close> of \<open>calls\<close>. The
  foreign keys declare exactly the references of the data model, and no key statement of
  a table comes after the foreign keys of a table that refers to it.
\<close>

theorem schema_finalization_order:
  assumes "script_config en argv = Some c" and "run en argv cbs s0 = Inr s'"
    and "effects s0 = []"
  shows "filter (\<lambda>e. is_copy e \<or> is_key_effect e) (effects s') =
      concat (map (\<lambda>(v, t). copy_effects t (wire_file (rows_for c v (sentinels c @ cbs))))
        (load_order c))
      @ map Query (key_statements (effects s')) \<and>
    tables_created (effects s') = spec_tables c \<and>
    concat (map copy_begun (effects s')) = map CopyFromStdin (spec_tables c) \<and>
    key_statements (effects s') =
      map AddPrimaryKey (spec_tables c)
      @ filter is_foreign_keys (key_statements (effects s'))
      @ (if perf_db_export_calls c
         then [CreateIndex ''pcpid_idx'' ''calls'' ''parent_call_path_id''] else []) \<and>
    concat (map references (key_statements (effects s'))) = spec_references c \<and>
    parents_first (key_statements (effects s'))"
proof -
  have e: "effects s' = run_effects c cbs"
    using run_Inr_effects(1) [OF assms(1,2)] assms(3) by simp
  show ?thesis
    unfolding e key_statements_run copies_then_keys tables_created_run copy_begun_run
    using keys_shape [of c] keys_references [of c] keys_parents_first [of c]
    by simp
qed

theorem schema_finalization_order_witness:
  "script_config ex_env ex_argv = Some (ex_cfg False False False) \<and>
   effects (fresh [''/w'']) = [] \<and>
   (\<exists>s'. run ex_env ex_argv ex_cbs (fresh [''/w'']) = Inr s' \<and>
      tables_created (effects s') =
        [''selected_events'', ''machines'', ''threads'', ''comms'', ''comm_threads'', ''dsos'',
         ''symbols'', ''branch_types'', ''samples''] \<and>
      concat (map references (key_statements (effects s'))) =
        [(''threads'', ''machine_id'', ''machines''),
         (''threads'', ''process_id'', ''threads''),
         (''comm_threads'', ''comm_id'', ''comms''),
         (''comm_threads'', ''thread_id'', ''threads''),
         (''dsos'', ''machine_id'', ''machines''),
         (''symbols'', ''dso_id'', ''dsos''),
         (''samples'', ''evsel_id'', ''selected_events''),
         (''samples'', ''machine_id'', ''machines''),
         (''samples'', ''thread_id'', ''threads''),
         (''samples'', ''comm_id'', ''comms''),
         (''samples'', ''dso_id'', ''dsos''),
         (''samples'', ''symbol_id'', ''symbols''),
         (''samples'', ''to_dso_id'', ''dsos''),
         (''samples'', ''to_symbol_id'', ''symbols'')] \<and>
      parents_first (key_statements (effects s')))"
proof -
  let ?c = "ex_cfg False False False"
  from ex_run obtain s' where r: "run ex_env ex_argv ex_cbs (fresh [''/w'']) = Inr s'" by blast
  have z: "effects (fresh [''/w'']) = []" by (simp add: fresh_def)
  have t: "spec_tables ?c =
        [''selected_events'', ''machines'', ''threads'', ''comms'', ''comm_threads'', ''dsos'',
         ''symbols'', ''branch_types'', ''samples'']"
    by (simp add: spec_tables_def ex_cfg_def)
  have f: "spec_references ?c =
        [(''threads'', ''machine_id'', ''machines''),
         (''threads'', ''process_id'', ''threads''),
         (''comm_threads'', ''comm_id'', ''comms''),
         (''comm_threads'', ''thread_id'', ''threads''),
         (''dsos'', ''machine_id'', ''machines''),
         (''symbols'', ''dso_id'', ''dsos''),
         (''samples'', ''evsel_id'', ''selected_events''),
         (''samples'', ''machine_id'', ''machines''),
         (''samples'', ''thread_id'', ''threads''),
         (''samples'', ''comm_id'', ''comms''),
         (''samples'', ''dso_id'', ''dsos''),
         (''samples'', ''symbol_id'', ''symbols''),
         (''samples'', ''to_dso_id'', ''dsos''),
         (''samples'', ''to_symbol_id'', ''symbols'')]"
    by (simp add: spec_references_def ex_cfg_def)
  from schema_finalization_order [OF ex_config r z]
  have "tables_created (effects s') = spec_tables ?c \<and>
    concat (map references (key_statements (effects s'))) = spec_references ?c \<and>
    parents_first (key_statements (effects s'))" by blast
  with ex_config z r show ?thesis unfolding t f by blast
qed

section \<open>C5: staging files are removed after the whole load\<close>

text \<open>
  C5 (as amended). In a \<open>trace_end\<close> that completes, the bulk transfers of all tables
  come first, one table after the other in the fixed load order, and only then are the
  staging files deleted, in the same order; each file is then closed. So every staging
  file exists until the last table has been loaded.
\<close>

theorem staging_files_removed_after_load:
  assumes "trace_end en c s = Inr s'"
  shows "filter (\<lambda>e. is_copy e \<or> is_unlink e) (drop (length (effects s)) (effects s')) =
      concat (map (\<lambda>(v, t). copy_effects t (fdata (the (vars s v)) @ file_trailer))
        (load_order c))
      @ map (\<lambda>(v, t). Unlink (fname (the (vars s v)))) (load_order c) \<and>
    list_all (\<lambda>(v, t). map_option fclosed (vars s' v) = Some True) (load_order c)"
  using trace_end_copies_then_unlinks [of c s] trace_end_closed [OF assms]
  by (simp only: new_effects [OF assms])

theorem staging_files_removed_after_load_witness:
  "\<exists>s s'. trace_end ex_env (ex_cfg False False False) s = Inr s' \<and>
     filter (\<lambda>e. is_copy e \<or> is_unlink e) (drop (length (effects s)) (effects s')) =
       concat (map (\<lambda>(v, t). copy_effects t (fdata (the (vars s v)) @ file_trailer))
         (load_order (ex_cfg False False False)))
       @ map (\<lambda>(v, t). Unlink (fname (the (vars s v)))) (load_order (ex_cfg False False False))"
proof -
  from ex_phases obtain s2 s' where t: "trace_end ex_env (ex_cfg False False False) s2 = Inr s'"
    by blast
  with staging_files_removed_after_load [OF t] show ?thesis by blast
qed

text \<open>
  C5 as stated fails: in the example run the transfer into \<open>machines\<close>, the second
  table, begins before the staging file of the first table is deleted.
\<close>

theorem staging_files_removed_after_load_counterexample:
  "(case run ex_env ex_argv ex_cbs (fresh [''/w'']) of
      Inl _ \<Rightarrow> False
    | Inr s' \<Rightarrow>
        filter (\<lambda>e. e = CopyBegin (CopyFromStdin ''machines'') \<or>
                     e = Unlink ''/w/db-perf-data/evsel_table.bin'') (effects s') =
          [CopyBegin (CopyFromStdin ''machines''), Unlink ''/w/db-perf-data/evsel_table.bin''])"
proof -
  let ?c = "ex_cfg False False False"
  let ?P = "\<lambda>e. e = CopyBegin (CopyFromStdin ''machines'') \<or>
                     e = Unlink ''/w/db-perf-data/evsel_table.bin''"
  from ex_phases obtain s1 s2 s' where s: "script ex_env ex_argv (fresh [''/w'']) = Inr s1"
    and o: "vars s1 = opened_vars ?c"
    and e: "encode_phase ?c ex_cbs s1 = Inr s2" and t: "trace_end ex_env ?c s2 = Inr s'"
    and r: "run ex_env ex_argv ex_cbs (fresh [''/w'']) = Inr s'"
    by blast
  from s have b: "script_body ex_env ?c (fresh [''/w'']) = Inr s1"
    by (simp add: script_def ex_config)
  have 1: "filter ?P (effects s1) = []"
    unfolding script_body_Inr(1) [OF b]
    by (simp add: fresh_def filter_map o_def)
  have 2: "filter ?P (effects s2) = []"
    unfolding encode_phase_Inr(4) [OF e] using 1 by simp
  have n: "fname (the (vars s2 v)) = ''/w/db-perf-data/'' @ file_name v"
    if "v \<in> fst ` set (load_order ?c)" for v
    using encode_phase_fdata [OF o e that] by (simp add: ex_cfg_def)
  have 3: "filter ?P (trace_end_effects ?c s2) =
      [CopyBegin (CopyFromStdin ''machines''), Unlink ''/w/db-perf-data/evsel_table.bin'']"
    by (simp add: trace_end_effects_def load_order_def copy_effects_def n filter_map o_def
        add_primary_keys_def add_foreign_keys_def ex_cfg_def)
  show ?thesis
    using 2 3 by (simp add: r trace_end_Inr(1) [OF t])
qed

section \<open>Statements that leave the directories alone\<close>

lemma quiet_iff:
  "quiet P s s' \<longleftrightarrow>
     dirs s' = dirs s \<and> (\<exists>l. effects s' = effects s @ l \<and> list_all P l)"
proof
  assume q: "quiet P s s'"
  then have "effects s' = effects s @ drop (length (effects s)) (effects s')"
    by (metis append_take_drop_id quiet_def)
  with q show "dirs s' = dirs s \<and> (\<exists>l. effects s' = effects s @ l \<and> list_all P l)"
    unfolding quiet_def by blast
next
  assume "dirs s' = dirs s \<and> (\<exists>l. effects s' = effects s @ l \<and> list_all P l)"
  then show "quiet P s s'" by (auto simp: quiet_def)
qed

lemma quiet_refl: "quiet P s s"
  by (simp add: quiet_def)

lemma quiet_trans: "quiet P s s1 \<Longrightarrow> quiet P s1 s2 \<Longrightarrow> quiet P s s2"
  unfolding quiet_iff by auto

lemma quiet_emit: "P e \<Longrightarrow> quiet P s (emit e s)"
  by (simp add: quiet_def emit_def)

lemma seq_quiet:
  assumes "\<And>f s. f \<in> set fs \<Longrightarrow> quiet P s (final (f s))"
  shows "quiet P s (final (seq fs s))"
  using assms
proof (induction fs arbitrary: s)
  case Nil
  then show ?case by (simp add: quiet_refl)
next
  case (Cons f fs)
  have q: "quiet P s (final (f s))" by (rule Cons.prems) simp
  show ?case
  proof (cases "f s")
    case (Inl e)
    with q show ?thesis by simp
  next
    case (Inr s1)
    with q have "quiet P s s1" by simp
    moreover have "quiet P s1 (final (seq fs s1))" by (rule Cons.IH) (simp add: Cons.prems)
    ultimately show ?thesis using Inr by (simp add: quiet_trans)
  qed
qed

lemma py_print_quiet: "P (Stdout xs) \<Longrightarrow> quiet P s (final (py_print xs s))"
  by (simp add: py_print_def quiet_emit)

lemma do_query_quiet: "P (Query q) \<Longrightarrow> quiet P s (final (do_query en q s))"
  by (simp add: do_query_def quiet_emit quiet_refl)

lemma write_row_quiet: "quiet P s (final (write_row v r s))"
  by (auto simp: write_row_def file_write_def quiet_def split: sum.splits option.splits)

lemma dispatch_quiet: "quiet P s (final (dispatch c cb s))"
proof (cases cb)
  case (Evsel_table xs)
  then show ?thesis
    by (cases "(xs, s)" rule: evsel_table.cases) (simp_all add: write_row_quiet quiet_refl)
next
  case (Machine_table xs)
  then show ?thesis
    by (cases "(xs, s)" rule: machine_table.cases) (simp_all add: write_row_quiet quiet_refl)
next
  case (Thread_table xs)
  then show ?thesis
    by (cases "(xs, s)" rule: thread_table.cases) (simp_all add: write_row_quiet quiet_refl)
next
  case (Comm_table xs)
  then show ?thesis
    by (cases "(xs, s)" rule: comm_table.cases) (simp_all add: write_row_quiet quiet_refl)
next
  case (Comm_thread_table xs)
  then show ?thesis
    by (cases "(xs, s)" rule: comm_thread_table.cases) (simp_all add: write_row_quiet quiet_refl)
next
  case (Dso_table xs)
  then show ?thesis
    by (cases "(xs, s)" rule: dso_table.cases) (simp_all add: write_row_quiet quiet_refl)
next
  case (Symbol_table xs)
  then show ?thesis
    by (cases "(xs, s)" rule: symbol_table.cases) (simp_all add: write_row_quiet quiet_refl)
next
  case (Branch_type_table xs)
  then show ?thesis
    by (cases "(xs, s)" rule: branch_type_table.cases) (simp_all add: write_row_quiet quiet_refl)
next
  case (Sample_table xs)
  then show ?thesis by (simp add: sample_table_def write_row_quiet quiet_refl)
next
  case (Call_path_table xs)
  then show ?thesis
    by (cases "(xs, s)" rule: call_path_table.cases) (simp_all add: write_row_quiet quiet_refl)
next
  case (Call_return_table xs)
  then show ?thesis by (simp add: call_return_table_def write_row_quiet quiet_refl)
next
  case (Trace_unhandled n)
  then show ?thesis by (simp add: trace_unhandled_def quiet_def)
next
  case (Sched__sched_switch xs)
  then show ?thesis by (simp add: sched__sched_switch_def quiet_refl)
qed

lemma encode_phase_quiet:
  assumes "\<And>xs. P (Stdout xs)"
  shows "quiet P s (final (encode_phase c cbs s))"
  unfolding encode_phase_def trace_begin_steps
  by (rule seq_quiet) (auto simp: py_print_quiet assms dispatch_quiet intro!: seq_quiet)

lemma open_output_file_quiet: "quiet P s (final (open_output_file c v n s))"
  by (simp add: open_output_file_def Let_def quiet_def)

lemma open_files_quiet: "quiet P s (final (open_files c s))"
  unfolding open_files_eq
  by (rule seq_quiet) (auto simp: open_output_file_quiet)

lemma copy_output_file_quiet:
  assumes P: "\<And>e. is_copy e \<Longrightarrow> P e"
  shows "quiet P s (final (copy_output_file en c v t s))"
proof (cases "vars s v")
  case None
  then show ?thesis by (simp add: copy_output_file_def quiet_refl)
next
  case (Some fl)
  show ?thesis
  proof (cases "pq_status en (effects s) (''dbname = '' @ dbname c) \<noteq> 0 \<or> fclosed fl")
    case True
    with Some show ?thesis by (auto simp: copy_output_file_def file_write_def quiet_refl)
  next
    case False
    define s1 where "s1 = s\<lparr>vars := (vars s)(v \<mapsto> fl\<lparr>fdata := fdata fl @ file_trailer\<rparr>)\<rparr>"
    have q1: "quiet P s s1" by (simp add: s1_def quiet_def)
    show ?thesis
    proof (cases "pq_result_status en (effects s1) (CopyFromStdin t) \<noteq> 4")
      case True
      with Some False q1 show ?thesis
        by (simp add: copy_output_file_def file_write_def s1_def Let_def)
    next
      case ok: False
      define s2 where "s2 = emit (CopyBegin (CopyFromStdin t)) s1"
      have q2: "quiet P s s2"
        unfolding s2_def by (rule quiet_trans [OF q1]) (simp add: quiet_emit P)
      from put_copy_loop_final [of en "fdata fl @ file_trailer" s2]
      obtain l where l: "list_all is_copy l"
        "final (put_copy_loop en (fdata fl @ file_trailer) s2) = s2\<lparr>effects := effects s2 @ l\<rparr>"
        by blast
      have nd: "list_all P l"
        by (rule list_all_mono' [OF l(1)]) (rule P)
      have q3: "quiet P s (final (put_copy_loop en (fdata fl @ file_trailer) s2))"
        using q2 nd unfolding l(2) quiet_iff by auto
      have eq: "copy_output_file en c v t s =
          (case put_copy_loop en (fdata fl @ file_trailer) s2 of
             Inl e \<Rightarrow> Inl e
           | Inr s3 \<Rightarrow>
               if pq_put_copy_end en (effects s3) \<noteq> 1
               then Inl (Exception [Str ''COPY FROM STDIN PQputCopyEnd failed, error '',
                     Num (pq_put_copy_end en (effects s3))], s3)
               else Inr (emit CopyEnd s3))"
        using Some False ok
        by (simp add: copy_output_file_def file_write_def s1_def s2_def Let_def
            cong: sum.case_cong)
      show ?thesis
      proof (cases "put_copy_loop en (fdata fl @ file_trailer) s2")
        case (Inl e)
        with q3 show ?thesis by (cases e) (simp add: eq)
      next
        case (Inr s3)
        with q3 have "quiet P s s3" by simp
        moreover have "quiet P s3 (emit CopyEnd s3)" by (simp add: quiet_emit P)
        ultimately show ?thesis using Inr by (auto simp: eq intro: quiet_trans)
      qed
    qed
  qed
qed

lemma remove_output_file_quiet:
  "(\<And>p. P (Unlink p)) \<Longrightarrow> quiet P s (final (remove_output_file v s))"
  by (auto simp: remove_output_file_def os_unlink_def quiet_def emit_def split: option.splits)

lemma report_unhandled_quiet:
  "(\<And>xs. P (Stdout xs)) \<Longrightarrow> quiet P s (final (report_unhandled s))"
  by (simp add: report_unhandled_def py_print_quiet quiet_refl)

lemma reset_quiet: "quiet P s (s\<lparr>unhandled_count := 0\<rparr>)"
  by (simp add: quiet_def)

section \<open>The working directory\<close>

lemma standing_simps:
  "standing (Stdout xs)" "standing (Unlink p)" "is_copy e \<Longrightarrow> standing e"
  "standing (Query q) \<longleftrightarrow> \<not> is_key q"
  by (cases e; simp add: standing_def)+

lemma finishing_simps:
  "finishing (Stdout xs)" "finishing (Query q)"
  by (simp_all add: finishing_def)

lemma standing_kept:
  assumes "quiet standing s s'" and "dir_kept d db s"
  shows "dir_kept d db s'"
proof -
  from assms(1) obtain l where d: "dirs s' = dirs s" and e: "effects s' = effects s @ l"
    and l: "list_all standing l" unfolding quiet_iff by blast
  from l have "Rmdir d \<notin> set l" "list_all (\<lambda>e. \<not> is_key_effect e) l"
    by (induction l) (auto simp: standing_def)
  with assms(2) d e show ?thesis by (auto simp: dir_kept_def)
qed

lemma finishing_gone:
  assumes "quiet finishing s s'" and "dir_gone d s"
  shows "dir_gone d s'"
proof -
  from assms(1) obtain l where d: "dirs s' = dirs s" and e: "effects s' = effects s @ l"
    and l: "list_all finishing l" unfolding quiet_iff by blast
  from l have nl: "list_all (\<lambda>e. \<not> is_copy e \<and> \<not> is_unlink e) l"
    by (induction l) (auto simp: finishing_def)
  from assms(2) have r: "Rmdir d \<in> set (effects s)" by (simp add: dir_gone_def)
  have t: "takeWhile (\<lambda>e. e \<noteq> Rmdir d) (effects s @ l) = takeWhile (\<lambda>e. e \<noteq> Rmdir d) (effects s)"
    by (rule takeWhile_append1 [OF r]) simp
  have w: "dropWhile (\<lambda>e. e \<noteq> Rmdir d) (effects s @ l) =
      dropWhile (\<lambda>e. e \<noteq> Rmdir d) (effects s) @ l"
    by (rule dropWhile_append1 [OF r]) simp
  from assms(2) d nl show ?thesis by (auto simp: dir_gone_def e t w)
qed

lemma removed_gone:
  assumes "dir_kept d db s"
  shows "dir_gone d (emit (Rmdir d) (s\<lparr>dirs := removeAll d (dirs s)\<rparr>))"
proof -
  from assms have n: "\<And>x. x \<in> set (effects s) \<Longrightarrow> x \<noteq> Rmdir d" by (auto simp: dir_kept_def)
  have t: "takeWhile (\<lambda>e. e \<noteq> Rmdir d) (effects s @ [Rmdir d]) = effects s"
    using n by (simp add: takeWhile_append2)
  have w: "dropWhile (\<lambda>e. e \<noteq> Rmdir d) (effects s @ [Rmdir d]) = [Rmdir d]"
    using n by (simp add: dropWhile_append2)
  from assms show ?thesis by (simp add: dir_gone_def dir_kept_def emit_def t w)
qed

lemma seq_append_Cons:
  "seq (fs @ (g # gs)) s =
     (case seq fs s of
        Inl e \<Rightarrow> Inl e
      | Inr s1 \<Rightarrow> (case g s1 of Inl e \<Rightarrow> Inl e | Inr s2 \<Rightarrow> seq gs s2))"
  by (simp add: seq_append split: sum.splits)

lemma script_body_split:
  "script_body en c =
     seq ([os_mkdir en (output_dir_name c), py_print [Today, Str ''Creating database...'']]
          @ (create_database en c
             # (do_query en SetClientMinMessages # map (do_query en) (create_tables c)
                @ map (do_query en) (create_views c)
                @ [open_files c, (\<lambda>s. Inr (s\<lparr>unhandled_count := 0\<rparr>))])))"
  by (simp add: script_body_def del: seq.simps)

lemma script_body_cases:
  "script_body en c s =
     (case seq [os_mkdir en (output_dir_name c), py_print [Today, Str ''Creating database...'']] s of
        Inl e \<Rightarrow> Inl e
      | Inr s1 \<Rightarrow>
          (case create_database en c s1 of
             Inl e \<Rightarrow> Inl e
           | Inr s2 \<Rightarrow>
               seq (do_query en SetClientMinMessages # map (do_query en) (create_tables c)
                @ map (do_query en) (create_views c)
                @ [open_files c, (\<lambda>s. Inr (s\<lparr>unhandled_count := 0\<rparr>))]) s2))"
  unfolding script_body_split by (rule seq_append_Cons)

lemma schema_not_key:
  "q \<in> set (create_tables c) \<Longrightarrow> \<not> is_key q" "q \<in> set (create_views c) \<Longrightarrow> \<not> is_key q"
  using schema_no_key [of c] by (auto simp: filter_empty_conv)

lemma script_rest_quiet:
  assumes "f \<in> set (do_query en SetClientMinMessages # map (do_query en) (create_tables c)
             @ map (do_query en) (create_views c)
             @ [open_files c, (\<lambda>s. Inr (s\<lparr>unhandled_count := 0\<rparr>))])"
  shows "quiet standing s (final (f s))"
  using assms
  by (auto simp: open_files_quiet reset_quiet standing_simps schema_not_key
      intro!: do_query_quiet)

lemma script_body_mkdir_fails:
  assumes "output_dir_name c \<in> set (dirs s) \<or> output_dir_name c \<in> set (paths s) \<or>
      parent_dir (output_dir_name c) \<notin> set (dirs s) \<or>
      \<not> writable en (parent_dir (output_dir_name c))"
  shows "script_body en c s = Inl (OSError, s)"
  using assms by (auto simp: script_body_cases os_mkdir_def)

lemma script_body_dir:
  assumes mk: "\<not> (output_dir_name c \<in> set (dirs s) \<or> output_dir_name c \<in> set (paths s) \<or>
      parent_dir (output_dir_name c) \<notin> set (dirs s) \<or>
      \<not> writable en (parent_dir (output_dir_name c)))"
    and z: "effects s = []"
    and fs: "list_all (\<lambda>p. \<not> prefix (output_dir_name c @ ''/'') p) (paths s)"
  shows "(case script_body en c s of
      Inr s1 \<Rightarrow> dir_kept (output_dir_name c) (dbname c) s1
    | Inl (e, s1) \<Rightarrow> dir_kept (output_dir_name c) (dbname c) s1 \<or> dir_gone (output_dir_name c) s1)"
proof -
  let ?d = "output_dir_name c"
  let ?rest = "do_query en SetClientMinMessages # map (do_query en) (create_tables c)
             @ map (do_query en) (create_views c)
             @ [open_files c, (\<lambda>s. Inr (s\<lparr>unhandled_count := 0\<rparr>))]"
  define sB where "sB = emit (Stdout [Today, Str ''Creating database...''])
      (emit (Mkdir ?d) (s\<lparr>dirs := ?d # dirs s\<rparr>))"
  have pre: "seq [os_mkdir en ?d, py_print [Today, Str ''Creating database...'']] s = Inr sB"
    using mk by (simp add: os_mkdir_def py_print_def sB_def)
  have eB: "effects sB = [Mkdir ?d, Stdout [Today, Str ''Creating database...'']]"
    and dB: "dirs sB = ?d # dirs s" and pB: "paths sB = paths s"
    by (simp_all add: sB_def emit_def z)
  show ?thesis
  proof (cases "exec_ok en (effects sB) (CreateDatabase (dbname c))")
    case False
    define sG where "sG = emit (Rmdir ?d) (sB\<lparr>dirs := removeAll ?d (dirs sB)\<rparr>)"
    have "create_database en c sB =
        Inl (Exception [Str ''Query failed: '', Str (last_error en (effects sB)
               (CreateDatabase (dbname c)))], sG)"
      using False fs by (simp add: create_database_def do_query_def os_rmdir_def dB pB sG_def)
    then have "script_body en c s =
        Inl (Exception [Str ''Query failed: '', Str (last_error en (effects sB)
               (CreateDatabase (dbname c)))], sG)"
      by (simp only: script_body_cases pre sum.case)
    moreover have "dir_gone ?d sG"
      by (simp add: dir_gone_def sG_def emit_def eB dB)
    ultimately show ?thesis by simp
  next
    case True
    define sC where "sC = emit (Query (CreateDatabase (dbname c))) sB"
    have "create_database en c sB = Inr sC"
      using True by (simp add: create_database_def do_query_def sC_def)
    then have eq: "script_body en c s = seq ?rest sC"
      by (simp only: script_body_cases pre sum.case)
    have k: "dir_kept ?d (dbname c) sC"
      by (simp add: dir_kept_def sC_def emit_def eB dB)
    have "quiet standing sC (final (seq ?rest sC))"
      by (rule seq_quiet) (rule script_rest_quiet)
    from standing_kept [OF this k] show ?thesis
      unfolding eq by (cases "seq ?rest sC") auto
  qed
qed

lemma trace_end_split:
  "trace_end en c =
     seq (([py_print [Today, Str ''Copying to database...'']] @ copy_files en c
           @ [py_print [Today, Str ''Removing intermediate files...'']] @ remove_files c)
          @ (os_rmdir (output_dir_name c)
             # (py_print [Today, Str ''Adding primary keys'']
                # map (do_query en) (add_primary_keys c)
                @ [py_print [Today, Str ''Adding foreign keys'']]
                @ map (do_query en) (add_foreign_keys c)
                @ [report_unhandled, py_print [Today, Str ''Done'']])))"
  by (simp add: trace_end_def del: seq.simps)

lemma trace_end_cases:
  "trace_end en c s =
     (case seq ([py_print [Today, Str ''Copying to database...'']] @ copy_files en c
           @ [py_print [Today, Str ''Removing intermediate files...'']] @ remove_files c) s of
        Inl e \<Rightarrow> Inl e
      | Inr s1 \<Rightarrow>
          (case os_rmdir (output_dir_name c) s1 of
             Inl e \<Rightarrow> Inl e
           | Inr s2 \<Rightarrow>
               seq (py_print [Today, Str ''Adding primary keys'']
                # map (do_query en) (add_primary_keys c)
                @ [py_print [Today, Str ''Adding foreign keys'']]
                @ map (do_query en) (add_foreign_keys c)
                @ [report_unhandled, py_print [Today, Str ''Done'']]) s2))"
  unfolding trace_end_split by (rule seq_append_Cons)

lemma trace_end_pre_quiet:
  assumes "f \<in> set ([py_print [Today, Str ''Copying to database...'']] @ copy_files en c
           @ [py_print [Today, Str ''Removing intermediate files...'']] @ remove_files c)"
  shows "quiet standing s (final (f s))"
  using assms
  by (auto simp: copy_files_eq remove_files_eq standing_simps
      intro!: py_print_quiet copy_output_file_quiet remove_output_file_quiet)

lemma trace_end_post_quiet:
  assumes "f \<in> set (py_print [Today, Str ''Adding primary keys'']
             # map (do_query en) (add_primary_keys c)
             @ [py_print [Today, Str ''Adding foreign keys'']]
             @ map (do_query en) (add_foreign_keys c)
             @ [report_unhandled, py_print [Today, Str ''Done'']])"
  shows "quiet finishing s (final (f s))"
  using assms
  by (auto simp: finishing_simps intro!: py_print_quiet do_query_quiet report_unhandled_quiet)

lemma trace_end_dir:
  assumes "dir_kept (output_dir_name c) db s"
  shows "(case trace_end en c s of
      Inr s' \<Rightarrow> dir_gone (output_dir_name c) s'
    | Inl (e, s') \<Rightarrow> dir_kept (output_dir_name c) db s' \<or> dir_gone (output_dir_name c) s')"
proof -
  let ?d = "output_dir_name c"
  let ?pre = "[py_print [Today, Str ''Copying to database...'']] @ copy_files en c
           @ [py_print [Today, Str ''Removing intermediate files...'']] @ remove_files c"
  let ?post = "py_print [Today, Str ''Adding primary keys'']
             # map (do_query en) (add_primary_keys c)
             @ [py_print [Today, Str ''Adding foreign keys'']]
             @ map (do_query en) (add_foreign_keys c)
             @ [report_unhandled, py_print [Today, Str ''Done'']]"
  have q: "quiet standing s (final (seq ?pre s))"
    by (rule seq_quiet) (rule trace_end_pre_quiet)
  show ?thesis
  proof (cases "seq ?pre s")
    case (Inl e)
    with standing_kept [OF q assms] show ?thesis
      by (cases e) (simp add: trace_end_cases del: seq.simps)
  next
    case (Inr s1)
    with standing_kept [OF q assms] have k: "dir_kept ?d db s1" by simp
    show ?thesis
    proof (cases "os_rmdir ?d s1")
      case (Inl e)
      then have "e = (OSError, s1)" by (auto simp: os_rmdir_def split: if_splits)
      with Inl Inr k show ?thesis by (simp add: trace_end_cases del: seq.simps)
    next
      case r: (Inr s2)
      then have "s2 = emit (Rmdir ?d) (s1\<lparr>dirs := removeAll ?d (dirs s1)\<rparr>)"
        by (auto simp: os_rmdir_def split: if_splits)
      with removed_gone [OF k] have g: "dir_gone ?d s2" by simp
      have "quiet finishing s2 (final (seq ?post s2))"
        by (rule seq_quiet) (rule trace_end_post_quiet)
      from finishing_gone [OF this g] Inr r show ?thesis
        by (cases "seq ?post s2") (auto simp: trace_end_cases simp del: seq.simps)
    qed
  qed
qed

lemma filter_dir_queries:
  "filter (\<lambda>e. is_dir_effect e \<or> is_copy e \<or> is_unlink e \<or> is_key_effect e) (map Query qs) =
     map Query (filter is_key qs)"
  by (induction qs) simp_all

lemma run_directory_order:
  "filter (\<lambda>e. is_dir_effect e \<or> is_copy e \<or> is_unlink e \<or> is_key_effect e)
       (run_effects c cbs) =
     [Mkdir (output_dir_name c)]
     @ concat (map (\<lambda>(v, t). copy_effects t (wire_file (rows_for c v (sentinels c @ cbs))))
         (load_order c))
     @ map (\<lambda>(v, t). Unlink (output_dir_name c @ ''/'' @ file_name v)) (load_order c)
     @ [Rmdir (output_dir_name c)]
     @ map Query (add_primary_keys c @ add_foreign_keys c)"
proof -
  let ?P = "\<lambda>e. is_dir_effect e \<or> is_copy e \<or> is_unlink e \<or> is_key_effect e"
  have 1: "filter ?P (concat (map (\<lambda>(v, t). copy_effects t (wire_file (rows_for c v (sentinels c @ cbs))))
      (load_order c))) =
      concat (map (\<lambda>(v, t). copy_effects t (wire_file (rows_for c v (sentinels c @ cbs)))) (load_order c))"
    by (rule filter_keep_all) (rule list_all_mono' [OF list_all_copies], simp)
  have 2: "filter ?P (map (\<lambda>(v, t). Unlink (output_dir_name c @ ''/'' @ file_name v)) (load_order c)) =
      map (\<lambda>(v, t). Unlink (output_dir_name c @ ''/'' @ file_name v)) (load_order c)"
    by (rule filter_keep_all) (rule list_all_mono' [OF list_all_unlinks], simp)
  show ?thesis
    unfolding run_effects_def filter_append 1 2 filter_dir_queries schema_no_key keys_are_keys
    by simp
qed

section \<open>C7: the working directory\<close>

text \<open>
  C7 (as amended). Take a run with accepted arguments, started with nothing done yet, in a
  file system that holds no file inside a directory that does not exist. If the working
  directory exists already, or the directory it is to be created in does not exist or is
  not writable, the run fails at \<open>os.mkdir\<close> with OSError and has done nothing. Otherwise
  the directory is created, and:

  \<^item> in a run that completes, the directory is gone, and of all that the run did to
    directories, tables, staging files and keys the order is: the directory is created;
    every table is loaded; every staging file is deleted; the directory is removed; the
    keys are added, and there are keys;

  \<^item> a run that fails has either left the directory behind, and then CREATE DATABASE had
    succeeded, the directory was not removed and no key was added; or it has removed the
    directory, no key was added before it was removed, and nothing was loaded and no
    file deleted after. The directory is left behind exactly when CREATE DATABASE
    succeeded and no \<open>rmdir\<close> was done.
\<close>

theorem working_directory:
  assumes "script_config en argv = Some c" and "effects s0 = []"
    and "output_dir_name c \<notin> set (dirs s0) \<longrightarrow>
           list_all (\<lambda>p. \<not> prefix (output_dir_name c @ ''/'') p) (paths s0)"
  shows "(if output_dir_name c \<in> set (dirs s0) \<or> output_dir_name c \<in> set (paths s0) \<or>
        parent_dir (output_dir_name c) \<notin> set (dirs s0) \<or>
        \<not> writable en (parent_dir (output_dir_name c))
     then run en argv cbs s0 = Inl (OSError, s0)
     else
       (case run en argv cbs s0 of
          Inr s' \<Rightarrow>
            output_dir_name c \<notin> set (dirs s') \<and>
            filter (\<lambda>e. is_dir_effect e \<or> is_copy e \<or> is_unlink e \<or> is_key_effect e)
                (effects s') =
              [Mkdir (output_dir_name c)]
              @ concat (map (\<lambda>(v, t). copy_effects t
                   (wire_file (rows_for c v (sentinels c @ cbs)))) (load_order c))
              @ map (\<lambda>(v, t). Unlink (output_dir_name c @ ''/'' @ file_name v)) (load_order c)
              @ [Rmdir (output_dir_name c)]
              @ map Query (key_statements (effects s')) \<and>
            key_statements (effects s') \<noteq> []
        | Inl (e, s') \<Rightarrow>
            (dir_kept (output_dir_name c) (dbname c) s' \<or> dir_gone (output_dir_name c) s') \<and>
            (output_dir_name c \<in> set (dirs s') \<longleftrightarrow>
               Query (CreateDatabase (dbname c)) \<in> set (effects s') \<and>
               Rmdir (output_dir_name c) \<notin> set (effects s'))))"
proof (cases "output_dir_name c \<in> set (dirs s0) \<or> output_dir_name c \<in> set (paths s0) \<or>
        parent_dir (output_dir_name c) \<notin> set (dirs s0) \<or>
        \<not> writable en (parent_dir (output_dir_name c))")
  case True
  from script_body_mkdir_fails [OF True] assms(1)
  have "run en argv cbs s0 = Inl (OSError, s0)" by (simp add: run_def script_def)
  with True show ?thesis by (simp only: if_True)
next
  case False
  let ?d = "output_dir_name c"
  from False assms(3) have fs: "list_all (\<lambda>p. \<not> prefix (?d @ ''/'') p) (paths s0)" by blast
  note body = script_body_dir [OF False assms(2) fs]
  have fail: "(dir_kept ?d (dbname c) s' \<or> dir_gone ?d s') \<and>
        (?d \<in> set (dirs s') \<longleftrightarrow>
           Query (CreateDatabase (dbname c)) \<in> set (effects s') \<and> Rmdir ?d \<notin> set (effects s'))"
    if "dir_kept ?d (dbname c) s' \<or> dir_gone ?d s'" for s'
    using that by (auto simp: dir_kept_def dir_gone_def)
  have run: "run en argv cbs s0 =
      (case script_body en c s0 of
         Inl e \<Rightarrow> Inl e
       | Inr s1 \<Rightarrow> (case encode_phase c cbs s1 of
           Inl e \<Rightarrow> Inl e
         | Inr s2 \<Rightarrow> trace_end en c s2))"
    using assms(1) by (simp add: run_def script_def split: sum.splits)
  have "case run en argv cbs s0 of
          Inr s' \<Rightarrow>
            ?d \<notin> set (dirs s') \<and>
            filter (\<lambda>e. is_dir_effect e \<or> is_copy e \<or> is_unlink e \<or> is_key_effect e)
                (effects s') =
              [Mkdir ?d]
              @ concat (map (\<lambda>(v, t). copy_effects t
                   (wire_file (rows_for c v (sentinels c @ cbs)))) (load_order c))
              @ map (\<lambda>(v, t). Unlink (?d @ ''/'' @ file_name v)) (load_order c)
              @ [Rmdir ?d]
              @ map Query (key_statements (effects s')) \<and>
            key_statements (effects s') \<noteq> []
        | Inl (e, s') \<Rightarrow>
            (dir_kept ?d (dbname c) s' \<or> dir_gone ?d s') \<and>
            (?d \<in> set (dirs s') \<longleftrightarrow>
               Query (CreateDatabase (dbname c)) \<in> set (effects s') \<and>
               Rmdir ?d \<notin> set (effects s'))"
  proof (cases "run en argv cbs s0")
    case (Inr s')
    have e: "effects s' = run_effects c cbs"
      using run_Inr_effects(1) [OF assms(1) Inr] assms(2) by simp
    have d: "?d \<notin> set (dirs s')"
      using run_Inr_effects(2) [OF assms(1) Inr] by simp
    have k: "add_primary_keys c @ add_foreign_keys c \<noteq> []"
      by (simp add: add_primary_keys_def)
    from d k show ?thesis
      unfolding Inr sum.case e key_statements_run run_directory_order by simp
  next
    case (Inl x)
    obtain e s' where x: "x = (e, s')" by (cases x)
    have "dir_kept ?d (dbname c) s' \<or> dir_gone ?d s'"
    proof (cases "script_body en c s0")
      case b: (Inl y)
      with Inl run have "y = (e, s')" by (simp add: x)
      with body b show ?thesis by simp
    next
      case b: (Inr s1)
      with body have k1: "dir_kept ?d (dbname c) s1" by simp
      have k2: "dir_kept ?d (dbname c) (final (encode_phase c cbs s1))"
        by (rule standing_kept [OF encode_phase_quiet k1]) (rule standing_simps)
      show ?thesis
      proof (cases "encode_phase c cbs s1")
        case n: (Inl y)
        with Inl run b have "y = (e, s')" by (simp add: x)
        with k2 n show ?thesis by simp
      next
        case n: (Inr s2)
        with k2 have k: "dir_kept ?d (dbname c) s2" by simp
        from Inl run b n have "trace_end en c s2 = Inl (e, s')" by (simp add: x)
        with trace_end_dir [OF k, of en] show ?thesis by simp
      qed
    qed
    from fail [OF this] show ?thesis unfolding Inl x by simp
  qed
  with False show ?thesis by (simp only: if_False)
qed

theorem working_directory_witness:
  "script_config ex_env ex_argv = Some (ex_cfg False False False) \<and>
   effects (fresh [''/w'']) = [] \<and>
   list_all (\<lambda>p. \<not> prefix (''/w/db-perf-data'' @ ''/'') p) (paths (fresh [''/w''])) \<and>
   ''/w/db-perf-data'' \<notin> set (dirs (fresh [''/w''])) \<and>
   ''/w/db-perf-data'' \<notin> set (paths (fresh [''/w''])) \<and>
   parent_dir ''/w/db-perf-data'' \<in> set (dirs (fresh [''/w''])) \<and>
   writable ex_env (parent_dir ''/w/db-perf-data'') \<and>
   (\<exists>s'. run ex_env ex_argv ex_cbs (fresh [''/w'']) = Inr s' \<and>
      ''/w/db-perf-data'' \<notin> set (dirs s') \<and>
      filter (\<lambda>e. is_dir_effect e \<or> is_key_effect e) (effects s') =
        [Mkdir ''/w/db-perf-data'', Rmdir ''/w/db-perf-data'']
        @ map Query (key_statements (effects s')) \<and>
      key_statements (effects s') \<noteq> [])"
proof -
  let ?c = "ex_cfg False False False"
  let ?P = "\<lambda>e. is_dir_effect e \<or> is_copy e \<or> is_unlink e \<or> is_key_effect e"
  let ?Q = "\<lambda>e. is_dir_effect e \<or> is_key_effect e"
  have z: "effects (fresh [''/w'']) = []" by (simp add: fresh_def)
  have fs: "output_dir_name ?c \<notin> set (dirs (fresh [''/w''])) \<longrightarrow>
      list_all (\<lambda>p. \<not> prefix (output_dir_name ?c @ ''/'') p) (paths (fresh [''/w'']))"
    by (simp add: fresh_def)
  have pre: "list_all (\<lambda>p. \<not> prefix (''/w/db-perf-data'' @ ''/'') p) (paths (fresh [''/w'']))"
    "''/w/db-perf-data'' \<notin> set (dirs (fresh [''/w'']))"
    "''/w/db-perf-data'' \<notin> set (paths (fresh [''/w'']))"
    "parent_dir ''/w/db-perf-data'' \<in> set (dirs (fresh [''/w'']))"
    "writable ex_env (parent_dir ''/w/db-perf-data'')"
    by (simp_all add: fresh_def parent_dir_def ex_env_def)
  from ex_run obtain s' where r: "run ex_env ex_argv ex_cbs (fresh [''/w'']) = Inr s'" by blast
  from working_directory [OF ex_config z fs, of ex_cbs] pre r
  have d: "''/w/db-perf-data'' \<notin> set (dirs s')"
    and f: "filter ?P (effects s') =
        [Mkdir ''/w/db-perf-data'']
        @ concat (map (\<lambda>(v, t). copy_effects t
             (wire_file (rows_for ?c v (sentinels ?c @ ex_cbs)))) (load_order ?c))
        @ map (\<lambda>(v, t). Unlink (''/w/db-perf-data'' @ ''/'' @ file_name v)) (load_order ?c)
        @ [Rmdir ''/w/db-perf-data'']
        @ map Query (key_statements (effects s'))"
    and k: "key_statements (effects s') \<noteq> []"
    by (simp_all add: ex_cfg_def)
  have "filter ?Q (effects s') = filter ?Q (filter ?P (effects s'))"
    by (simp add: conj_disj_distribL cong: conj_cong) (rule filter_cong, auto)
  also have "\<dots> = [Mkdir ''/w/db-perf-data'', Rmdir ''/w/db-perf-data'']
        @ map Query (key_statements (effects s'))"
  proof -
    have 1: "filter ?Q (concat (map (\<lambda>(v, t). copy_effects t (g v)) vts)) = []"
      for g and vts :: "(file_var \<times> string) list"
      by (rule filter_drop_all) (rule list_all_mono' [OF list_all_copies], auto elim: is_copy.elims)
    have 2: "filter ?Q (map (\<lambda>(v, t). Unlink (g v)) vts) = []"
      for g and vts :: "(file_var \<times> string) list"
      by (rule filter_drop_all) (rule list_all_mono' [OF list_all_unlinks], auto elim: is_unlink.elims)
    have 3: "filter ?Q (map Query (key_statements es)) = map Query (key_statements es)" for es
    proof (rule filter_keep_all)
      have "list_all is_key (key_statements es)"
      proof (induction es)
        case Nil
        show ?case by simp
      next
        case (Cons x xs)
        then show ?case by (cases x) simp_all
      qed
      then show "list_all ?Q (map Query (key_statements es))"
        by (induction "key_statements es") (simp_all add: list_all_iff)
    qed
    show ?thesis unfolding f filter_append 1 2 3 by simp
  qed
  finally have "filter ?Q (effects s') = [Mkdir ''/w/db-perf-data'', Rmdir ''/w/db-perf-data'']
        @ map Query (key_statements (effects s'))" .
  with ex_config z pre r d k show ?thesis by blast
qed

text \<open>
  C7 as stated fails: when CREATE DATABASE fails the run fails, and the working directory
  has been removed again.
\<close>

theorem working_directory_counterexample:
  "(case run ex_env_no_create ex_argv ex_cbs (fresh [''/w'']) of
      Inr _ \<Rightarrow> False
    | Inl (e, s') \<Rightarrow>
        ''/w/db-perf-data'' \<notin> set (dirs s') \<and>
        effects s' = [Mkdir ''/w/db-perf-data'', Stdout [Today, Str ''Creating database...''],
                      Rmdir ''/w/db-perf-data''])"
  by (simp add: run_def script_def script_config_def script_args_def ex_argv_def
      ex_env_no_create_def ex_env_def script_body_cases parent_dir_def os_mkdir_def py_print_def
      create_database_def do_query_def os_rmdir_def emit_def fresh_def)

section \<open>The argument checks\<close>

lemma scan_options_None_iff:
  "scan_options as calls callchains = None \<longleftrightarrow>
     (\<exists>a\<in>set as. a \<noteq> ''calls'' \<and> a \<noteq> ''callchains'')"
  by (induction as calls callchains rule: scan_options.induct) auto

lemma scan_options_Some:
  "scan_options as calls callchains = Some (x, y) \<Longrightarrow>
     x = (calls \<or> ''calls'' \<in> set as) \<and> y = (callchains \<or> ''callchains'' \<in> set as)"
  by (induction as calls callchains rule: scan_options.induct) (auto split: if_splits)

lemma script_args_None_iff:
  "script_args argv = None \<longleftrightarrow>
     length argv < 2 \<or>
     (3 \<le> length argv \<and> argv ! 2 \<noteq> ''all'' \<and> argv ! 2 \<noteq> ''branches'') \<or>
     (\<exists>a\<in>set (drop 3 argv). a \<noteq> ''calls'' \<and> a \<noteq> ''callchains'')"
proof (cases "length argv < 2")
  case True
  then show ?thesis by (simp add: script_args_def)
next
  case False
  then have d: "length argv < 3 \<Longrightarrow> drop 3 argv = []" by simp
  show ?thesis
    using False d scan_options_None_iff [of "drop 3 argv" False False]
    by (auto simp: script_args_def Let_def split: option.splits)
qed

lemma script_args_Some:
  assumes "script_args argv = Some (db, br, calls, callchains)"
  shows "db = argv ! 1" and "br = (3 \<le> length argv \<and> argv ! 2 = ''branches'')"
    and "calls = (''calls'' \<in> set (drop 3 argv))"
    and "callchains = (''callchains'' \<in> set (drop 3 argv))"
  using assms
  by (auto simp: script_args_def Let_def split: if_splits option.splits
      dest!: scan_options_Some)

lemma usage_eq:
  "usage s =
     (Exception [Str ''Too few arguments''],
      s\<lparr>effects := effects s @ map (\<lambda>l. Stderr [Str l]) usage_lines\<rparr>)"
  by (simp add: usage_def usage_lines_def emit_def)

lemma seq_extends:
  assumes "\<And>f s. f \<in> set fs \<Longrightarrow> \<exists>l. effects (final (f s)) = effects s @ l"
  shows "\<exists>l. effects (final (seq fs s)) = effects s @ l"
  using assms
proof (induction fs arbitrary: s)
  case Nil
  then show ?case by simp
next
  case (Cons f fs)
  from Cons.prems [of f s] obtain l where l: "effects (final (f s)) = effects s @ l"
    by auto
  show ?case
  proof (cases "f s")
    case (Inl e)
    with l show ?thesis by auto
  next
    case (Inr s1)
    from Cons.IH [of s1] Cons.prems obtain l' where
      "effects (final (seq fs s1)) = effects s1 @ l'" by auto
    with l Inr show ?thesis by auto
  qed
qed

lemma quiet_extends: "quiet P s s' \<Longrightarrow> \<exists>l. effects s' = effects s @ l"
  unfolding quiet_iff by blast

lemma create_database_extends:
  "\<exists>l. effects (final (create_database en c s)) = effects s @ l"
  by (auto simp: create_database_def do_query_def os_rmdir_def emit_def)

lemma script_body_begins:
  assumes "\<not> (output_dir_name c \<in> set (dirs s) \<or> output_dir_name c \<in> set (paths s) \<or>
      parent_dir (output_dir_name c) \<notin> set (dirs s) \<or>
      \<not> writable en (parent_dir (output_dir_name c)))"
  shows "take (Suc (length (effects s))) (effects (final (script_body en c s))) =
       effects s @ [Mkdir (output_dir_name c)]"
proof -
  let ?d = "output_dir_name c"
  define sA where "sA = emit (Mkdir ?d) (s\<lparr>dirs := ?d # dirs s\<rparr>)"
  let ?rest = "py_print [Today, Str ''Creating database...''] # create_database en c
     # (do_query en SetClientMinMessages # map (do_query en) (create_tables c)
              @ map (do_query en) (create_views c)
              @ [open_files c, (\<lambda>s. Inr (s\<lparr>unhandled_count := 0\<rparr>))])"
  have b: "script_body en c s = seq ?rest sA"
    using assms by (simp add: script_body_def os_mkdir_def sA_def)
  have "\<exists>l. effects (final (f s)) = effects s @ l" if "f \<in> set ?rest" for f s
  proof -
    from that consider "f = py_print [Today, Str ''Creating database...'']"
      | "f = create_database en c"
      | "f \<in> set (do_query en SetClientMinMessages # map (do_query en) (create_tables c)
              @ map (do_query en) (create_views c)
              @ [open_files c, (\<lambda>s. Inr (s\<lparr>unhandled_count := 0\<rparr>))])"
      by auto
    then show ?thesis
    proof cases
      case 1
      then show ?thesis by (simp add: py_print_def emit_def)
    next
      case 2
      then show ?thesis by (simp add: create_database_extends)
    next
      case 3
      from quiet_extends [OF script_rest_quiet [OF 3]] show ?thesis .
    qed
  qed
  then have "\<exists>l. effects (final (seq ?rest sA)) = effects sA @ l"
    by (rule seq_extends)
  then obtain l where "effects (final (seq ?rest sA)) = effects sA @ l" by blast
  then show ?thesis by (simp add: b sA_def emit_def)
qed

section \<open>C6: the command line is checked before anything is created\<close>

text \<open>
  C6. With \<open>argv\<close> the tokens of the command line as the script sees them, its own name
  first: the script calls \<open>usage()\<close> exactly when there are fewer than two tokens, or the
  columns token is neither \<open>all\<close> nor \<open>branches\<close>, or a token after it is neither
  \<open>calls\<close> nor \<open>callchains\<close>. Then the run ends with the exception of \<open>usage()\<close>, and
  all it has done is to print the usage text on stderr: no directory, no file, no database
  statement. In every other case the script goes on to its body with the database name,
  the variant and the flags of the command line; the body begins with \<open>os.mkdir\<close> of the
  working directory, so its first effect is to create that directory, unless \<open>os.mkdir\<close>
  fails, and then the run ends with OSError and not with the exception of \<open>usage()\<close>.
\<close>

theorem command_line_checked:
  "(script_args argv = None \<longleftrightarrow>
      length argv < 2 \<or>
      (3 \<le> length argv \<and> argv ! 2 \<noteq> ''all'' \<and> argv ! 2 \<noteq> ''branches'') \<or>
      (\<exists>a\<in>set (drop 3 argv). a \<noteq> ''calls'' \<and> a \<noteq> ''callchains'')) \<and>
   (script_args argv = None \<longrightarrow>
      script en argv s =
        Inl (Exception [Str ''Too few arguments''],
             s\<lparr>effects := effects s @ map (\<lambda>l. Stderr [Str l]) usage_lines\<rparr>) \<and>
      run en argv cbs s = script en argv s) \<and>
   (script_args argv \<noteq> None \<longrightarrow>
      (\<exists>c. script_config en argv = Some c \<and> script en argv s = script_body en c s \<and>
         dbname c = argv ! 1 \<and>
         branches c = (3 \<le> length argv \<and> argv ! 2 = ''branches'') \<and>
         perf_db_export_calls c = (''calls'' \<in> set (drop 3 argv)) \<and>
         perf_db_export_callchains c = (''callchains'' \<in> set (drop 3 argv)) \<and>
         output_dir_name c = getcwd en @ ''/'' @ argv ! 1 @ ''-perf-data'' \<and>
         (if output_dir_name c \<in> set (dirs s) \<or> output_dir_name c \<in> set (paths s) \<or>
             parent_dir (output_dir_name c) \<notin> set (dirs s) \<or>
             \<not> writable en (parent_dir (output_dir_name c))
          then script en argv s = Inl (OSError, s)
          else take (Suc (length (effects s))) (effects (final (script en argv s))) =
              effects s @ [Mkdir (output_dir_name c)])))"
proof (intro conjI impI)
  show "script_args argv = None \<longleftrightarrow>
      length argv < 2 \<or>
      (3 \<le> length argv \<and> argv ! 2 \<noteq> ''all'' \<and> argv ! 2 \<noteq> ''branches'') \<or>
      (\<exists>a\<in>set (drop 3 argv). a \<noteq> ''calls'' \<and> a \<noteq> ''callchains'')"
    by (rule script_args_None_iff)
next
  assume "script_args argv = None"
  then show "script en argv s =
        Inl (Exception [Str ''Too few arguments''],
             s\<lparr>effects := effects s @ map (\<lambda>l. Stderr [Str l]) usage_lines\<rparr>)"
    by (simp add: script_def script_config_def usage_eq)
next
  assume "script_args argv = None"
  then show "run en argv cbs s = script en argv s"
    by (simp add: run_def script_config_def)
next
  assume "script_args argv \<noteq> None"
  then obtain db br calls callchains where a: "script_args argv = Some (db, br, calls, callchains)"
    by (cases "script_args argv") auto
  define c where "c = \<lparr>dbname = db, branches = br, perf_db_export_calls = calls,
      perf_db_export_callchains = callchains,
      output_dir_name = getcwd en @ ''/'' @ db @ ''-perf-data''\<rparr>"
  have cfg: "script_config en argv = Some c" by (simp add: script_config_def a c_def)
  have body: "script en argv s = script_body en c s" by (simp add: script_def cfg)
  note A = script_args_Some [OF a]
  have mk: "if output_dir_name c \<in> set (dirs s) \<or> output_dir_name c \<in> set (paths s) \<or>
             parent_dir (output_dir_name c) \<notin> set (dirs s) \<or>
             \<not> writable en (parent_dir (output_dir_name c))
          then script en argv s = Inl (OSError, s)
          else take (Suc (length (effects s))) (effects (final (script en argv s))) =
              effects s @ [Mkdir (output_dir_name c)]"
  proof (cases "output_dir_name c \<in> set (dirs s) \<or> output_dir_name c \<in> set (paths s) \<or>
             parent_dir (output_dir_name c) \<notin> set (dirs s) \<or>
             \<not> writable en (parent_dir (output_dir_name c))")
    case True
    from script_body_mkdir_fails [OF True] True show ?thesis
      unfolding body by (simp only: if_True)
  next
    case False
    from script_body_begins [OF False] False show ?thesis
      unfolding body by (simp only: if_False)
  qed
  show "\<exists>c. script_config en argv = Some c \<and> script en argv s = script_body en c s \<and>
         dbname c = argv ! 1 \<and>
         branches c = (3 \<le> length argv \<and> argv ! 2 = ''branches'') \<and>
         perf_db_export_calls c = (''calls'' \<in> set (drop 3 argv)) \<and>
         perf_db_export_callchains c = (''callchains'' \<in> set (drop 3 argv)) \<and>
         output_dir_name c = getcwd en @ ''/'' @ argv ! 1 @ ''-perf-data'' \<and>
         (if output_dir_name c \<in> set (dirs s) \<or> output_dir_name c \<in> set (paths s) \<or>
             parent_dir (output_dir_name c) \<notin> set (dirs s) \<or>
             \<not> writable en (parent_dir (output_dir_name c))
          then script en argv s = Inl (OSError, s)
          else take (Suc (length (effects s))) (effects (final (script en argv s))) =
              effects s @ [Mkdir (output_dir_name c)])"
  proof (intro exI [of _ c] conjI)
    show "script_config en argv = Some c" by (rule cfg)
    show "script en argv s = script_body en c s" by (rule body)
    show "dbname c = argv ! 1" using A by (simp add: c_def)
    show "branches c = (3 \<le> length argv \<and> argv ! 2 = ''branches'')" using A by (simp add: c_def)
    show "perf_db_export_calls c = (''calls'' \<in> set (drop 3 argv))" using A by (simp add: c_def)
    show "perf_db_export_callchains c = (''callchains'' \<in> set (drop 3 argv))"
      using A by (simp add: c_def)
    show "output_dir_name c = getcwd en @ ''/'' @ argv ! 1 @ ''-perf-data''"
      using A by (simp add: c_def)
    show "if output_dir_name c \<in> set (dirs s) \<or> output_dir_name c \<in> set (paths s) \<or>
             parent_dir (output_dir_name c) \<notin> set (dirs s) \<or>
             \<not> writable en (parent_dir (output_dir_name c))
          then script en argv s = Inl (OSError, s)
          else take (Suc (length (effects s))) (effects (final (script en argv s))) =
              effects s @ [Mkdir (output_dir_name c)]" by (rule mk)
  qed
qed

theorem command_line_checked_witness:
  "script_args [''export-to-postgresql.py'', ''db'', ''some''] = None \<and>
   run ex_env [''export-to-postgresql.py'', ''db'', ''some''] ex_cbs (fresh [''/w'']) =
     Inl (Exception [Str ''Too few arguments''],
          (fresh [''/w''])\<lparr>effects := map (\<lambda>l. Stderr [Str l]) usage_lines\<rparr>) \<and>
   script_args ex_argv \<noteq> None \<and>
   script ex_env ex_argv (fresh [''/w'']) =
     script_body ex_env (ex_cfg False False False) (fresh [''/w'']) \<and>
   take (Suc 0) (effects (final (script ex_env ex_argv (fresh [''/w''])))) =
     [Mkdir ''/w/db-perf-data''] \<and>
   script ex_env ex_argv (fresh []) = Inl (OSError, fresh [])"
proof -
  let ?bad = "[''export-to-postgresql.py'', ''db'', ''some'']"
  have n: "script_args ?bad = None" by (simp add: script_args_def)
  have v: "script_args ex_argv \<noteq> None" by (simp add: script_args_def ex_argv_def)
  from command_line_checked [of ?bad ex_env "fresh [''/w'']" ex_cbs] n
  have 1: "run ex_env ?bad ex_cbs (fresh [''/w'']) =
     Inl (Exception [Str ''Too few arguments''],
          (fresh [''/w''])\<lparr>effects := map (\<lambda>l. Stderr [Str l]) usage_lines\<rparr>)"
    by (simp add: fresh_def)
  from command_line_checked [of ex_argv ex_env "fresh [''/w'']" ex_cbs] v
  obtain c where c: "script_config ex_env ex_argv = Some c"
    and b: "script ex_env ex_argv (fresh [''/w'']) = script_body ex_env c (fresh [''/w''])"
    and m: "if output_dir_name c \<in> set (dirs (fresh [''/w''])) \<or>
             output_dir_name c \<in> set (paths (fresh [''/w''])) \<or>
             parent_dir (output_dir_name c) \<notin> set (dirs (fresh [''/w''])) \<or>
             \<not> writable ex_env (parent_dir (output_dir_name c))
          then script ex_env ex_argv (fresh [''/w'']) = Inl (OSError, fresh [''/w''])
          else take (Suc (length (effects (fresh [''/w''])))) (effects (final (script ex_env ex_argv
              (fresh [''/w''])))) = effects (fresh [''/w'']) @ [Mkdir (output_dir_name c)]"
    by blast
  from c ex_config have ceq: "c = ex_cfg False False False" by simp
  from m have 3: "take (Suc 0) (effects (final (script ex_env ex_argv (fresh [''/w''])))) =
     [Mkdir ''/w/db-perf-data'']"
    by (simp add: ceq ex_cfg_def fresh_def parent_dir_def ex_env_def)
  from command_line_checked [of ex_argv ex_env "fresh []" ex_cbs] v
  obtain c' where c': "script_config ex_env ex_argv = Some c'"
    and m': "if output_dir_name c' \<in> set (dirs (fresh [])) \<or>
             output_dir_name c' \<in> set (paths (fresh [])) \<or>
             parent_dir (output_dir_name c') \<notin> set (dirs (fresh [])) \<or>
             \<not> writable ex_env (parent_dir (output_dir_name c'))
          then script ex_env ex_argv (fresh []) = Inl (OSError, fresh [])
          else take (Suc (length (effects (fresh [])))) (effects (final (script ex_env ex_argv
              (fresh [])))) = effects (fresh []) @ [Mkdir (output_dir_name c')]"
    by blast
  from m' have 4: "script ex_env ex_argv (fresh []) = Inl (OSError, fresh [])"
    by (simp add: fresh_def)
  from n 1 v b 3 4 show ?thesis by (simp add: ceq)
qed

end
